theory Spec2Isabelle
  imports Main "HOL-Library.Word"
begin

unbundle bit_operations_syntax

section \<open>Value types\<close>

text \<open>
  The wallet core of \<^verbatim>\<open>wallet.cc\<close>, embedded function by function.  C++ \<^verbatim>\<open>unsigned char\<close>
  is an 8-bit word, \<^verbatim>\<open>int64_t\<close> a 64-bit word read with \<open>sint\<close>.  A \<^verbatim>\<open>uint256\<close> is a buffer
  of exactly 32 bytes.  An SQLite INTEGER cell is an \<open>int\<close>; \<^verbatim>\<open>sqlite3_column_int\<close> and the
  conversions to C++ \<^verbatim>\<open>int\<close> truncate to 32 bits.
\<close>

type_synonym byte = "8 word"
type_synonym i64 = "64 word"

typedef uint256 = "{bs :: byte list. length bs = 32}"
  by (rule exI [of _ "replicate 32 0"]) simp

definition to_int32 :: "int \<Rightarrow> int" where
  "to_int32 x = sint (word_of_int x :: 32 word)"

definition bytes_of_string :: "string \<Rightarrow> byte list" where
  "bytes_of_string s = map (\<lambda>c. of_nat (of_char c)) s"

text \<open>\<^verbatim>\<open>absl::BytesToHexString\<close>: two lower-case hexadecimal digits per byte.\<close>

definition hex_digit :: "nat \<Rightarrow> char" where
  "hex_digit n = ''0123456789abcdef'' ! n"

definition BytesToHexString :: "byte list \<Rightarrow> string" where
  "BytesToHexString bs =
     concat (map (\<lambda>b. [hex_digit (unat b div 16), hex_digit (unat b mod 16)]) bs)"

text \<open>\<^verbatim>\<open>std::to_string\<close> on an integer: its decimal digits, with a sign when negative.\<close>

fun dec_nat :: "nat \<Rightarrow> string" where
  "dec_nat n =
     (if n < 10 then [''0123456789'' ! n]
      else dec_nat (n div 10) @ [''0123456789'' ! (n mod 10)])"

definition to_string_int :: "int \<Rightarrow> string" where
  "to_string_int i = (if i < 0 then CHR ''-'' # dec_nat (nat (- i)) else dec_nat (nat i))"

text \<open>The \<^verbatim>\<open>HashType\<close> enumeration, its names in the recovery log, and \<^verbatim>\<open>get_hash_type\<close>.\<close>

datatype HashType = UNUSED | RECEIVE | PAYMENT | CHANGE | MINING

fun to_string_HashType :: "HashType \<Rightarrow> string" where
  "to_string_HashType UNUSED = ''unused''"
| "to_string_HashType PAYMENT = ''pay''"
| "to_string_HashType RECEIVE = ''recieve''"
| "to_string_HashType CHANGE = ''change''"
| "to_string_HashType MINING = ''mining''"

definition get_hash_type :: "bool \<Rightarrow> bool \<Rightarrow> HashType" where
  "get_hash_type mine sweep =
     (if \<not> mine \<and> \<not> sweep then PAYMENT
      else if \<not> mine \<and> sweep then RECEIVE
      else if mine \<and> \<not> sweep then CHANGE
      else if mine \<and> sweep then MINING
      else UNUSED)"

record SecretWebcash =
  sk :: string
  sk_amount :: i64

record PublicWebcash =
  pk :: uint256
  pk_amount :: i64

text \<open>
  The constructor \<^verbatim>\<open>PublicWebcash(const SecretWebcash&)\<close>: the hash of the secret's bytes and
  the same amount.  \<^verbatim>\<open>CSHA256\<close> itself (\<^verbatim>\<open>crypto/sha256.h\<close>) is not part of the sources, so
  the digest function is a parameter \<open>H\<close> of everything that hashes.
\<close>

definition PublicWebcash_of :: "(byte list \<Rightarrow> uint256) \<Rightarrow> SecretWebcash \<Rightarrow> PublicWebcash" where
  "PublicWebcash_of H esk = \<lparr>pk = H (bytes_of_string (sk esk)), pk_amount = sk_amount esk\<rparr>"

text \<open>
  Modelled from the spec: \<^verbatim>\<open>to_string(const SecretWebcash&)\<close> is declared in the header and
  defined outside the sources.  The spec gives the text \<^verbatim>\<open>e<amount>:secret:<hex>\<close>; the
  amount is rendered here as the decimal of its 64-bit value.
\<close>

definition to_string_SecretWebcash :: "SecretWebcash \<Rightarrow> string" where
  "to_string_SecretWebcash esk =
     ''e'' @ to_string_int (sint (sk_amount esk)) @ '':secret:'' @ sk esk"

record WalletSecret =
  ws_id :: int
  ws_timestamp :: int
  ws_secret :: string
  ws_mine :: bool
  ws_sweep :: bool

record WalletOutput =
  wo_id :: int
  wo_timestamp :: int
  wo_hash :: uint256
  wo_secret :: "WalletSecret option"
  wo_amount :: i64
  wo_spent :: bool

section \<open>The database\<close>

text \<open>
  The six tables of \<^verbatim>\<open>UpgradeDatabase\<close>, each a list of rows in insertion order.  The columns
  \<^verbatim>\<open>mine\<close>, \<^verbatim>\<open>sweep\<close> and \<^verbatim>\<open>spent\<close> only ever receive \<^verbatim>\<open>SqlBool\<close> bindings (0 or 1) and the
  results of \<^verbatim>\<open>&\<close> and \<^verbatim>\<open>|\<close> on such values, so they are booleans here.
\<close>

record terms_row =
  t_id :: int
  t_body :: string
  t_timestamp :: int

record secret_row =
  s_id :: int
  s_timestamp :: int
  s_secret :: string
  s_mine :: bool
  s_sweep :: bool

record output_row =
  o_id :: int
  o_timestamp :: int
  o_hash :: "byte list"
  o_secret_id :: "int option"
  o_amount :: int
  o_spent :: bool

record hdroot_row =
  r_id :: int
  r_timestamp :: int
  r_version :: int
  r_secret :: "byte list"

record hdchain_row =
  c_id :: int
  c_hdroot_id :: int
  c_chaincode :: int
  c_mine :: bool
  c_sweep :: bool
  c_mindepth :: int
  c_maxdepth :: int

record hdkey_row =
  k_id :: int
  k_hdchain_id :: int
  k_depth :: int
  k_secret_id :: int

record tables =
  terms_tab :: "terms_row list"
  secret_tab :: "secret_row list"
  output_tab :: "output_row list"
  hdroot_tab :: "hdroot_row list"
  hdchain_tab :: "hdchain_row list"
  hdkey_tab :: "hdkey_row list"

text \<open>
  The connection \<^verbatim>\<open>m_db\<close>.  \<open>live\<close> is what the connection reads and writes, \<open>disk\<close> what
  has been committed; outside a transaction every statement commits by itself.  \<open>faults\<close>
  is the environment: the outcomes of the coming calls into SQLite, one per statement or
  query, \<open>True\<close> for a call that returns an error code (an exhausted list means no more
  errors).  A statement that fails leaves the tables as they were.
\<close>

record sqlite3 =
  live :: tables
  disk :: tables
  in_txn :: bool
  last_insert_rowid :: int
  faults :: "bool list"

text \<open>A fresh \<^verbatim>\<open>INTEGER PRIMARY KEY\<close>: one more than the largest in use, 1 in an empty table.\<close>

definition next_rowid :: "int list \<Rightarrow> int" where
  "next_rowid ids = (if ids = [] then 1 else Max (set ids) + 1)"

text \<open>
  The SQL statements that occur in the source strings, with the values bound to their
  named parameters.
\<close>

datatype stmt =
    BEGIN_TRANSACTION
  | COMMIT
  | INSERT_hdroot int "byte list"
  | INSERT_hdchain "byte list"
  | INSERT_secret int string bool bool
  | UPDATE_secret_mine bool string
  | UPDATE_secret_sweep bool string
  | INSERT_hdkey int int string
  | UPDATE_hdchain_maxdepth int
  | INSERT_output int "byte list" "int option" int bool
  | UPDATE_output_spent int

text \<open>The scalar subqueries \<^verbatim>\<open>(SELECT id FROM ... WHERE secret = :secret)\<close>: NULL without a row.\<close>

definition select_hdroot_id :: "tables \<Rightarrow> byte list \<Rightarrow> int option" where
  "select_hdroot_id t secret = map_option r_id (find (\<lambda>r. r_secret r = secret) (hdroot_tab t))"

definition select_secret_id :: "tables \<Rightarrow> string \<Rightarrow> int option" where
  "select_secret_id t secret = map_option s_id (find (\<lambda>s. s_secret s = secret) (secret_tab t))"

text \<open>
  What each data statement does when SQLite runs it, to the tables and to the value of
  \<^verbatim>\<open>sqlite3_last_insert_rowid\<close>.  One row of \<^verbatim>\<open>INSERT OR IGNORE INTO hdchain\<close> is skipped
  when \<^verbatim>\<open>hdroot_id\<close> is NULL (the column is NOT NULL) or when the row would repeat
  \<^verbatim>\<open>UNIQUE(hdroot_id,chaincode,mine,sweep)\<close>.
\<close>

definition insert_hdchain_row :: "int option \<Rightarrow> int \<Rightarrow> bool \<Rightarrow> bool \<Rightarrow> int \<Rightarrow> int \<Rightarrow> tables \<times> int \<Rightarrow> tables \<times> int" where
  "insert_hdchain_row hdroot_id chaincode mine sweep mindepth maxdepth tr =
     (case hdroot_id of
        None \<Rightarrow> tr
      | Some rid \<Rightarrow>
          if list_ex (\<lambda>c. c_hdroot_id c = rid \<and> c_chaincode c = chaincode \<and>
                          c_mine c = mine \<and> c_sweep c = sweep) (hdchain_tab (fst tr))
          then tr
          else
            let n = next_rowid (map c_id (hdchain_tab (fst tr))) in
            ((fst tr)\<lparr>hdchain_tab := hdchain_tab (fst tr) @
                [\<lparr>c_id = n, c_hdroot_id = rid, c_chaincode = chaincode, c_mine = mine,
                  c_sweep = sweep, c_mindepth = mindepth, c_maxdepth = maxdepth\<rparr>]\<rparr>, n))"

fun apply_stmt :: "stmt \<Rightarrow> tables \<times> int \<Rightarrow> tables \<times> int" where
  "apply_stmt BEGIN_TRANSACTION (t, rowid) = (t, rowid)"
| "apply_stmt COMMIT (t, rowid) = (t, rowid)"
| "apply_stmt (INSERT_hdroot timestamp secret) (t, rowid) =
     (if list_ex (\<lambda>r. r_version r = 1 \<and> r_secret r = secret) (hdroot_tab t) then (t, rowid)
      else
        let n = next_rowid (map r_id (hdroot_tab t)) in
        (t\<lparr>hdroot_tab := hdroot_tab t @
            [\<lparr>r_id = n, r_timestamp = timestamp, r_version = 1, r_secret = secret\<rparr>]\<rparr>, n))"
| "apply_stmt (INSERT_hdchain secret) (t, rowid) =
     (let rid = select_hdroot_id t secret in
      insert_hdchain_row rid 0 True True 0 0
        (insert_hdchain_row rid 0 True False 0 0
          (insert_hdchain_row rid 0 False True 0 0
            (insert_hdchain_row rid 0 False False 0 0 (t, rowid)))))"
| "apply_stmt (INSERT_secret timestamp secret mine sweep) (t, rowid) =
     (if list_ex (\<lambda>s. s_secret s = secret) (secret_tab t) then (t, rowid)
      else
        let n = next_rowid (map s_id (secret_tab t)) in
        (t\<lparr>secret_tab := secret_tab t @
            [\<lparr>s_id = n, s_timestamp = timestamp, s_secret = secret, s_mine = mine,
              s_sweep = sweep\<rparr>]\<rparr>, n))"
| "apply_stmt (UPDATE_secret_mine mine secret) (t, rowid) =
     (t\<lparr>secret_tab :=
         map (\<lambda>s. if s_secret s = secret then s\<lparr>s_mine := s_mine s \<and> mine\<rparr> else s)
           (secret_tab t)\<rparr>, rowid)"
| "apply_stmt (UPDATE_secret_sweep sweep secret) (t, rowid) =
     (t\<lparr>secret_tab :=
         map (\<lambda>s. if s_secret s = secret then s\<lparr>s_sweep := s_sweep s \<or> sweep\<rparr> else s)
           (secret_tab t)\<rparr>, rowid)"
| "apply_stmt (INSERT_hdkey hdchain_id depth secret) (t, rowid) =
     (case select_secret_id t secret of
        None \<Rightarrow> (t, rowid)
      | Some sid \<Rightarrow>
          if list_ex (\<lambda>k. k_secret_id k = sid \<or> (k_hdchain_id k = hdchain_id \<and> k_depth k = depth))
               (hdkey_tab t)
          then (t, rowid)
          else
            let n = next_rowid (map k_id (hdkey_tab t)) in
            (t\<lparr>hdkey_tab := hdkey_tab t @
                [\<lparr>k_id = n, k_hdchain_id = hdchain_id, k_depth = depth, k_secret_id = sid\<rparr>]\<rparr>, n))"
| "apply_stmt (UPDATE_hdchain_maxdepth hdchain_id) (t, rowid) =
     (t\<lparr>hdchain_tab :=
         map (\<lambda>c. if c_id c = hdchain_id then c\<lparr>c_maxdepth := c_maxdepth c + 1\<rparr> else c)
           (hdchain_tab t)\<rparr>, rowid)"
| "apply_stmt (INSERT_output timestamp hash secret_id amount spent) (t, rowid) =
     (let n = next_rowid (map o_id (output_tab t)) in
      (t\<lparr>output_tab := output_tab t @
          [\<lparr>o_id = n, o_timestamp = timestamp, o_hash = hash, o_secret_id = secret_id,
            o_amount = amount, o_spent = spent\<rparr>]\<rparr>, n))"
| "apply_stmt (UPDATE_output_spent output_id) (t, rowid) =
     (t\<lparr>output_tab :=
         map (\<lambda>r. if o_id r = output_id then r\<lparr>o_spent := True\<rparr> else r) (output_tab t)\<rparr>,
      rowid)"

text \<open>
  One call into SQLite takes the next outcome from the environment.  \<open>sqlite3_query\<close>
  is the prepare, bind and step of a SELECT; \<open>run_stmt\<close> those of one statement of
  \<^verbatim>\<open>ExecuteSql\<close>.  BEGIN inside a transaction and COMMIT outside one are errors of
  SQLite's own.
\<close>

definition sqlite3_query :: "sqlite3 \<Rightarrow> bool \<times> sqlite3" where
  "sqlite3_query db =
     (case faults db of
        [] \<Rightarrow> (True, db)
      | f # fs \<Rightarrow> (\<not> f, db\<lparr>faults := fs\<rparr>))"

definition run_stmt :: "stmt \<Rightarrow> sqlite3 \<Rightarrow> bool \<times> sqlite3" where
  "run_stmt s db =
     (case sqlite3_query db of
        (False, db0) \<Rightarrow> (False, db0)
      | (True, db0) \<Rightarrow>
          if s = BEGIN_TRANSACTION then
            (if in_txn db0 then (False, db0) else (True, db0\<lparr>in_txn := True\<rparr>))
          else if s = COMMIT then
            (if in_txn db0 then (True, db0\<lparr>disk := live db0, in_txn := False\<rparr>)
             else (False, db0))
          else
            let (t, rowid) = apply_stmt s (live db0, last_insert_rowid db0);
                db1 = db0\<lparr>live := t, last_insert_rowid := rowid\<rparr>
            in (True, if in_txn db1 then db1 else db1\<lparr>disk := t\<rparr>))"

section \<open>The wallet\<close>

record replace_request =
  webcashes :: "string list"
  new_webcashes :: "string list"
  legalese_terms :: bool

datatype http_result = HttpError | HttpResponse int string

text \<open>
  The \<^verbatim>\<open>Wallet\<close> object with the effects it has on the world: the lines of the recovery
  log at \<^verbatim>\<open>m_logfile\<close>, the messages written to \<^verbatim>\<open>std::cerr\<close> (the fixed text of each; the
  rendering of a webcash or of an SQLite error that follows it is left out), and the
  requests posted to the server.
\<close>

record Wallet =
  m_db :: sqlite3
  m_hdroot :: uint256
  m_hdroot_id :: int
  bak :: "string list"
  cerr :: "string list"
  posted :: "replace_request list"

fun ExecuteSql :: "stmt list \<Rightarrow> Wallet \<Rightarrow> bool \<times> Wallet" where
  "ExecuteSql [] w = (True, w)"
| "ExecuteSql (s # rest) w =
     (case run_stmt s (m_db w) of
        (False, db) \<Rightarrow>
          (False, w\<lparr>m_db := db,
                    cerr := cerr w @ [''Running SQL statement returned unexpected status code'']\<rparr>)
      | (True, db) \<Rightarrow> ExecuteSql rest (w\<lparr>m_db := db\<rparr>))"

subsection \<open>GetOrCreateHDRoot\<close>

text \<open>
  \<^verbatim>\<open>std::copy(data, data + len, m_hdroot.begin())\<close> followed by the zero fill of the rest,
  for \<^verbatim>\<open>len\<close> at most 32.
\<close>

definition uint256_load :: "byte list \<Rightarrow> uint256" where
  "uint256_load data = Abs_uint256 (take 32 data @ replicate (32 - length data) 0)"

text \<open>
  \<open>rnd\<close> is what \<^verbatim>\<open>GetStrongRandBytes\<close> delivers, \<open>now\<close> the clock in UNIX seconds, and
  \<open>bak_ok\<close> whether the recovery file can be opened for appending.  A \<^verbatim>\<open>throw\<close> is the
  result \<open>Inl\<close> with the message, beside the state the wallet is left in.  The function
  is given in its three parts: the block under \<^verbatim>\<open>count == 0\<close> that creates the root
  (lines 239 to 276), the block that loads it (lines 278 to 325), and the function that
  counts the rows and runs them.
\<close>

definition create_hdroot :: "uint256 \<Rightarrow> int \<Rightarrow> bool \<Rightarrow> Wallet \<Rightarrow> (string + unit) \<times> Wallet" where
  "create_hdroot rnd now bak_ok w =
     (let w1 = w\<lparr>m_hdroot := rnd\<rparr>;
          line = to_string_int now @ '' hdroot '' @
                 BytesToHexString (Rep_uint256 rnd) @ '' version=1''
      in if \<not> bak_ok then
           (Inl ''Unable to open/create wallet recovery file to save wallet master key.'',
            w1\<lparr>cerr := cerr w1 @
               [''Unable to open/create wallet recovery file to save wallet master key.'']\<rparr>)
         else
           (case ExecuteSql
                   [BEGIN_TRANSACTION,
                    INSERT_hdroot now (Rep_uint256 rnd),
                    INSERT_hdchain (Rep_uint256 rnd),
                    COMMIT]
                   (w1\<lparr>bak := bak w1 @ [line]\<rparr>) of
              (False, w2) \<Rightarrow>
                (Inl ''Unable to insert master secret into database.  See error log for details.'', w2)
            | (True, w2) \<Rightarrow> (Inr (), w2)))"

definition load_hdroot :: "Wallet \<Rightarrow> (string + unit) \<times> Wallet" where
  "load_hdroot w =
     (case sqlite3_query (m_db w) of
        (False, db) \<Rightarrow>
          (Inl ''Running SQL statement returned unexpected status code'',
           w\<lparr>m_db := db,
              cerr := cerr w @ [''Running SQL statement returned unexpected status code'']\<rparr>)
      | (True, db) \<Rightarrow>
          let w1 = w\<lparr>m_db := db\<rparr> in
          (case hdroot_tab (live db) of
             [] \<Rightarrow>
               (Inl ''Running SQL statement returned unexpected status code'',
                w1\<lparr>cerr := cerr w1 @ [''Running SQL statement returned unexpected status code'']\<rparr>)
           | row # _ \<Rightarrow>
               let hdroot_id = to_int32 (r_id row);
                   version = to_int32 (r_version row);
                   len = length (r_secret row)
               in if version \<noteq> 1 then
                    (Inl ''Wallet contains HD root with unrecognized version'',
                     w1\<lparr>cerr := cerr w1 @ [''Wallet contains HD root with unrecognized version'']\<rparr>)
                  else if len < 16 \<or> 32 < len then
                    (Inl ''Expected between 16-32 bytes for HD root secret value.'',
                     w1\<lparr>cerr := cerr w1 @ [''Expected between 16-32 bytes for HD root secret value.'']\<rparr>)
                  else
                    (Inr (), w1\<lparr>m_hdroot_id := hdroot_id,
                                m_hdroot := uint256_load (r_secret row)\<rparr>)))"

definition GetOrCreateHDRoot :: "uint256 \<Rightarrow> int \<Rightarrow> bool \<Rightarrow> Wallet \<Rightarrow> (string + unit) \<times> Wallet" where
  "GetOrCreateHDRoot rnd now bak_ok w =
     (case sqlite3_query (m_db w) of
        (False, db) \<Rightarrow>
          (Inl ''Running SQL statement returned unexpected status code'',
           w\<lparr>m_db := db, cerr := cerr w @ [''Running SQL statement returned unexpected status code'']\<rparr>)
      | (True, db) \<Rightarrow>
          let count = to_int32 (int (length (hdroot_tab (live db))));
              w0 = w\<lparr>m_db := db\<rparr>
          in (case (if count = 0 then create_hdroot rnd now bak_ok w0 else (Inr (), w0)) of
                (Inl e, w1) \<Rightarrow> (Inl e, w1)
              | (Inr u, w1) \<Rightarrow>
                  if count = 0 \<or> count = 1 then load_hdroot w1
                  else
                    (Inl ''Wallet contains more than one HD root secret.  Not sure what to do.'',
                     w1\<lparr>cerr := cerr w1 @
                        [''Wallet contains more than one HD root secret.  Not sure what to do.'']\<rparr>)))"

subsection \<open>ReserveSecret\<close>

text \<open>
  The query \<^verbatim>\<open>SELECT id,maxdepth FROM 'hdchain' WHERE ... LIMIT 1\<close>: the first row of the
  chain, if there is one.
\<close>

definition select_hdchain :: "tables \<Rightarrow> int \<Rightarrow> int \<Rightarrow> bool \<Rightarrow> bool \<Rightarrow> hdchain_row option" where
  "select_hdchain t hdroot_id chaincode mine sweep =
     find (\<lambda>c. c_hdroot_id c = hdroot_id \<and> c_chaincode c = chaincode \<and>
                c_mine c = mine \<and> c_sweep c = sweep) (hdchain_tab t)"

text \<open>
  The eight bytes built from \<^verbatim>\<open>chaincode\<close> (an \<^verbatim>\<open>int64_t\<close>, shifted arithmetically) with the
  category written into the last one, and the eight bytes of \<^verbatim>\<open>depth\<close>.
\<close>

definition chaincode_bytes :: "i64 \<Rightarrow> bool \<Rightarrow> bool \<Rightarrow> byte list" where
  "chaincode_bytes chaincode mine sweep =
     (let bytes =
        [ucast (signed_drop_bit 54 chaincode AND 0xff) :: byte,
         ucast (signed_drop_bit 46 chaincode AND 0xff),
         ucast (signed_drop_bit 38 chaincode AND 0xff),
         ucast (signed_drop_bit 30 chaincode AND 0xff),
         ucast (signed_drop_bit 22 chaincode AND 0xff),
         ucast (signed_drop_bit 14 chaincode AND 0xff),
         ucast (signed_drop_bit 6 chaincode AND 0xff),
         ucast (push_bit 2 chaincode AND 0xfc)];
        back = last bytes
      in butlast bytes @
         [if \<not> mine \<and> sweep then back OR 0
          else if \<not> mine \<and> \<not> sweep then back OR 1
          else if mine \<and> \<not> sweep then back OR 2
          else if mine \<and> sweep then back OR 3
          else back])"

definition depth_bytes :: "i64 \<Rightarrow> byte list" where
  "depth_bytes depth =
     [ucast (signed_drop_bit 56 depth AND 0xff) :: byte,
      ucast (signed_drop_bit 48 depth AND 0xff),
      ucast (signed_drop_bit 40 depth AND 0xff),
      ucast (signed_drop_bit 32 depth AND 0xff),
      ucast (signed_drop_bit 24 depth AND 0xff),
      ucast (signed_drop_bit 16 depth AND 0xff),
      ucast (signed_drop_bit 8 depth AND 0xff),
      ucast (depth AND 0xff)]"

text \<open>Lines 519 to 564: the tag, the two byte arrays, the digest and its hexadecimal text.\<close>

definition derive_secret :: "(byte list \<Rightarrow> uint256) \<Rightarrow> uint256 \<Rightarrow> i64 \<Rightarrow> bool \<Rightarrow> bool \<Rightarrow> i64 \<Rightarrow> string" where
  "derive_secret H hdroot chaincode mine sweep depth =
     (let tag = H (bytes_of_string ''webcashwalletv1'');
          secret = H (Rep_uint256 tag @ Rep_uint256 tag @ Rep_uint256 hdroot @
                      chaincode_bytes chaincode mine sweep @ depth_bytes depth)
      in BytesToHexString (Rep_uint256 secret))"

definition ReserveSecret :: "(byte list \<Rightarrow> uint256) \<Rightarrow> int \<Rightarrow> bool \<Rightarrow> bool \<Rightarrow> Wallet \<Rightarrow> (string + WalletSecret) \<times> Wallet" where
  "ReserveSecret H timestamp mine sweep w =
     (let chaincode = (0 :: i64) in
      case sqlite3_query (m_db w) of
        (False, db) \<Rightarrow>
          (Inl ''Running SQL statement returned unexpected status code'',
           w\<lparr>m_db := db, cerr := cerr w @ [''Running SQL statement returned unexpected status code'']\<rparr>)
      | (True, db) \<Rightarrow>
          let w0 = w\<lparr>m_db := db\<rparr> in
          (case select_hdchain (live db) (m_hdroot_id w) (sint chaincode) mine sweep of
             None \<Rightarrow>
               (Inl ''Running SQL statement returned unexpected status code'',
                w0\<lparr>cerr := cerr w0 @ [''Running SQL statement returned unexpected status code'']\<rparr>)
           | Some row \<Rightarrow>
               let hdchain_id = to_int32 (c_id row);
                   depth = (word_of_int (c_maxdepth row) :: i64)
               in if hdchain_id < 0 then
                    (Inl ''Current HD chain id is negative.  Not sure what to do.'',
                     w0\<lparr>cerr := cerr w0 @ [''Current HD chain id is negative.  Not sure what to do.'']\<rparr>)
                  else if sint depth < 0 then
                    (Inl ''Current HD chain depth is negative.  Not sure what to do.'',
                     w0\<lparr>cerr := cerr w0 @ [''Current HD chain depth is negative.  Not sure what to do.'']\<rparr>)
                  else
                    let sk = derive_secret H (m_hdroot w0) chaincode mine sweep depth;
                        secret_id = - 1
                    in (case ExecuteSql
                              [BEGIN_TRANSACTION,
                               INSERT_secret timestamp sk mine sweep,
                               UPDATE_secret_mine mine sk,
                               UPDATE_secret_sweep sweep sk,
                               INSERT_hdkey hdchain_id (sint depth) sk,
                               UPDATE_hdchain_maxdepth hdchain_id,
                               COMMIT] w0 of
                         (False, w1) \<Rightarrow>
                           (Inl ''Unable to insert secret into database.  See error log for details.'', w1)
                       | (True, w1) \<Rightarrow>
                           (Inr \<lparr>ws_id = secret_id, ws_timestamp = timestamp, ws_secret = sk,
                                 ws_mine = mine, ws_sweep = sweep\<rparr>, w1))))"

subsection \<open>AddSecretToWallet and AddOutputToWallet\<close>

definition AddSecretToWallet :: "bool \<Rightarrow> int \<Rightarrow> SecretWebcash \<Rightarrow> bool \<Rightarrow> bool \<Rightarrow> Wallet \<Rightarrow> int \<times> Wallet" where
  "AddSecretToWallet bak_ok timestamp esk mine sweep w =
     (let line = to_string_int timestamp @ '' '' @ to_string_HashType (get_hash_type mine sweep) @
                 '' '' @ to_string_SecretWebcash esk;
          (result, w1) =
            (if \<not> bak_ok then
               (False, w\<lparr>cerr := cerr w @
                  [''WARNING: Unable to open/create wallet recovery file to save key prior to insertion'']\<rparr>)
             else (True, w\<lparr>bak := bak w @ [line]\<rparr>));
          (executed, w2) =
            ExecuteSql
              [BEGIN_TRANSACTION,
               INSERT_secret timestamp (sk esk) mine sweep,
               UPDATE_secret_mine mine (sk esk),
               UPDATE_secret_sweep sweep (sk esk),
               COMMIT] w1
      in (if executed \<and> result then to_int32 (last_insert_rowid (m_db w2)) else 0, w2))"

definition AddOutputToWallet :: "int \<Rightarrow> PublicWebcash \<Rightarrow> int \<Rightarrow> bool \<Rightarrow> Wallet \<Rightarrow> int \<times> Wallet" where
  "AddOutputToWallet timestamp epk secret_id spent w =
     (case ExecuteSql
             [INSERT_output timestamp (Rep_uint256 (pk epk))
                (if secret_id \<noteq> 0 then Some secret_id else None)
                (sint (pk_amount epk)) spent] w of
        (False, w1) \<Rightarrow> (0, w1)
      | (True, w1) \<Rightarrow> (to_int32 (last_insert_rowid (m_db w1)), w1))"

subsection \<open>ReplaceWebcash\<close>

text \<open>
  The loop over the inputs, with the array \<^verbatim>\<open>in\<close>, the sum \<^verbatim>\<open>total_in\<close> and the messages
  printed so far; the first component tells whether the loop ran to its end.
\<close>

fun replace_inputs :: "WalletOutput list \<Rightarrow> string list \<Rightarrow> i64 \<Rightarrow> string list \<Rightarrow> bool \<times> string list \<times> i64 \<times> string list" where
  "replace_inputs [] ins total_in err = (True, ins, total_in, err)"
| "replace_inputs (webcash # rest) ins total_in err =
     (case wo_secret webcash of
        None \<Rightarrow>
          (False, ins, total_in, err @ [''Unable to replace output without corresponding secret: ''])
      | Some secret \<Rightarrow>
          let err1 = (if sint (wo_amount webcash) < 1
                      then err @ [''Invalid amount for replacement intput: ''] else err)
          in if wo_spent webcash then
               (False, ins, total_in, err1 @ [''Replacement intput already spent: ''])
             else
               replace_inputs rest
                 (ins @ [to_string_SecretWebcash
                           \<lparr>sk = ws_secret secret, sk_amount = wo_amount webcash\<rparr>])
                 (total_in + wo_amount webcash) err1)"

fun replace_outputs :: "(WalletSecret \<times> i64) list \<Rightarrow> string list \<Rightarrow> i64 \<Rightarrow> string list \<Rightarrow> bool \<times> string list \<times> i64 \<times> string list" where
  "replace_outputs [] outs total_out err = (True, outs, total_out, err)"
| "replace_outputs (webcash # rest) outs total_out err =
     (if sint (snd webcash) < 1 then
        (False, outs, total_out, err @ [''Invalid amount for replacement output: ''])
      else
        replace_outputs rest
          (outs @ [to_string_SecretWebcash
                     \<lparr>sk = ws_secret (fst webcash), sk_amount = snd webcash\<rparr>])
          (total_out + snd webcash) err)"

text \<open>The two loops of the commit phase.\<close>

fun mark_spent :: "WalletOutput list \<Rightarrow> Wallet \<Rightarrow> WalletOutput list \<times> Wallet" where
  "mark_spent [] w = ([], w)"
| "mark_spent (webcash # rest) w =
     (let webcash' = webcash\<lparr>wo_spent := True\<rparr>;
          (ok, w1) = ExecuteSql [UPDATE_output_spent (wo_id webcash')] w;
          w2 = (if ok then w1
                else w1\<lparr>cerr := cerr w1 @
                       [''Unable to mark output as spent.  See error log for details.'']\<rparr>);
          (rest', w3) = mark_spent rest w2
      in (webcash' # rest', w3))"

fun create_outputs :: "(byte list \<Rightarrow> uint256) \<Rightarrow> int \<Rightarrow> (WalletSecret \<times> i64) list \<Rightarrow> Wallet \<Rightarrow> (WalletSecret \<times> int) list \<times> Wallet" where
  "create_outputs H timestamp [] w = ([], w)"
| "create_outputs H timestamp (webcash # rest) w =
     (let (id, w1) =
            AddOutputToWallet timestamp
              (PublicWebcash_of H \<lparr>sk = ws_secret (fst webcash), sk_amount = snd webcash\<rparr>)
              (ws_id (fst webcash)) False w
      in if id = 0 then
           create_outputs H timestamp rest
             (w1\<lparr>cerr := cerr w1 @ [''Error creating database record for replacement output: '']\<rparr>)
         else
           (let (ret, w2) = create_outputs H timestamp rest w1
            in ((fst webcash, id) # ret, w2)))"

text \<open>
  \<open>server\<close> is the transport with the mint behind it: what \<^verbatim>\<open>cli.Post\<close> returns for the
  request.  The result is the returned vector, the \<^verbatim>\<open>inputs\<close> as the caller sees them
  afterwards (they are passed by reference) and the wallet.
\<close>

definition ReplaceWebcash :: "(byte list \<Rightarrow> uint256) \<Rightarrow> (replace_request \<Rightarrow> http_result) \<Rightarrow> int \<Rightarrow> WalletOutput list \<Rightarrow> (WalletSecret \<times> i64) list \<Rightarrow> Wallet \<Rightarrow> (WalletSecret \<times> int) list \<times> WalletOutput list \<times> Wallet" where
  "ReplaceWebcash H server timestamp inputs outputs w =
     (if inputs = [] then
        ([], inputs, w\<lparr>cerr := cerr w @ [''No inputs provided for replacement.'']\<rparr>)
      else
        (case replace_inputs inputs [] 0 (cerr w) of
          (False, ins, total_in, err) \<Rightarrow> ([], inputs, w\<lparr>cerr := err\<rparr>)
        | (True, ins, total_in, err) \<Rightarrow>
            if outputs = [] then
              ([], inputs, w\<lparr>cerr := err @ [''No outputs provided for replacement.'']\<rparr>)
            else
              (case replace_outputs outputs [] 0 err of
                (False, outs, total_out, err2) \<Rightarrow> ([], inputs, w\<lparr>cerr := err2\<rparr>)
              | (True, outs, total_out, err2) \<Rightarrow>
                  if total_in \<noteq> total_out then
                    ([], inputs,
                     w\<lparr>cerr := err2 @ [''Invalid replacement: sum(inputs) != sum(outputs)'']\<rparr>)
                  else
                    let replace = \<lparr>webcashes = ins, new_webcashes = outs, legalese_terms = True\<rparr>;
                        w1 = w\<lparr>cerr := err2, posted := posted w @ [replace]\<rparr>
                    in (case server replace of
                         HttpError \<Rightarrow>
                           ([], inputs,
                            w1\<lparr>cerr := cerr w1 @
                               [''Error: returned invalid response to Replace request: '',
                                ''Possible transient error, or server timeout?  Cannot proceed.'']\<rparr>)
                       | HttpResponse status body \<Rightarrow>
                           if status \<noteq> 200 then
                             ([], inputs,
                              w1\<lparr>cerr := cerr w1 @
                                 [''Error: returned invalid response to Replace request: status_code='']\<rparr>)
                           else
                             let (inputs', w2) = mark_spent inputs w1;
                                 (ret, w3) = create_outputs H timestamp outputs w2
                             in (ret, inputs', w3)))))"
section \<open>The key derivation as the specification words it\<close>

text \<open>
  The eight-byte big-endian encoding of a 64-bit value, the category bits of a
  \<open>(mine, sweep)\<close> pair (receive 0, payment 1, change 2, mining 3), and the secret as
  \<open>SHA256(tag || tag || hdroot || chaincode_bytes || depth_bytes)\<close> in lower-case
  hexadecimal, where the chaincode is shifted left by two and the category bits are
  or-ed into it.
\<close>

definition be64 :: "i64 \<Rightarrow> byte list" where
  "be64 x = map (\<lambda>k. ucast (drop_bit (8 * (7 - k)) x)) [0..<8]"

definition category_bits :: "bool \<Rightarrow> bool \<Rightarrow> i64" where
  "category_bits mine sweep =
     (if \<not> mine \<and> sweep then 0 else if \<not> mine \<and> \<not> sweep then 1
      else if mine \<and> \<not> sweep then 2 else 3)"

definition spec_derive :: "(byte list \<Rightarrow> uint256) \<Rightarrow> uint256 \<Rightarrow> i64 \<Rightarrow> bool \<Rightarrow> bool \<Rightarrow> i64 \<Rightarrow> string" where
  "spec_derive H hdroot chaincode mine sweep depth =
     BytesToHexString (Rep_uint256 (H (
        Rep_uint256 (H (bytes_of_string ''webcashwalletv1'')) @
        Rep_uint256 (H (bytes_of_string ''webcashwalletv1'')) @
        Rep_uint256 hdroot @
        be64 (push_bit 2 chaincode OR category_bits mine sweep) @
        be64 depth)))"

section \<open>Notions used to state the properties\<close>

text \<open>
  \<open>fault_free n fs\<close>: none of the next \<open>n\<close> calls into SQLite returns an error.
  \<open>data_stmts\<close>: statements other than BEGIN and COMMIT.  \<open>committed ss db\<close>: the
  connection after \<^verbatim>\<open>BEGIN; ss; COMMIT\<close> ran through.
\<close>

definition fault_free :: "nat \<Rightarrow> bool list \<Rightarrow> bool" where
  "fault_free n fs = (True \<notin> set (take n fs))"

definition data_stmts :: "stmt list \<Rightarrow> bool" where
  "data_stmts ss = (BEGIN_TRANSACTION \<notin> set ss \<and> COMMIT \<notin> set ss)"

definition committed :: "stmt list \<Rightarrow> sqlite3 \<Rightarrow> sqlite3" where
  "committed ss db =
     (let tr = fold apply_stmt ss (live db, last_insert_rowid db)
      in \<lparr>live = fst tr, disk = fst tr, in_txn = False, last_insert_rowid = snd tr,
          faults = drop (length ss + 2) (faults db)\<rparr>)"

text \<open>The statements of \<^verbatim>\<open>ReserveSecret\<close> between BEGIN and COMMIT.\<close>

definition reserve_stmts :: "int \<Rightarrow> string \<Rightarrow> bool \<Rightarrow> bool \<Rightarrow> int \<Rightarrow> int \<Rightarrow> stmt list" where
  "reserve_stmts timestamp secret mine sweep hdchain_id depth =
     [INSERT_secret timestamp secret mine sweep,
      UPDATE_secret_mine mine secret,
      UPDATE_secret_sweep sweep secret,
      INSERT_hdkey hdchain_id depth secret,
      UPDATE_hdchain_maxdepth hdchain_id]"

section \<open>The replacement as the specification words it\<close>

text \<open>
  The webcash strings of a request, the checks \<^verbatim>\<open>ReplaceWebcash\<close> makes before it contacts
  the server (there is none on the amount of an input), the warnings it prints while
  checking, and the request it builds.
\<close>

definition wire_input :: "WalletOutput \<Rightarrow> string" where
  "wire_input webcash =
     to_string_SecretWebcash \<lparr>sk = ws_secret (the (wo_secret webcash)), sk_amount = wo_amount webcash\<rparr>"

definition wire_output :: "WalletSecret \<times> i64 \<Rightarrow> string" where
  "wire_output webcash =
     to_string_SecretWebcash \<lparr>sk = ws_secret (fst webcash), sk_amount = snd webcash\<rparr>"

definition inputs_pass :: "WalletOutput list \<Rightarrow> bool" where
  "inputs_pass inputs = list_all (\<lambda>webcash. wo_secret webcash \<noteq> None \<and> \<not> wo_spent webcash) inputs"

definition outputs_pass :: "(WalletSecret \<times> i64) list \<Rightarrow> bool" where
  "outputs_pass outputs = list_all (\<lambda>webcash. 1 \<le> sint (snd webcash)) outputs"

definition replace_accepts :: "WalletOutput list \<Rightarrow> (WalletSecret \<times> i64) list \<Rightarrow> bool" where
  "replace_accepts inputs outputs =
     (inputs \<noteq> [] \<and> inputs_pass inputs \<and> outputs \<noteq> [] \<and> outputs_pass outputs \<and>
      sum_list (map wo_amount inputs) = sum_list (map snd outputs))"

definition amount_warnings :: "WalletOutput list \<Rightarrow> string list" where
  "amount_warnings inputs =
     map (\<lambda>_. ''Invalid amount for replacement intput: '')
       (filter (\<lambda>webcash. sint (wo_amount webcash) < 1) inputs)"

definition replace_request_of :: "WalletOutput list \<Rightarrow> (WalletSecret \<times> i64) list \<Rightarrow> replace_request" where
  "replace_request_of inputs outputs =
     \<lparr>webcashes = map wire_input inputs, new_webcashes = map wire_output outputs,
      legalese_terms = True\<rparr>"

text \<open>
  The commit phase.  \<open>stmt_effect s db\<close> is the connection after the data statement \<open>s\<close>
  ran; \<open>ok_flags n fs\<close> tells which of the next \<open>n\<close> calls into SQLite succeed;
  \<open>marked_ids\<close> are the ids of the inputs whose UPDATE succeeded and \<open>spend_if\<close> marks
  the rows with these ids; \<open>inserted_outputs\<close> are the outputs whose INSERT succeeded,
  \<open>fresh_rowids\<close> the row ids they get and \<open>new_output_row\<close> the row of one of them;
  \<open>failure_log\<close> are the two messages printed for each failure.
\<close>

definition stmt_effect :: "stmt \<Rightarrow> sqlite3 \<Rightarrow> sqlite3" where
  "stmt_effect s db =
     (let tr = apply_stmt s (live db, last_insert_rowid db);
          db1 = db\<lparr>live := fst tr, last_insert_rowid := snd tr, faults := drop 1 (faults db)\<rparr>
      in if in_txn db then db1 else db1\<lparr>disk := fst tr\<rparr>)"

fun ok_flags :: "nat \<Rightarrow> bool list \<Rightarrow> bool list" where
  "ok_flags 0 fs = []"
| "ok_flags (Suc n) [] = True # ok_flags n []"
| "ok_flags (Suc n) (f # fs) = (\<not> f) # ok_flags n fs"

definition spend_if :: "int set \<Rightarrow> output_row \<Rightarrow> output_row" where
  "spend_if ids r = (if o_id r \<in> ids then r\<lparr>o_spent := True\<rparr> else r)"

definition marked_ids :: "WalletOutput list \<Rightarrow> bool list \<Rightarrow> int list" where
  "marked_ids inputs fs =
     map (\<lambda>p. wo_id (fst p)) (filter snd (zip inputs (ok_flags (length inputs) fs)))"

definition new_output_row :: "(byte list \<Rightarrow> uint256) \<Rightarrow> int \<Rightarrow> WalletSecret \<times> i64 \<Rightarrow> int \<Rightarrow> output_row" where
  "new_output_row H timestamp webcash rowid =
     \<lparr>o_id = rowid, o_timestamp = timestamp,
      o_hash = Rep_uint256 (H (bytes_of_string (ws_secret (fst webcash)))),
      o_secret_id = (if ws_id (fst webcash) \<noteq> 0 then Some (ws_id (fst webcash)) else None),
      o_amount = sint (snd webcash), o_spent = False\<rparr>"

definition inserted_outputs :: "(WalletSecret \<times> i64) list \<Rightarrow> bool list \<Rightarrow> (WalletSecret \<times> i64) list" where
  "inserted_outputs outputs fs = map fst (filter snd (zip outputs (ok_flags (length outputs) fs)))"

definition fresh_rowids :: "int \<Rightarrow> nat \<Rightarrow> int list" where
  "fresh_rowids n0 k = map (\<lambda>j. n0 + int j) [0..<k]"

definition sql_msg :: string where
  "sql_msg = ''Running SQL statement returned unexpected status code''"

definition mark_msg :: string where
  "mark_msg = ''Unable to mark output as spent.  See error log for details.''"

definition out_msg :: string where
  "out_msg = ''Error creating database record for replacement output: ''"

definition failure_log :: "string \<Rightarrow> bool list \<Rightarrow> string list" where
  "failure_log msg oks = concat (map (\<lambda>ok. if ok then [] else [sql_msg, msg]) oks)"

section \<open>Notions for the secret, hdkey and hdchain tables\<close>

text \<open>
  \<open>add_stmts\<close>: the statements of \<^verbatim>\<open>AddSecretToWallet\<close> between BEGIN and COMMIT.
  \<open>merge_flags\<close>: what the two UPDATE statements do to one row.  \<open>secrets_after\<close>,
  \<open>hdkeys_after\<close> and \<open>bump_maxdepth\<close>: the tables after the statements of a
  reservation ran.  \<open>log_line\<close> and \<open>after_log\<close>: the line of the recovery file and the
  wallet after the attempt to write it.
\<close>

definition add_stmts :: "int \<Rightarrow> string \<Rightarrow> bool \<Rightarrow> bool \<Rightarrow> stmt list" where
  "add_stmts timestamp secret mine sweep =
     [INSERT_secret timestamp secret mine sweep,
      UPDATE_secret_mine mine secret,
      UPDATE_secret_sweep sweep secret]"

definition merge_flags :: "string \<Rightarrow> bool \<Rightarrow> bool \<Rightarrow> secret_row \<Rightarrow> secret_row" where
  "merge_flags secret mine sweep s =
     (if s_secret s = secret
      then s\<lparr>s_mine := s_mine s \<and> mine, s_sweep := s_sweep s \<or> sweep\<rparr> else s)"

definition secret_present :: "tables \<Rightarrow> string \<Rightarrow> bool" where
  "secret_present t secret = list_ex (\<lambda>s. s_secret s = secret) (secret_tab t)"

definition secret_id_for :: "tables \<Rightarrow> string \<Rightarrow> int" where
  "secret_id_for t secret =
     (case select_secret_id t secret of
        Some i \<Rightarrow> i
      | None \<Rightarrow> next_rowid (map s_id (secret_tab t)))"

definition secrets_after :: "int \<Rightarrow> string \<Rightarrow> bool \<Rightarrow> bool \<Rightarrow> tables \<Rightarrow> secret_row list" where
  "secrets_after timestamp secret mine sweep t =
     map (merge_flags secret mine sweep)
       (secret_tab t @
        (if secret_present t secret then []
         else [\<lparr>s_id = next_rowid (map s_id (secret_tab t)), s_timestamp = timestamp,
                s_secret = secret, s_mine = mine, s_sweep = sweep\<rparr>]))"

definition hdkey_conflict :: "tables \<Rightarrow> int \<Rightarrow> int \<Rightarrow> int \<Rightarrow> bool" where
  "hdkey_conflict t secret_id hdchain_id depth =
     list_ex (\<lambda>k. k_secret_id k = secret_id \<or> (k_hdchain_id k = hdchain_id \<and> k_depth k = depth))
       (hdkey_tab t)"

definition hdkeys_after :: "string \<Rightarrow> int \<Rightarrow> int \<Rightarrow> tables \<Rightarrow> hdkey_row list" where
  "hdkeys_after secret hdchain_id depth t =
     hdkey_tab t @
       (if hdkey_conflict t (secret_id_for t secret) hdchain_id depth then []
        else [\<lparr>k_id = next_rowid (map k_id (hdkey_tab t)), k_hdchain_id = hdchain_id,
               k_depth = depth, k_secret_id = secret_id_for t secret\<rparr>])"

definition bump_maxdepth :: "int \<Rightarrow> hdchain_row \<Rightarrow> hdchain_row" where
  "bump_maxdepth hdchain_id c =
     (if c_id c = hdchain_id then c\<lparr>c_maxdepth := c_maxdepth c + 1\<rparr> else c)"

definition log_line :: "int \<Rightarrow> SecretWebcash \<Rightarrow> bool \<Rightarrow> bool \<Rightarrow> string" where
  "log_line timestamp esk mine sweep =
     to_string_int timestamp @ '' '' @ to_string_HashType (get_hash_type mine sweep) @
     '' '' @ to_string_SecretWebcash esk"

definition after_log :: "bool \<Rightarrow> int \<Rightarrow> SecretWebcash \<Rightarrow> bool \<Rightarrow> bool \<Rightarrow> Wallet \<Rightarrow> Wallet" where
  "after_log bak_ok timestamp esk mine sweep w =
     (if bak_ok then w\<lparr>bak := bak w @ [log_line timestamp esk mine sweep]\<rparr>
      else w\<lparr>cerr := cerr w @
        [''WARNING: Unable to open/create wallet recovery file to save key prior to insertion'']\<rparr>)"

text \<open>
  \<open>db_reach db db'\<close>: the connection \<open>db'\<close> is reached from \<open>db\<close> by running statements
  and queries.  \<open>run_calls\<close>: a sequence of calls of the wallet's operations, each with its
  arguments.  \<open>grows R xs ys\<close>: the table \<open>ys\<close> keeps every row of \<open>xs\<close> in its place,
  changed along \<open>R\<close>, and may have more rows after them.
\<close>

inductive db_reach :: "sqlite3 \<Rightarrow> sqlite3 \<Rightarrow> bool" where
  reach_refl: "db_reach db db"
| reach_stmt: "db_reach db db1 \<Longrightarrow> db_reach db (snd (run_stmt s db1))"
| reach_query: "db_reach db db1 \<Longrightarrow> db_reach db (snd (sqlite3_query db1))"

datatype wallet_call =
    Call_GetOrCreateHDRoot uint256 int bool
  | Call_ReserveSecret int bool bool
  | Call_AddSecretToWallet bool int SecretWebcash bool bool
  | Call_AddOutputToWallet int PublicWebcash int bool
  | Call_ReplaceWebcash "replace_request \<Rightarrow> http_result" int "WalletOutput list"
      "(WalletSecret \<times> i64) list"

fun run_call :: "(byte list \<Rightarrow> uint256) \<Rightarrow> wallet_call \<Rightarrow> Wallet \<Rightarrow> Wallet" where
  "run_call H (Call_GetOrCreateHDRoot rnd now bak_ok) w = snd (GetOrCreateHDRoot rnd now bak_ok w)"
| "run_call H (Call_ReserveSecret timestamp mine sweep) w =
     snd (ReserveSecret H timestamp mine sweep w)"
| "run_call H (Call_AddSecretToWallet bak_ok timestamp esk mine sweep) w =
     snd (AddSecretToWallet bak_ok timestamp esk mine sweep w)"
| "run_call H (Call_AddOutputToWallet timestamp epk secret_id spent) w =
     snd (AddOutputToWallet timestamp epk secret_id spent w)"
| "run_call H (Call_ReplaceWebcash server timestamp inputs outputs) w =
     snd (snd (ReplaceWebcash H server timestamp inputs outputs w))"

definition run_calls :: "(byte list \<Rightarrow> uint256) \<Rightarrow> wallet_call list \<Rightarrow> Wallet \<Rightarrow> Wallet" where
  "run_calls H calls w = fold (run_call H) calls w"

definition grows :: "('a \<Rightarrow> 'a \<Rightarrow> bool) \<Rightarrow> 'a list \<Rightarrow> 'a list \<Rightarrow> bool" where
  "grows R xs ys = (length xs \<le> length ys \<and> list_all2 R xs (take (length xs) ys))"

definition secret_flags_le :: "secret_row \<Rightarrow> secret_row \<Rightarrow> bool" where
  "secret_flags_le s s' =
     (s_id s' = s_id s \<and> s_secret s' = s_secret s \<and>
      (s_mine s' \<longrightarrow> s_mine s) \<and> (s_sweep s \<longrightarrow> s_sweep s'))"

definition chain_le :: "hdchain_row \<Rightarrow> hdchain_row \<Rightarrow> bool" where
  "chain_le c c' =
     (c_id c' = c_id c \<and> c_hdroot_id c' = c_hdroot_id c \<and> c_chaincode c' = c_chaincode c \<and>
      c_mine c' = c_mine c \<and> c_sweep c' = c_sweep c \<and> c_maxdepth c \<le> c_maxdepth c')"

definition flags_mono :: "tables \<Rightarrow> tables \<Rightarrow> bool" where
  "flags_mono t t' = grows secret_flags_le (secret_tab t) (secret_tab t')"

definition maxdepth_mono :: "tables \<Rightarrow> tables \<Rightarrow> bool" where
  "maxdepth_mono t t' = grows chain_le (hdchain_tab t) (hdchain_tab t')"

section \<open>Notions for the root and its chains\<close>

text \<open>
  \<open>hdroot_stmts\<close>: the statements of \<^verbatim>\<open>GetOrCreateHDRoot\<close> between BEGIN and COMMIT.
  \<open>hdroot_line\<close>: the line of the recovery file.  \<open>initial_chains n rid\<close>: the four chains
  of the root \<open>rid\<close>, with the ids from \<open>n\<close> on.  \<open>new_root_tables\<close>: the tables with the
  root as the only row of \<^verbatim>\<open>hdroot\<close> and its chains after the rows of \<^verbatim>\<open>hdchain\<close>.
  \<open>derive_message\<close>: the bytes that \<^verbatim>\<open>ReserveSecret\<close> hashes into the secret.
  \<open>fresh_chain\<close>: the chain (F,T) of the first root, as a function of its \<^verbatim>\<open>maxdepth\<close>.
\<close>

definition hdroot_stmts :: "int \<Rightarrow> byte list \<Rightarrow> stmt list" where
  "hdroot_stmts now secret = [INSERT_hdroot now secret, INSERT_hdchain secret]"

definition hdroot_line :: "int \<Rightarrow> uint256 \<Rightarrow> string" where
  "hdroot_line now rnd =
     to_string_int now @ '' hdroot '' @ BytesToHexString (Rep_uint256 rnd) @ '' version=1''"

definition initial_chains :: "int \<Rightarrow> int \<Rightarrow> hdchain_row list" where
  "initial_chains n rid =
     [\<lparr>c_id = n, c_hdroot_id = rid, c_chaincode = 0, c_mine = False, c_sweep = False,
       c_mindepth = 0, c_maxdepth = 0\<rparr>,
      \<lparr>c_id = n + 1, c_hdroot_id = rid, c_chaincode = 0, c_mine = False, c_sweep = True,
       c_mindepth = 0, c_maxdepth = 0\<rparr>,
      \<lparr>c_id = n + 2, c_hdroot_id = rid, c_chaincode = 0, c_mine = True, c_sweep = False,
       c_mindepth = 0, c_maxdepth = 0\<rparr>,
      \<lparr>c_id = n + 3, c_hdroot_id = rid, c_chaincode = 0, c_mine = True, c_sweep = True,
       c_mindepth = 0, c_maxdepth = 0\<rparr>]"

definition new_root_tables :: "int \<Rightarrow> uint256 \<Rightarrow> tables \<Rightarrow> tables" where
  "new_root_tables now rnd t =
     t\<lparr>hdroot_tab := [\<lparr>r_id = 1, r_timestamp = now, r_version = 1, r_secret = Rep_uint256 rnd\<rparr>],
       hdchain_tab := hdchain_tab t @ initial_chains (next_rowid (map c_id (hdchain_tab t))) 1\<rparr>"

definition derive_message :: "(byte list \<Rightarrow> uint256) \<Rightarrow> uint256 \<Rightarrow> i64 \<Rightarrow> bool \<Rightarrow> bool \<Rightarrow> i64 \<Rightarrow> byte list" where
  "derive_message H hdroot chaincode mine sweep depth =
     Rep_uint256 (H (bytes_of_string ''webcashwalletv1'')) @
     Rep_uint256 (H (bytes_of_string ''webcashwalletv1'')) @
     Rep_uint256 hdroot @ chaincode_bytes chaincode mine sweep @ depth_bytes depth"

definition fresh_chain :: "int \<Rightarrow> hdchain_row" where
  "fresh_chain maxdepth =
     \<lparr>c_id = 2, c_hdroot_id = 1, c_chaincode = 0, c_mine = False, c_sweep = True,
      c_mindepth = 0, c_maxdepth = maxdepth\<rparr>"

section \<open>Concrete data\<close>

text \<open>
  A stand-in digest (31 zero bytes, then the last byte of the message), the zero root,
  and the wallet that \<^verbatim>\<open>GetOrCreateHDRoot\<close> leaves behind for that root: one root row and
  its four chains.
\<close>

definition toy_sha :: "byte list \<Rightarrow> uint256" where
  "toy_sha m = Abs_uint256 (replicate 31 0 @ [if m = [] then 0 else last m])"

definition zero256 :: uint256 where
  "zero256 = Abs_uint256 (replicate 32 0)"

definition demo_chain :: "bool \<Rightarrow> bool \<Rightarrow> hdchain_row" where
  "demo_chain mine sweep =
     \<lparr>c_id = (if mine then (if sweep then 4 else 3) else (if sweep then 2 else 1)),
      c_hdroot_id = 1, c_chaincode = 0, c_mine = mine, c_sweep = sweep,
      c_mindepth = 0, c_maxdepth = 0\<rparr>"

definition demo_tables :: tables where
  "demo_tables =
     \<lparr>terms_tab = [], secret_tab = [], output_tab = [],
      hdroot_tab = [\<lparr>r_id = 1, r_timestamp = 1000, r_version = 1, r_secret = replicate 32 0\<rparr>],
      hdchain_tab = [demo_chain False False, demo_chain False True,
                     demo_chain True False, demo_chain True True],
      hdkey_tab = []\<rparr>"

definition demo_wallet :: "bool list \<Rightarrow> Wallet" where
  "demo_wallet fs =
     \<lparr>m_db = \<lparr>live = demo_tables, disk = demo_tables, in_txn = False,
              last_insert_rowid = 4, faults = fs\<rparr>,
      m_hdroot = zero256, m_hdroot_id = 1, bak = [], cerr = [], posted = []\<rparr>"

definition demo_secret :: "bool \<Rightarrow> bool \<Rightarrow> WalletSecret" where
  "demo_secret mine sweep =
     \<lparr>ws_id = - 1, ws_timestamp = 100, ws_secret = replicate 64 CHR ''0'',
      ws_mine = mine, ws_sweep = sweep\<rparr>"

text \<open>
  A wallet that holds two unspent outputs (of amounts 0 and 5), an input for each of
  them, and two servers: one that accepts every request and one that answers 500.
\<close>

definition demo_spendable :: "int \<Rightarrow> string \<Rightarrow> i64 \<Rightarrow> WalletOutput" where
  "demo_spendable i secret amount =
     \<lparr>wo_id = i, wo_timestamp = 50, wo_hash = zero256,
      wo_secret = Some \<lparr>ws_id = i, ws_timestamp = 50, ws_secret = secret,
                        ws_mine = False, ws_sweep = True\<rparr>,
      wo_amount = amount, wo_spent = False\<rparr>"

definition pay_tables :: tables where
  "pay_tables =
     demo_tables\<lparr>
       secret_tab :=
         [\<lparr>s_id = 1, s_timestamp = 50, s_secret = ''aa'', s_mine = True, s_sweep = False\<rparr>,
          \<lparr>s_id = 2, s_timestamp = 50, s_secret = ''bb'', s_mine = False, s_sweep = True\<rparr>],
       output_tab :=
         [\<lparr>o_id = 1, o_timestamp = 50, o_hash = replicate 32 0, o_secret_id = Some 1,
           o_amount = 0, o_spent = False\<rparr>,
          \<lparr>o_id = 2, o_timestamp = 50, o_hash = replicate 32 0, o_secret_id = Some 2,
           o_amount = 5, o_spent = False\<rparr>]\<rparr>"

definition pay_wallet :: "bool list \<Rightarrow> Wallet" where
  "pay_wallet fs =
     \<lparr>m_db = \<lparr>live = pay_tables, disk = pay_tables, in_txn = False,
              last_insert_rowid = 2, faults = fs\<rparr>,
      m_hdroot = zero256, m_hdroot_id = 1, bak = [], cerr = [], posted = []\<rparr>"

definition server_ok :: "replace_request \<Rightarrow> http_result" where
  "server_ok request = HttpResponse 200 []"

definition server_busy :: "replace_request \<Rightarrow> http_result" where
  "server_busy request = HttpResponse 500 ''busy''"

text \<open>A replacement whose first input has the amount 0, sent to the accepting server.\<close>

definition zero_amount_call :: "(WalletSecret \<times> int) list \<times> WalletOutput list \<times> Wallet" where
  "zero_amount_call =
     ReplaceWebcash toy_sha server_ok 200
       [demo_spendable 1 ''aa'' 0, demo_spendable 2 ''bb'' 5]
       [(demo_secret True True, 5)] (pay_wallet [])"

text \<open>Two secrets with their amounts: \<open>cc\<close> is in no wallet, \<open>aa\<close> is a row of the paying wallet.\<close>

definition coin_cc :: SecretWebcash where
  "coin_cc = \<lparr>sk = ''cc'', sk_amount = 7\<rparr>"

definition coin_aa :: SecretWebcash where
  "coin_aa = \<lparr>sk = ''aa'', sk_amount = 5\<rparr>"

text \<open>The wallet on a database whose tables have just been created.\<close>

definition empty_tables :: tables where
  "empty_tables =
     \<lparr>terms_tab = [], secret_tab = [], output_tab = [], hdroot_tab = [], hdchain_tab = [],
      hdkey_tab = []\<rparr>"

definition empty_wallet :: "bool list \<Rightarrow> Wallet" where
  "empty_wallet fs =
     \<lparr>m_db = \<lparr>live = empty_tables, disk = empty_tables, in_txn = False,
              last_insert_rowid = 0, faults = fs\<rparr>,
      m_hdroot = zero256, m_hdroot_id = 0, bak = [], cerr = [], posted = []\<rparr>"

section \<open>Lemmas\<close>

subsection \<open>Statements, faults and transactions\<close>

lemma fault_free_0 [simp]: "fault_free 0 fs"
  by (simp add: fault_free_def)

lemma fault_free_Nil [simp]: "fault_free n []"
  by (simp add: fault_free_def)

lemma fault_free_Suc_Cons [simp]: "fault_free (Suc n) (f # fs) = (\<not> f \<and> fault_free n fs)"
  by (auto simp add: fault_free_def)

lemma fault_free_Suc: "fault_free (Suc n) fs = (fault_free 1 fs \<and> fault_free n (drop 1 fs))"
  by (cases fs) (auto simp add: fault_free_def)

lemma sqlite3_query_eq:
  "sqlite3_query db = (fault_free 1 (faults db), db\<lparr>faults := drop 1 (faults db)\<rparr>)"
  by (cases "faults db") (simp_all add: sqlite3_query_def)

lemma ExecuteSql_append:
  "ExecuteSql (xs @ ys) w =
     (case ExecuteSql xs w of (False, w') \<Rightarrow> (False, w') | (True, w') \<Rightarrow> ExecuteSql ys w')"
  by (induction xs arbitrary: w) (auto split: prod.splits bool.splits)

lemma run_stmt_data:
  assumes "s \<noteq> BEGIN_TRANSACTION" "s \<noteq> COMMIT" "in_txn db"
  shows "run_stmt s db =
     (if fault_free 1 (faults db)
      then (True, db\<lparr>live := fst (apply_stmt s (live db, last_insert_rowid db)),
                     last_insert_rowid := snd (apply_stmt s (live db, last_insert_rowid db)),
                     faults := drop 1 (faults db)\<rparr>)
      else (False, db\<lparr>faults := drop 1 (faults db)\<rparr>))"
  using assms by (simp add: run_stmt_def sqlite3_query_eq split: prod.splits)

lemma ExecuteSql_data_ok:
  assumes "data_stmts ss" "in_txn (m_db w)" "fault_free (length ss) (faults (m_db w))"
  shows "ExecuteSql ss w =
     (True, w\<lparr>m_db := (m_db w)\<lparr>
        live := fst (fold apply_stmt ss (live (m_db w), last_insert_rowid (m_db w))),
        last_insert_rowid := snd (fold apply_stmt ss (live (m_db w), last_insert_rowid (m_db w))),
        faults := drop (length ss) (faults (m_db w))\<rparr>\<rparr>)"
  using assms
proof (induction ss arbitrary: w)
  case Nil
  then show ?case by simp
next
  case (Cons s ss)
  from Cons.prems have s: "s \<noteq> BEGIN_TRANSACTION" "s \<noteq> COMMIT" and ss: "data_stmts ss"
    by (auto simp add: data_stmts_def)
  from Cons.prems have f1: "fault_free 1 (faults (m_db w))"
    and fn: "fault_free (length ss) (drop 1 (faults (m_db w)))"
    by (simp_all add: fault_free_Suc [of "length ss"])
  show ?case
    using Cons.IH [OF ss, of "w\<lparr>m_db := (m_db w)\<lparr>live := fst (apply_stmt s (live (m_db w), last_insert_rowid (m_db w))),
                     last_insert_rowid := snd (apply_stmt s (live (m_db w), last_insert_rowid (m_db w))),
                     faults := drop 1 (faults (m_db w))\<rparr>\<rparr>"]
      Cons.prems(2) f1 fn
    by (simp add: run_stmt_data [OF s] add.commute)
qed

lemma run_stmt_BEGIN:
  "run_stmt BEGIN_TRANSACTION db =
     (if fault_free 1 (faults db) \<and> \<not> in_txn db
      then (True, db\<lparr>faults := drop 1 (faults db), in_txn := True\<rparr>)
      else (False, db\<lparr>faults := drop 1 (faults db)\<rparr>))"
  by (simp add: run_stmt_def sqlite3_query_eq split: bool.splits)

lemma run_stmt_COMMIT:
  "run_stmt COMMIT db =
     (if fault_free 1 (faults db) \<and> in_txn db
      then (True, db\<lparr>faults := drop 1 (faults db), disk := live db, in_txn := False\<rparr>)
      else (False, db\<lparr>faults := drop 1 (faults db)\<rparr>))"
  by (simp add: run_stmt_def sqlite3_query_eq split: bool.splits)

lemma fault_free_add:
  "fault_free (m + n) fs = (fault_free m fs \<and> fault_free n (drop m fs))"
proof -
  have "take (m + n) fs = take m fs @ take n (drop m fs)"
    by (simp add: take_add)
  then show ?thesis by (auto simp add: fault_free_def)
qed

lemma ExecuteSql_txn_ok:
  assumes "data_stmts ss" "\<not> in_txn (m_db w)" "fault_free (length ss + 2) (faults (m_db w))"
  shows "ExecuteSql (BEGIN_TRANSACTION # ss @ [COMMIT]) w = (True, w\<lparr>m_db := committed ss (m_db w)\<rparr>)"
proof -
  let ?fs = "faults (m_db w)"
  have "fault_free (1 + (length ss + 1)) ?fs" using assms(3) by simp
  then have f1: "fault_free 1 ?fs" and f2: "fault_free (length ss + 1) (drop 1 ?fs)"
    unfolding fault_free_add [of 1] by simp_all
  from f2 have f3: "fault_free (length ss) (drop 1 ?fs)"
    and f4: "fault_free 1 (drop (length ss) (drop 1 ?fs))"
    unfolding fault_free_add [of "length ss"] by simp_all
  let ?w1 = "w\<lparr>m_db := (m_db w)\<lparr>faults := drop 1 ?fs, in_txn := True\<rparr>\<rparr>"
  have b: "ExecuteSql (BEGIN_TRANSACTION # ss @ [COMMIT]) w = ExecuteSql (ss @ [COMMIT]) ?w1"
    using f1 assms(2) by (simp add: run_stmt_BEGIN)
  have d: "ExecuteSql ss ?w1 =
     (True, ?w1\<lparr>m_db := (m_db ?w1)\<lparr>
        live := fst (fold apply_stmt ss (live (m_db ?w1), last_insert_rowid (m_db ?w1))),
        last_insert_rowid := snd (fold apply_stmt ss (live (m_db ?w1), last_insert_rowid (m_db ?w1))),
        faults := drop (length ss) (faults (m_db ?w1))\<rparr>\<rparr>)"
    by (rule ExecuteSql_data_ok) (use assms(1) f3 in simp_all)
  show ?thesis
    unfolding b ExecuteSql_append d
    using f4 by (simp add: run_stmt_COMMIT committed_def Let_def add.commute)
qed

lemma ExecuteSql_disk_in_txn:
  assumes "COMMIT \<notin> set ss" "in_txn (m_db w)"
  shows "disk (m_db (snd (ExecuteSql ss w))) = disk (m_db w) \<and>
         (fst (ExecuteSql ss w) \<longrightarrow> in_txn (m_db (snd (ExecuteSql ss w))))"
  using assms
proof (induction ss arbitrary: w)
  case Nil
  then show ?case by simp
next
  case (Cons s ss)
  show ?case
  proof (cases "s = BEGIN_TRANSACTION")
    case True
    then show ?thesis using Cons.prems by (simp add: run_stmt_BEGIN)
  next
    case False
    with Cons.prems have s: "s \<noteq> BEGIN_TRANSACTION" "s \<noteq> COMMIT" by auto
    show ?thesis
    proof (cases "fault_free 1 (faults (m_db w))")
      case True
      then show ?thesis
        using Cons.prems Cons.IH [of "w\<lparr>m_db := (m_db w)\<lparr>live := fst (apply_stmt s (live (m_db w), last_insert_rowid (m_db w))),
                     last_insert_rowid := snd (apply_stmt s (live (m_db w), last_insert_rowid (m_db w))),
                     faults := drop 1 (faults (m_db w))\<rparr>\<rparr>"]
        by (simp add: run_stmt_data [OF s])
    next
      case False
      then show ?thesis using Cons.prems by (simp add: run_stmt_data [OF s])
    qed
  qed
qed

lemma ExecuteSql_txn_atomic:
  assumes "data_stmts ss" "\<not> fst (ExecuteSql (BEGIN_TRANSACTION # ss @ [COMMIT]) w)"
  shows "disk (m_db (snd (ExecuteSql (BEGIN_TRANSACTION # ss @ [COMMIT]) w))) = disk (m_db w)"
proof (cases "fault_free 1 (faults (m_db w)) \<and> \<not> in_txn (m_db w)")
  case False
  then show ?thesis by (auto simp add: run_stmt_BEGIN)
next
  case True
  let ?w1 = "w\<lparr>m_db := (m_db w)\<lparr>faults := drop 1 (faults (m_db w)), in_txn := True\<rparr>\<rparr>"
  have b: "ExecuteSql (BEGIN_TRANSACTION # ss @ [COMMIT]) w = ExecuteSql (ss @ [COMMIT]) ?w1"
    using True by (simp add: run_stmt_BEGIN)
  have c: "COMMIT \<notin> set ss" using assms(1) by (simp add: data_stmts_def)
  have d: "disk (m_db (snd (ExecuteSql ss ?w1))) = disk (m_db w)"
    "fst (ExecuteSql ss ?w1) \<longrightarrow> in_txn (m_db (snd (ExecuteSql ss ?w1)))"
    using ExecuteSql_disk_in_txn [OF c, of ?w1] by simp_all
  show ?thesis
    using assms(2) d unfolding b ExecuteSql_append
    by (cases "ExecuteSql ss ?w1") (auto simp add: run_stmt_COMMIT split: bool.splits if_splits)
qed

lemma run_stmt_faults: "faults (snd (run_stmt s db)) = drop 1 (faults db)"
  by (simp add: run_stmt_def sqlite3_query_eq split: bool.splits prod.splits)

lemma run_stmt_ok_fault_free: "fst (run_stmt s db) \<Longrightarrow> fault_free 1 (faults db)"
  by (simp add: run_stmt_def sqlite3_query_eq split: bool.splits prod.splits if_splits)

lemma ExecuteSql_ok_fault_free:
  "fst (ExecuteSql ss w) \<Longrightarrow> fault_free (length ss) (faults (m_db w))"
proof (induction ss arbitrary: w)
  case Nil
  then show ?case by simp
next
  case (Cons s ss)
  obtain ok db where r: "run_stmt s (m_db w) = (ok, db)" by (cases "run_stmt s (m_db w)")
  with Cons.prems have ok: "ok" by (cases ok) simp_all
  from r ok have f1: "fault_free 1 (faults (m_db w))"
    using run_stmt_ok_fault_free [of s "m_db w"] by simp
  from r have fs: "faults db = drop 1 (faults (m_db w))"
    using run_stmt_faults [of s "m_db w"] by simp
  from Cons.prems r ok have "fst (ExecuteSql ss (w\<lparr>m_db := db\<rparr>))" by simp
  from Cons.IH [OF this] fs have "fault_free (length ss) (drop 1 (faults (m_db w)))" by simp
  with f1 show ?case by (simp add: fault_free_Suc [of "length ss"])
qed

lemma ExecuteSql_txn_fails:
  assumes "in_txn (m_db w) \<or> \<not> fault_free (length ss + 2) (faults (m_db w))"
  shows "\<not> fst (ExecuteSql (BEGIN_TRANSACTION # ss @ [COMMIT]) w)"
proof (cases "in_txn (m_db w)")
  case True
  then show ?thesis by (simp add: run_stmt_BEGIN)
next
  case False
  with assms have "\<not> fault_free (length (BEGIN_TRANSACTION # ss @ [COMMIT])) (faults (m_db w))"
    by simp
  then show ?thesis using ExecuteSql_ok_fault_free by blast
qed


subsection \<open>Buffers and integers\<close>

lemma Rep_uint256_length [simp]: "length (Rep_uint256 x) = 32"
  using Rep_uint256 [of x] by simp

lemma Rep_toy_sha: "Rep_uint256 (toy_sha m) = replicate 31 0 @ [if m = [] then 0 else last m]"
  by (simp add: toy_sha_def Abs_uint256_inverse)

lemma Rep_zero256: "Rep_uint256 zero256 = replicate 32 0"
  by (simp add: zero256_def Abs_uint256_inverse)

lemma to_int32_id: "- (2 ^ 31) \<le> x \<Longrightarrow> x < 2 ^ 31 \<Longrightarrow> to_int32 x = x"
  unfolding to_int32_def by (simp add: sint_sbintrunc' signed_take_bit_int_eq_self)

subsection \<open>Hexadecimal text\<close>

lemma length_BytesToHexString: "length (BytesToHexString bs) = 2 * length bs"
  by (induction bs) (simp_all add: BytesToHexString_def)

lemma hex_digit_in: "n < 16 \<Longrightarrow> hex_digit n \<in> set ''0123456789abcdef''"
proof -
  have "\<forall>n \<in> set [0..<16]. hex_digit n \<in> set ''0123456789abcdef''"
    by (simp add: upt_rec hex_digit_def)
  moreover assume "n < 16"
  ultimately show ?thesis by simp
qed

lemma unat_byte_div16: "unat (b :: byte) div 16 < 16"
proof -
  have "unat b < 256" using unsigned_less [of b, where 'a = nat] by simp
  then show ?thesis by simp
qed

lemma set_BytesToHexString: "set (BytesToHexString bs) \<subseteq> set ''0123456789abcdef''"
proof (induction bs)
  case Nil
  then show ?case by (simp add: BytesToHexString_def)
next
  case (Cons b bs)
  have "hex_digit (unat b div 16) \<in> set ''0123456789abcdef''"
    by (rule hex_digit_in) (rule unat_byte_div16)
  moreover have "hex_digit (unat b mod 16) \<in> set ''0123456789abcdef''"
    by (rule hex_digit_in) simp
  ultimately show ?case using Cons.IH by (simp add: BytesToHexString_def)
qed

subsection \<open>The byte arrays of the derivation\<close>

lemma upt8: "[0..<8] = [0,1,2,3,4,5,6,7]" by (simp add: upt_rec)

lemma ff_mask: "(255 :: i64) = mask 8" by (simp add: mask_eq_decr_exp)
lemma fc_mask: "(252 :: i64) = push_bit 2 (mask 6)" by (simp add: mask_eq_decr_exp push_bit_eq_mult)

lemma hi_byte:
  "k \<le> 54 \<Longrightarrow> (ucast (signed_drop_bit k c AND 0xff) :: byte) = ucast (drop_bit (k + 2) (push_bit 2 (c :: i64)))"
  unfolding ff_mask
  by (rule bit_word_eqI) (auto simp add: bit_simps)

lemma depth_byte:
  "k \<le> 56 \<Longrightarrow> (ucast (signed_drop_bit k d AND 0xff) :: byte) = ucast (drop_bit k (d :: i64))"
  unfolding ff_mask
  by (rule bit_word_eqI) (auto simp add: bit_simps)

lemma depth_byte':
  "k \<le> 56 \<Longrightarrow> (ucast (signed_drop_bit k d) :: byte) = ucast (drop_bit k (d :: i64))"
  by (rule bit_word_eqI) (auto simp add: bit_simps)

lemma depth_byte0: "(ucast (d AND 0xff) :: byte) = ucast (d :: i64)"
  unfolding ff_mask
  by (rule bit_word_eqI) (auto simp add: bit_simps)

lemma lo_byte:
  "(ucast (push_bit 2 c AND 0xfc) :: byte) OR ucast (category_bits mine sweep) = ucast (push_bit 2 (c :: i64) OR category_bits mine sweep)"
  unfolding fc_mask
  apply (rule bit_word_eqI) 
  apply (cases mine; cases sweep; auto simp add: bit_simps category_bits_def)
  done

lemma cat_cases: "(ucast (category_bits mine sweep) :: byte) = (if \<not> mine \<and> sweep then 0 else if \<not> mine \<and> \<not> sweep then 1 else if mine \<and> \<not> sweep then 2 else 3)"
  by (simp add: category_bits_def)

lemma bit_category_bits: "bit (category_bits mine sweep) n \<Longrightarrow> n < 2"
proof -
  have "category_bits mine sweep AND mask 2 = category_bits mine sweep"
    by (simp add: category_bits_def mask_eq_decr_exp)
  moreover assume "bit (category_bits mine sweep) n"
  ultimately have "bit (category_bits mine sweep AND mask 2) n" by simp
  then show ?thesis by (simp add: bit_simps)
qed

lemma hi_or:
  "2 \<le> k \<Longrightarrow> drop_bit k (category_bits mine sweep) = 0"
  by (rule bit_word_eqI) (auto simp add: bit_simps dest: bit_category_bits)

lemma chaincode_bytes_be64: "chaincode_bytes c mine sweep = be64 (push_bit 2 c OR category_bits mine sweep)"
proof -
  have "chaincode_bytes c mine sweep = [ucast (signed_drop_bit 54 c AND 0xff) :: byte,
         ucast (signed_drop_bit 46 c AND 0xff),
         ucast (signed_drop_bit 38 c AND 0xff),
         ucast (signed_drop_bit 30 c AND 0xff),
         ucast (signed_drop_bit 22 c AND 0xff),
         ucast (signed_drop_bit 14 c AND 0xff),
         ucast (signed_drop_bit 6 c AND 0xff),
         ucast (push_bit 2 c AND 0xfc) OR ucast (category_bits mine sweep)]"
    unfolding chaincode_bytes_def Let_def cat_cases by (cases mine; cases sweep; simp)
  also have "\<dots> = be64 (push_bit 2 c OR category_bits mine sweep)"
    unfolding be64_def upt8 lo_byte
    by (simp add: hi_byte hi_or)
  finally show ?thesis .
qed

lemma depth_bytes_be64: "depth_bytes d = be64 d"
  unfolding depth_bytes_def be64_def upt8 by (simp add: depth_byte depth_byte' depth_byte0)

lemma derive_secret_spec:
  "derive_secret H hdroot chaincode mine sweep depth = spec_derive H hdroot chaincode mine sweep depth"
  by (simp add: derive_secret_def spec_derive_def Let_def chaincode_bytes_be64 depth_bytes_be64)

lemma length_derive_secret: "length (derive_secret H hdroot chaincode mine sweep depth) = 64"
  by (simp add: derive_secret_def Let_def length_BytesToHexString)

lemma set_derive_secret: "set (derive_secret H hdroot chaincode mine sweep depth) \<subseteq> set ''0123456789abcdef''"
  unfolding derive_secret_def Let_def by (rule set_BytesToHexString)

subsection \<open>What a successful ReserveSecret did\<close>

lemma ReserveSecret_Inr:
  assumes "ReserveSecret H timestamp mine sweep w = (Inr ws, w')"
  shows "\<exists>row. select_hdchain (live (m_db w)) (m_hdroot_id w) 0 mine sweep = Some row \<and>
           fault_free 1 (faults (m_db w)) \<and>
           0 \<le> to_int32 (c_id row) \<and>
           0 \<le> sint (word_of_int (c_maxdepth row) :: i64) \<and>
           ws = \<lparr>ws_id = - 1, ws_timestamp = timestamp,
                 ws_secret = derive_secret H (m_hdroot w) 0 mine sweep (word_of_int (c_maxdepth row)),
                 ws_mine = mine, ws_sweep = sweep\<rparr> \<and>
           ExecuteSql
             [BEGIN_TRANSACTION,
              INSERT_secret timestamp (derive_secret H (m_hdroot w) 0 mine sweep (word_of_int (c_maxdepth row))) mine sweep,
              UPDATE_secret_mine mine (derive_secret H (m_hdroot w) 0 mine sweep (word_of_int (c_maxdepth row))),
              UPDATE_secret_sweep sweep (derive_secret H (m_hdroot w) 0 mine sweep (word_of_int (c_maxdepth row))),
              INSERT_hdkey (to_int32 (c_id row)) (sint (word_of_int (c_maxdepth row) :: i64))
                (derive_secret H (m_hdroot w) 0 mine sweep (word_of_int (c_maxdepth row))),
              UPDATE_hdchain_maxdepth (to_int32 (c_id row)),
              COMMIT] (w\<lparr>m_db := (m_db w)\<lparr>faults := drop 1 (faults (m_db w))\<rparr>\<rparr>) = (True, w')"
  using assms
  unfolding ReserveSecret_def sqlite3_query_eq Let_def
  by (auto split: if_splits option.splits prod.splits bool.splits)


lemma data_reserve_stmts: "data_stmts (reserve_stmts timestamp secret mine sweep hdchain_id depth)"
  by (simp add: data_stmts_def reserve_stmts_def)

lemma sint_word_of_int_64: "- (2 ^ 63) \<le> x \<Longrightarrow> x < 2 ^ 63 \<Longrightarrow> sint (word_of_int x :: i64) = x"
  by (simp add: sint_sbintrunc' signed_take_bit_int_eq_self)

lemma ReserveSecret_ok:
  assumes row: "select_hdchain (live (m_db w)) (m_hdroot_id w) 0 mine sweep = Some row"
    and id: "0 \<le> c_id row" "c_id row < 2 ^ 31"
    and depth: "0 \<le> c_maxdepth row" "c_maxdepth row < 2 ^ 63"
    and txn: "\<not> in_txn (m_db w)"
    and ff: "fault_free 8 (faults (m_db w))"
  shows "ReserveSecret H timestamp mine sweep w =
     (Inr \<lparr>ws_id = - 1, ws_timestamp = timestamp,
           ws_secret = derive_secret H (m_hdroot w) 0 mine sweep (word_of_int (c_maxdepth row)),
           ws_mine = mine, ws_sweep = sweep\<rparr>,
      w\<lparr>m_db := committed
          (reserve_stmts timestamp
             (derive_secret H (m_hdroot w) 0 mine sweep (word_of_int (c_maxdepth row)))
             mine sweep (c_id row) (c_maxdepth row))
          ((m_db w)\<lparr>faults := drop 1 (faults (m_db w))\<rparr>)\<rparr>)"
proof -
  let ?sk = "derive_secret H (m_hdroot w) 0 mine sweep (word_of_int (c_maxdepth row))"
  let ?w0 = "w\<lparr>m_db := (m_db w)\<lparr>faults := drop 1 (faults (m_db w))\<rparr>\<rparr>"
  let ?ss = "reserve_stmts timestamp ?sk mine sweep (c_id row) (c_maxdepth row)"
  have "fault_free (1 + 7) (faults (m_db w))" using ff by simp
  then have f1: "fault_free 1 (faults (m_db w))" and f7: "fault_free 7 (drop 1 (faults (m_db w)))"
    unfolding fault_free_add [of 1] by simp_all
  have i: "to_int32 (c_id row) = c_id row" using id by (simp add: to_int32_id)
  have d: "sint (word_of_int (c_maxdepth row) :: i64) = c_maxdepth row"
    using depth by (simp add: sint_word_of_int_64)
  have l: "length ?ss = 5" by (simp add: reserve_stmts_def)
  have f: "fault_free (length ?ss + 2) (faults (m_db ?w0))" using f7 by (simp add: l)
  have e: "ExecuteSql (BEGIN_TRANSACTION # ?ss @ [COMMIT]) ?w0 = (True, ?w0\<lparr>m_db := committed ?ss (m_db ?w0)\<rparr>)"
    by (rule ExecuteSql_txn_ok [OF data_reserve_stmts _ f]) (use txn in simp)
  show ?thesis
    unfolding ReserveSecret_def sqlite3_query_eq Let_def
    using row f1 id depth e by (simp add: i d reserve_stmts_def)
qed

subsection \<open>The checks and the commit phase of ReplaceWebcash\<close>

lemma replace_inputs_pass:
  "inputs_pass inputs \<Longrightarrow>
   replace_inputs inputs ins total_in err =
     (True, ins @ map wire_input inputs, total_in + sum_list (map wo_amount inputs),
      err @ amount_warnings inputs)"
proof (induction inputs arbitrary: ins total_in err)
  case Nil
  then show ?case by (simp add: amount_warnings_def)
next
  case (Cons webcash rest)
  then show ?case
    by (auto simp add: inputs_pass_def amount_warnings_def wire_input_def Let_def add.assoc)
qed

lemma replace_inputs_fail:
  "\<not> inputs_pass inputs \<Longrightarrow>
   \<exists>ins' total' msgs. replace_inputs inputs ins total_in err = (False, ins', total', err @ msgs) \<and> msgs \<noteq> []"
proof (induction inputs arbitrary: ins total_in err)
  case Nil
  then show ?case by (simp add: inputs_pass_def)
next
  case (Cons webcash rest)
  show ?case
  proof (cases "wo_secret webcash")
    case None
    then show ?thesis by simp
  next
    case (Some secret)
    show ?thesis
    proof (cases "wo_spent webcash")
      case True
      with Some show ?thesis by (simp add: Let_def)
    next
      case False
      with Some Cons.prems have "\<not> inputs_pass rest" by (simp add: inputs_pass_def)
      from Cons.IH [OF this] obtain ins' total' msgs where
        "replace_inputs rest
           (ins @ [to_string_SecretWebcash \<lparr>sk = ws_secret secret, sk_amount = wo_amount webcash\<rparr>])
           (total_in + wo_amount webcash)
           (if sint (wo_amount webcash) < 1 then err @ [''Invalid amount for replacement intput: ''] else err)
         = (False, ins', total',
            (if sint (wo_amount webcash) < 1 then err @ [''Invalid amount for replacement intput: ''] else err) @ msgs)"
        and "msgs \<noteq> []" by blast
      with Some False show ?thesis by (auto simp add: Let_def)
    qed
  qed
qed

lemma replace_outputs_pass:
  "outputs_pass outputs \<Longrightarrow>
   replace_outputs outputs outs total_out err =
     (True, outs @ map wire_output outputs, total_out + sum_list (map snd outputs), err)"
  by (induction outputs arbitrary: outs total_out)
     (auto simp add: outputs_pass_def wire_output_def add.assoc)

lemma replace_outputs_fail:
  "\<not> outputs_pass outputs \<Longrightarrow>
   \<exists>outs' total'. replace_outputs outputs outs total_out err =
     (False, outs', total', err @ [''Invalid amount for replacement output: ''])"
  by (induction outputs arbitrary: outs total_out)
     (auto simp add: outputs_pass_def)

lemma ReplaceWebcash_rejected:
  assumes "\<not> replace_accepts inputs outputs"
  shows "\<exists>msgs. msgs \<noteq> [] \<and>
     ReplaceWebcash H server timestamp inputs outputs w = ([], inputs, w\<lparr>cerr := cerr w @ msgs\<rparr>)"
proof (cases "inputs = []")
  case True
  then have "ReplaceWebcash H server timestamp inputs outputs w =
      ([], inputs, w\<lparr>cerr := cerr w @ [''No inputs provided for replacement.'']\<rparr>)"
    by (simp add: ReplaceWebcash_def)
  then show ?thesis by blast
next
  case ne: False
  show ?thesis
  proof (cases "inputs_pass inputs")
    case False
    from replace_inputs_fail [OF this, of "[]" 0 "cerr w"] obtain ins' total' msgs where
      "replace_inputs inputs [] 0 (cerr w) = (False, ins', total', cerr w @ msgs)" "msgs \<noteq> []"
      by blast
    with ne have "msgs \<noteq> [] \<and> ReplaceWebcash H server timestamp inputs outputs w =
        ([], inputs, w\<lparr>cerr := cerr w @ msgs\<rparr>)"
      by (simp add: ReplaceWebcash_def)
    then show ?thesis by blast
  next
    case ip: True
    note ri = replace_inputs_pass [OF ip, of "[]" 0 "cerr w"]
    show ?thesis
    proof (cases "outputs = []")
      case True
      with ne ri have "ReplaceWebcash H server timestamp inputs outputs w =
          ([], inputs, w\<lparr>cerr := cerr w @ (amount_warnings inputs @
             [''No outputs provided for replacement.''])\<rparr>)"
        by (simp add: ReplaceWebcash_def)
      then show ?thesis by (intro exI [of _ "amount_warnings inputs @
             [''No outputs provided for replacement.'']"]) simp
    next
      case one: False
      show ?thesis
      proof (cases "outputs_pass outputs")
        case False
        from replace_outputs_fail [OF this, of "[]" 0 "cerr w @ amount_warnings inputs"]
        have "ReplaceWebcash H server timestamp inputs outputs w =
          ([], inputs, w\<lparr>cerr := cerr w @ (amount_warnings inputs @
             [''Invalid amount for replacement output: ''])\<rparr>)"
          using ne one ri by (auto simp add: ReplaceWebcash_def)
        then show ?thesis by (intro exI [of _ "amount_warnings inputs @
             [''Invalid amount for replacement output: '']"]) simp
      next
        case True
        note ro = replace_outputs_pass [OF True, of "[]" 0 "cerr w @ amount_warnings inputs"]
        from assms ne ip one True have "sum_list (map wo_amount inputs) \<noteq> sum_list (map snd outputs)"
          by (simp add: replace_accepts_def)
        then have "ReplaceWebcash H server timestamp inputs outputs w =
          ([], inputs, w\<lparr>cerr := cerr w @ (amount_warnings inputs @
             [''Invalid replacement: sum(inputs) != sum(outputs)''])\<rparr>)"
          using ne one ri ro by (simp add: ReplaceWebcash_def)
        then show ?thesis by (intro exI [of _ "amount_warnings inputs @
             [''Invalid replacement: sum(inputs) != sum(outputs)'']"]) simp
      qed
    qed
  qed
qed

lemma ReplaceWebcash_accepted:
  assumes "replace_accepts inputs outputs"
  shows "ReplaceWebcash H server timestamp inputs outputs w =
     (let w1 = w\<lparr>cerr := cerr w @ amount_warnings inputs,
                 posted := posted w @ [replace_request_of inputs outputs]\<rparr>
      in case server (replace_request_of inputs outputs) of
           HttpError \<Rightarrow>
             ([], inputs,
              w1\<lparr>cerr := cerr w1 @
                 [''Error: returned invalid response to Replace request: '',
                  ''Possible transient error, or server timeout?  Cannot proceed.'']\<rparr>)
         | HttpResponse status body \<Rightarrow>
             if status \<noteq> 200 then
               ([], inputs,
                w1\<lparr>cerr := cerr w1 @
                   [''Error: returned invalid response to Replace request: status_code='']\<rparr>)
             else
               (fst (create_outputs H timestamp outputs (snd (mark_spent inputs w1))),
                fst (mark_spent inputs w1),
                snd (create_outputs H timestamp outputs (snd (mark_spent inputs w1)))))"
  using assms
  by (simp add: ReplaceWebcash_def replace_accepts_def replace_inputs_pass replace_outputs_pass
        replace_request_of_def Let_def split: http_result.splits prod.splits)

lemma ok_flags_length [simp]: "length (ok_flags n fs) = n"
  by (induction n fs rule: ok_flags.induct) simp_all

lemma ok_flags_Suc:
  "ok_flags (Suc n) fs = fault_free 1 fs # ok_flags n (drop 1 fs)"
  by (cases fs) simp_all

lemma ExecuteSql_single:
  assumes "s \<noteq> BEGIN_TRANSACTION" "s \<noteq> COMMIT"
  shows "ExecuteSql [s] w =
     (if fault_free 1 (faults (m_db w)) then (True, w\<lparr>m_db := stmt_effect s (m_db w)\<rparr>)
      else (False, w\<lparr>m_db := (m_db w)\<lparr>faults := drop 1 (faults (m_db w))\<rparr>,
                     cerr := cerr w @ [sql_msg]\<rparr>))"
  using assms
  by (simp add: run_stmt_def sqlite3_query_eq stmt_effect_def Let_def sql_msg_def
        split: prod.splits)

lemma spend_if_id [simp]: "o_id (spend_if ids r) = o_id r"
  by (simp add: spend_if_def)

lemma spend_if_spend_if: "spend_if A (spend_if B r) = spend_if (A \<union> B) r"
  by (auto simp add: spend_if_def)

lemma spend_if_empty [simp]: "spend_if {} r = r"
  by (simp add: spend_if_def)

lemma update_is_spend_if:
  "(\<lambda>r. if o_id r = i then r\<lparr>o_spent := True\<rparr> else r) = spend_if {i}"
  by (rule ext) (simp add: spend_if_def)

lemma mark_spent_Cons:
  "mark_spent (webcash # rest) w =
     (let w1 = (if fault_free 1 (faults (m_db w))
                then w\<lparr>m_db := stmt_effect (UPDATE_output_spent (wo_id webcash)) (m_db w)\<rparr>
                else w\<lparr>m_db := (m_db w)\<lparr>faults := drop 1 (faults (m_db w))\<rparr>,
                       cerr := cerr w @ [sql_msg,
                         ''Unable to mark output as spent.  See error log for details.'']\<rparr>)
      in (webcash\<lparr>wo_spent := True\<rparr> # fst (mark_spent rest w1), snd (mark_spent rest w1)))"
  by (simp add: ExecuteSql_single Let_def split: prod.splits del: ExecuteSql.simps)

lemma mark_spent_fst: "fst (mark_spent inputs w) = map (\<lambda>webcash. webcash\<lparr>wo_spent := True\<rparr>) inputs"
  by (induction inputs arbitrary: w) (simp_all add: mark_spent_Cons Let_def del: mark_spent.simps(2))

lemma marked_ids_Cons:
  "marked_ids (webcash # rest) fs =
     (if fault_free 1 fs then [wo_id webcash] else []) @ marked_ids rest (drop 1 fs)"
  by (simp add: marked_ids_def ok_flags_Suc)

lemma mark_spent_snd:
  "cerr (snd (mark_spent inputs w)) =
     cerr w @ failure_log ''Unable to mark output as spent.  See error log for details.''
                 (ok_flags (length inputs) (faults (m_db w))) \<and>
   posted (snd (mark_spent inputs w)) = posted w \<and>
   bak (snd (mark_spent inputs w)) = bak w \<and>
   faults (m_db (snd (mark_spent inputs w))) = drop (length inputs) (faults (m_db w)) \<and>
   in_txn (m_db (snd (mark_spent inputs w))) = in_txn (m_db w) \<and>
   last_insert_rowid (m_db (snd (mark_spent inputs w))) = last_insert_rowid (m_db w) \<and>
   live (m_db (snd (mark_spent inputs w))) =
     (live (m_db w))\<lparr>output_tab :=
        map (spend_if (set (marked_ids inputs (faults (m_db w))))) (output_tab (live (m_db w)))\<rparr>"
proof (induction inputs arbitrary: w)
  case Nil
  then show ?case by (simp add: marked_ids_def failure_log_def)
next
  case (Cons webcash rest)
  let ?s = "UPDATE_output_spent (wo_id webcash)"
  show ?case
  proof (cases "fault_free 1 (faults (m_db w))")
    case True
    let ?w1 = "w\<lparr>m_db := stmt_effect ?s (m_db w)\<rparr>"
    have m: "snd (mark_spent (webcash # rest) w) = snd (mark_spent rest ?w1)"
      using True by (simp add: mark_spent_Cons Let_def del: mark_spent.simps(2))
    have l: "live (stmt_effect ?s (m_db w)) = (live (m_db w))\<lparr>output_tab :=
        map (spend_if {wo_id webcash}) (output_tab (live (m_db w)))\<rparr>"
      by (simp add: stmt_effect_def Let_def update_is_spend_if)
    have f: "faults (stmt_effect ?s (m_db w)) = drop 1 (faults (m_db w))"
      and t: "in_txn (stmt_effect ?s (m_db w)) = in_txn (m_db w)"
      and r: "last_insert_rowid (stmt_effect ?s (m_db w)) = last_insert_rowid (m_db w)"
      by (simp_all add: stmt_effect_def Let_def)
    show ?thesis
      unfolding m
      using Cons.IH [of ?w1] True
      apply (simp add: l f t r marked_ids_Cons ok_flags_Suc failure_log_def spend_if_spend_if
          Un_commute del: One_nat_def)
      apply simp?
      done
  next
    case False
    let ?w1 = "w\<lparr>m_db := (m_db w)\<lparr>faults := drop 1 (faults (m_db w))\<rparr>,
                 cerr := cerr w @ [sql_msg, ''Unable to mark output as spent.  See error log for details.'']\<rparr>"
    have m: "snd (mark_spent (webcash # rest) w) = snd (mark_spent rest ?w1)"
      using False by (simp add: mark_spent_Cons Let_def del: mark_spent.simps(2))
    show ?thesis
      unfolding m
      using Cons.IH [of ?w1] False
      apply (simp add: marked_ids_Cons ok_flags_Suc failure_log_def del: One_nat_def)
      apply simp?
      done
  qed
qed

lemma next_rowid_snoc: "next_rowid (ids @ [next_rowid ids]) = next_rowid ids + 1"
proof (cases "ids = []")
  case True
  then show ?thesis by (simp add: next_rowid_def)
next
  case False
  then have "Max (insert (Max (set ids) + 1) (set ids)) = Max (set ids) + 1"
    by (simp add: max_def)
  with False show ?thesis by (simp add: next_rowid_def)
qed

lemma fresh_rowids_0 [simp]: "fresh_rowids n0 0 = []"
  by (simp add: fresh_rowids_def)

lemma fresh_rowids_Suc: "fresh_rowids n0 (Suc k) = n0 # fresh_rowids (n0 + 1) k"
proof -
  have "map (\<lambda>j. n0 + int j) [0..<Suc k] = (n0 + int 0) # map ((\<lambda>j. n0 + int j) \<circ> Suc) [0..<k]"
    unfolding map_Suc_upt [symmetric] upt_conv_Cons [OF zero_less_Suc] by simp
  moreover have "(\<lambda>j. n0 + int j) \<circ> Suc = (\<lambda>j. (n0 + 1) + int j)"
    by (rule ext) simp
  ultimately show ?thesis by (simp add: fresh_rowids_def)
qed

lemma AddOutputToWallet_eq:
  "AddOutputToWallet timestamp epk secret_id spent w =
     (let s = INSERT_output timestamp (Rep_uint256 (pk epk))
                (if secret_id \<noteq> 0 then Some secret_id else None) (sint (pk_amount epk)) spent
      in if fault_free 1 (faults (m_db w))
         then (to_int32 (last_insert_rowid (stmt_effect s (m_db w))), w\<lparr>m_db := stmt_effect s (m_db w)\<rparr>)
         else (0, w\<lparr>m_db := (m_db w)\<lparr>faults := drop 1 (faults (m_db w))\<rparr>,
                    cerr := cerr w @ [sql_msg]\<rparr>))"
  by (simp add: AddOutputToWallet_def ExecuteSql_single Let_def del: ExecuteSql.simps)

lemma stmt_effect_INSERT_output:
  "stmt_effect (INSERT_output timestamp hash secret_id amount spent) db =
     (let n = next_rowid (map o_id (output_tab (live db)));
          t = (live db)\<lparr>output_tab := output_tab (live db) @
                [\<lparr>o_id = n, o_timestamp = timestamp, o_hash = hash, o_secret_id = secret_id,
                  o_amount = amount, o_spent = spent\<rparr>]\<rparr>;
          db1 = db\<lparr>live := t, last_insert_rowid := n, faults := drop 1 (faults db)\<rparr>
      in if in_txn db then db1 else db1\<lparr>disk := t\<rparr>)"
  by (simp add: stmt_effect_def Let_def)

lemma inserted_outputs_Cons:
  "inserted_outputs (webcash # rest) fs =
     (if fault_free 1 fs then [webcash] else []) @ inserted_outputs rest (drop 1 fs)"
  by (simp add: inserted_outputs_def ok_flags_Suc)

lemma create_outputs_Cons:
  assumes "0 < next_rowid (map o_id (output_tab (live (m_db w))))"
    "next_rowid (map o_id (output_tab (live (m_db w)))) < 2 ^ 31"
  shows "create_outputs H timestamp (webcash # rest) w =
     (if fault_free 1 (faults (m_db w)) then
        (let w1 = w\<lparr>m_db := stmt_effect
                     (INSERT_output timestamp (Rep_uint256 (H (bytes_of_string (ws_secret (fst webcash)))))
                        (if ws_id (fst webcash) \<noteq> 0 then Some (ws_id (fst webcash)) else None)
                        (sint (snd webcash)) False) (m_db w)\<rparr>
         in ((fst webcash, next_rowid (map o_id (output_tab (live (m_db w))))) #
               fst (create_outputs H timestamp rest w1),
             snd (create_outputs H timestamp rest w1)))
      else
        create_outputs H timestamp rest
          (w\<lparr>m_db := (m_db w)\<lparr>faults := drop 1 (faults (m_db w))\<rparr>,
             cerr := cerr w @ [sql_msg, out_msg]\<rparr>))"
proof -
  have "to_int32 (next_rowid (map o_id (output_tab (live (m_db w))))) =
      next_rowid (map o_id (output_tab (live (m_db w))))"
    using assms by (simp add: to_int32_id)
  then show ?thesis
    using assms(1)
    by (simp add: AddOutputToWallet_eq stmt_effect_INSERT_output PublicWebcash_of_def Let_def
          out_msg_def split: prod.splits del: One_nat_def)
qed

lemma create_outputs_eq:
  assumes "n0 = next_rowid (map o_id (output_tab (live (m_db w))))"
    and "0 < n0" and "n0 + int (length outputs) \<le> 2 ^ 31"
  shows "fst (create_outputs H timestamp outputs w) =
           zip (map fst (inserted_outputs outputs (faults (m_db w))))
               (fresh_rowids n0 (length (inserted_outputs outputs (faults (m_db w))))) \<and>
         cerr (snd (create_outputs H timestamp outputs w)) =
           cerr w @ failure_log out_msg (ok_flags (length outputs) (faults (m_db w))) \<and>
         posted (snd (create_outputs H timestamp outputs w)) = posted w \<and>
         bak (snd (create_outputs H timestamp outputs w)) = bak w \<and>
         faults (m_db (snd (create_outputs H timestamp outputs w))) =
           drop (length outputs) (faults (m_db w)) \<and>
         in_txn (m_db (snd (create_outputs H timestamp outputs w))) = in_txn (m_db w) \<and>
         live (m_db (snd (create_outputs H timestamp outputs w))) =
           (live (m_db w))\<lparr>output_tab := output_tab (live (m_db w)) @
              map2 (new_output_row H timestamp) (inserted_outputs outputs (faults (m_db w)))
                (fresh_rowids n0 (length (inserted_outputs outputs (faults (m_db w)))))\<rparr>"
  using assms
proof (induction outputs arbitrary: w n0)
  case Nil
  then show ?case by (simp add: inserted_outputs_def failure_log_def)
next
  case (Cons webcash rest)
  let ?tab = "output_tab (live (m_db w))"
  have n0: "0 < next_rowid (map o_id ?tab)" "next_rowid (map o_id ?tab) < 2 ^ 31"
    using Cons.prems by simp_all
  note step = create_outputs_Cons [OF n0, of H timestamp webcash rest]
  show ?case
  proof (cases "fault_free 1 (faults (m_db w))")
    case True
    let ?s = "INSERT_output timestamp (Rep_uint256 (H (bytes_of_string (ws_secret (fst webcash)))))
                (if ws_id (fst webcash) \<noteq> 0 then Some (ws_id (fst webcash)) else None)
                (sint (snd webcash)) False"
    let ?w1 = "w\<lparr>m_db := stmt_effect ?s (m_db w)\<rparr>"
    have l: "live (stmt_effect ?s (m_db w)) =
        (live (m_db w))\<lparr>output_tab := ?tab @ [new_output_row H timestamp webcash n0]\<rparr>"
      using Cons.prems(1) by (simp add: stmt_effect_INSERT_output Let_def new_output_row_def)
    have f: "faults (stmt_effect ?s (m_db w)) = drop 1 (faults (m_db w))"
      and t: "in_txn (stmt_effect ?s (m_db w)) = in_txn (m_db w)"
      by (simp_all add: stmt_effect_def Let_def)
    have n1: "n0 + 1 = next_rowid (map o_id (output_tab (live (m_db ?w1))))"
      using Cons.prems(1) next_rowid_snoc [of "map o_id ?tab"]
      by (simp add: l new_output_row_def)
    have ih: "fst (create_outputs H timestamp rest ?w1) =
           zip (map fst (inserted_outputs rest (faults (m_db ?w1))))
               (fresh_rowids (n0 + 1) (length (inserted_outputs rest (faults (m_db ?w1))))) \<and>
         cerr (snd (create_outputs H timestamp rest ?w1)) =
           cerr ?w1 @ failure_log out_msg (ok_flags (length rest) (faults (m_db ?w1))) \<and>
         posted (snd (create_outputs H timestamp rest ?w1)) = posted ?w1 \<and>
         bak (snd (create_outputs H timestamp rest ?w1)) = bak ?w1 \<and>
         faults (m_db (snd (create_outputs H timestamp rest ?w1))) =
           drop (length rest) (faults (m_db ?w1)) \<and>
         in_txn (m_db (snd (create_outputs H timestamp rest ?w1))) = in_txn (m_db ?w1) \<and>
         live (m_db (snd (create_outputs H timestamp rest ?w1))) =
           (live (m_db ?w1))\<lparr>output_tab := output_tab (live (m_db ?w1)) @
              map2 (new_output_row H timestamp) (inserted_outputs rest (faults (m_db ?w1)))
                (fresh_rowids (n0 + 1) (length (inserted_outputs rest (faults (m_db ?w1)))))\<rparr>"
      by (rule Cons.IH [OF n1]) (use Cons.prems in simp_all)
    show ?thesis
      unfolding step
      using True ih Cons.prems(1)
      by (simp add: Let_def l f t inserted_outputs_Cons fresh_rowids_Suc ok_flags_Suc
            failure_log_def del: One_nat_def) simp
  next
    case False
    let ?w1 = "w\<lparr>m_db := (m_db w)\<lparr>faults := drop 1 (faults (m_db w))\<rparr>,
                 cerr := cerr w @ [sql_msg, out_msg]\<rparr>"
    have n1: "n0 = next_rowid (map o_id (output_tab (live (m_db ?w1))))"
      using Cons.prems(1) by simp
    have ih: "fst (create_outputs H timestamp rest ?w1) =
           zip (map fst (inserted_outputs rest (faults (m_db ?w1))))
               (fresh_rowids n0 (length (inserted_outputs rest (faults (m_db ?w1))))) \<and>
         cerr (snd (create_outputs H timestamp rest ?w1)) =
           cerr ?w1 @ failure_log out_msg (ok_flags (length rest) (faults (m_db ?w1))) \<and>
         posted (snd (create_outputs H timestamp rest ?w1)) = posted ?w1 \<and>
         bak (snd (create_outputs H timestamp rest ?w1)) = bak ?w1 \<and>
         faults (m_db (snd (create_outputs H timestamp rest ?w1))) =
           drop (length rest) (faults (m_db ?w1)) \<and>
         in_txn (m_db (snd (create_outputs H timestamp rest ?w1))) = in_txn (m_db ?w1) \<and>
         live (m_db (snd (create_outputs H timestamp rest ?w1))) =
           (live (m_db ?w1))\<lparr>output_tab := output_tab (live (m_db ?w1)) @
              map2 (new_output_row H timestamp) (inserted_outputs rest (faults (m_db ?w1)))
                (fresh_rowids n0 (length (inserted_outputs rest (faults (m_db ?w1)))))\<rparr>"
      by (rule Cons.IH [OF n1]) (use Cons.prems in simp_all)
    show ?thesis
      unfolding step
      using False ih
      by (simp add: Let_def inserted_outputs_Cons ok_flags_Suc failure_log_def del: One_nat_def)
         simp
  qed
qed

lemma ExecuteSql_frame:
  "posted (snd (ExecuteSql ss w)) = posted w \<and> bak (snd (ExecuteSql ss w)) = bak w \<and>
   m_hdroot (snd (ExecuteSql ss w)) = m_hdroot w \<and> m_hdroot_id (snd (ExecuteSql ss w)) = m_hdroot_id w"
  by (induction ss arbitrary: w) (auto split: prod.splits bool.splits)

lemma AddOutputToWallet_frame:
  "posted (snd (AddOutputToWallet timestamp epk secret_id spent w)) = posted w \<and>
   bak (snd (AddOutputToWallet timestamp epk secret_id spent w)) = bak w"
  by (simp add: AddOutputToWallet_eq Let_def)

lemma AddOutputToWallet_appends:
  "\<exists>new. output_tab (live (m_db (snd (AddOutputToWallet timestamp epk secret_id spent w)))) =
           output_tab (live (m_db w)) @ new"
  by (simp add: AddOutputToWallet_eq stmt_effect_INSERT_output Let_def)

lemma mark_spent_posted: "posted (snd (mark_spent inputs w)) = posted w"
  using mark_spent_snd [of inputs w] by simp

lemma create_outputs_frame:
  "posted (snd (create_outputs H timestamp outputs w)) = posted w \<and>
   (\<exists>new. output_tab (live (m_db (snd (create_outputs H timestamp outputs w)))) =
           output_tab (live (m_db w)) @ new)"
proof (induction outputs arbitrary: w)
  case Nil
  then show ?case by simp
next
  case (Cons webcash rest)
  let ?a = "AddOutputToWallet timestamp
              (PublicWebcash_of H \<lparr>sk = ws_secret (fst webcash), sk_amount = snd webcash\<rparr>)
              (ws_id (fst webcash)) False w"
  obtain new1 where n1: "output_tab (live (m_db (snd ?a))) = output_tab (live (m_db w)) @ new1"
    using AddOutputToWallet_appends by blast
  have p1: "posted (snd ?a) = posted w" by (simp add: AddOutputToWallet_frame)
  show ?case
  proof (cases "fst ?a = 0")
    case True
    let ?w1 = "(snd ?a)\<lparr>cerr := cerr (snd ?a) @ [''Error creating database record for replacement output: '']\<rparr>"
    have c: "create_outputs H timestamp (webcash # rest) w = create_outputs H timestamp rest ?w1"
      using True by (auto simp add: Let_def split: prod.splits)
    from Cons.IH [of ?w1] obtain new2 where
      "posted (snd (create_outputs H timestamp rest ?w1)) = posted ?w1"
      "output_tab (live (m_db (snd (create_outputs H timestamp rest ?w1)))) =
         output_tab (live (m_db ?w1)) @ new2" by blast
    then show ?thesis unfolding c using n1 p1 by simp
  next
    case False
    have c: "snd (create_outputs H timestamp (webcash # rest) w) =
        snd (create_outputs H timestamp rest (snd ?a))"
      using False by (auto simp add: Let_def split: prod.splits)
    from Cons.IH [of "snd ?a"] obtain new2 where
      "posted (snd (create_outputs H timestamp rest (snd ?a))) = posted (snd ?a)"
      "output_tab (live (m_db (snd (create_outputs H timestamp rest (snd ?a))))) =
         output_tab (live (m_db (snd ?a))) @ new2" by blast
    then show ?thesis unfolding c using n1 p1 by simp
  qed
qed

lemma ReplaceWebcash_posted:
  "posted (snd (snd (ReplaceWebcash H server timestamp inputs outputs w))) =
     (if replace_accepts inputs outputs then posted w @ [replace_request_of inputs outputs]
      else posted w)"
proof (cases "replace_accepts inputs outputs")
  case False
  from ReplaceWebcash_rejected [OF this, of H server timestamp w] False show ?thesis by auto
next
  case True
  show ?thesis
    unfolding ReplaceWebcash_accepted [OF True] Let_def
    using True
    by (simp add: create_outputs_frame mark_spent_posted split: http_result.splits)
qed

lemma ReplaceWebcash_commit:
  assumes call: "ReplaceWebcash H server timestamp inputs outputs w = (ret, inputs', w')"
    and posted: "posted w' = posted w @ [req]"
    and answer: "server req = HttpResponse 200 body"
  shows "replace_accepts inputs outputs \<and>
         ret = fst (create_outputs H timestamp outputs (snd (mark_spent inputs
                 (w\<lparr>cerr := cerr w @ amount_warnings inputs, posted := posted w @ [req]\<rparr>)))) \<and>
         inputs' = fst (mark_spent inputs
                 (w\<lparr>cerr := cerr w @ amount_warnings inputs, posted := posted w @ [req]\<rparr>)) \<and>
         w' = snd (create_outputs H timestamp outputs (snd (mark_spent inputs
                 (w\<lparr>cerr := cerr w @ amount_warnings inputs, posted := posted w @ [req]\<rparr>))))"
proof -
  have p: "posted w' = (if replace_accepts inputs outputs
      then posted w @ [replace_request_of inputs outputs] else posted w)"
    using ReplaceWebcash_posted [of H server timestamp inputs outputs w] call by simp
  with posted have acc: "replace_accepts inputs outputs" by (auto split: if_splits)
  with p posted have req: "req = replace_request_of inputs outputs" by simp
  show ?thesis
    using call answer acc unfolding ReplaceWebcash_accepted [OF acc] Let_def req
    by auto
qed

lemma ReplaceWebcash_no_commit:
  assumes call: "ReplaceWebcash H server timestamp inputs outputs w = (ret, inputs', w')"
    and no200: "\<forall>req body. posted w' = posted w @ [req] \<longrightarrow> server req \<noteq> HttpResponse 200 body"
  shows "ret = [] \<and> inputs' = inputs \<and> m_db w' = m_db w \<and> bak w' = bak w"
proof (cases "replace_accepts inputs outputs")
  case False
  from ReplaceWebcash_rejected [OF this, of H server timestamp w] call show ?thesis by auto
next
  case True
  have p: "posted w' = posted w @ [replace_request_of inputs outputs]"
    using ReplaceWebcash_posted [of H server timestamp inputs outputs w] call True by simp
  with no200 have n: "\<And>body. server (replace_request_of inputs outputs) \<noteq> HttpResponse 200 body"
    by blast
  show ?thesis
    using call n unfolding ReplaceWebcash_accepted [OF True] Let_def
    by (auto split: http_result.splits if_splits)
qed

lemma ok_flags_fault_free: "fault_free n fs \<Longrightarrow> ok_flags n fs = replicate n True"
  by (induction n fs rule: ok_flags.induct) simp_all

lemma filter_zip_all:
  "length xs = n \<Longrightarrow> map fst (filter snd (zip xs (replicate n True))) = xs"
  by (induction xs arbitrary: n) auto

lemma marked_ids_fault_free:
  "fault_free (length inputs) fs \<Longrightarrow> marked_ids inputs fs = map wo_id inputs"
proof -
  assume "fault_free (length inputs) fs"
  then have "marked_ids inputs fs =
      map wo_id (map fst (filter snd (zip inputs (replicate (length inputs) True))))"
    by (simp add: marked_ids_def ok_flags_fault_free)
  then show ?thesis by (simp add: filter_zip_all)
qed

lemma inserted_outputs_fault_free:
  "fault_free (length outputs) fs \<Longrightarrow> inserted_outputs outputs fs = outputs"
  by (simp add: inserted_outputs_def ok_flags_fault_free filter_zip_all)

lemma ReplaceWebcash_commit_effect:
  assumes call: "ReplaceWebcash H server timestamp inputs outputs w = (ret, inputs', w')"
    and posted: "posted w' = posted w @ [req]"
    and answer: "server req = HttpResponse 200 body"
    and pos: "0 < next_rowid (map o_id (output_tab (live (m_db w))))"
    and fit: "next_rowid (map o_id (output_tab (live (m_db w)))) + int (length outputs) \<le> 2 ^ 31"
  shows "live (m_db w') =
           (live (m_db w))\<lparr>output_tab :=
              map (spend_if (set (marked_ids inputs (faults (m_db w)))))
                (output_tab (live (m_db w))) @
              map2 (new_output_row H timestamp)
                (inserted_outputs outputs (drop (length inputs) (faults (m_db w))))
                (fresh_rowids (next_rowid (map o_id (output_tab (live (m_db w)))))
                   (length (inserted_outputs outputs (drop (length inputs) (faults (m_db w))))))\<rparr> \<and>
         ret = zip (map fst (inserted_outputs outputs (drop (length inputs) (faults (m_db w)))))
                 (fresh_rowids (next_rowid (map o_id (output_tab (live (m_db w)))))
                    (length (inserted_outputs outputs (drop (length inputs) (faults (m_db w)))))) \<and>
         faults (m_db w') = drop (length inputs + length outputs) (faults (m_db w)) \<and>
         cerr w' = cerr w @ amount_warnings inputs @
                   failure_log mark_msg (ok_flags (length inputs) (faults (m_db w))) @
                   failure_log out_msg
                     (ok_flags (length outputs) (drop (length inputs) (faults (m_db w)))) \<and>
         (fault_free (length inputs + length outputs) (faults (m_db w)) \<longrightarrow>
            marked_ids inputs (faults (m_db w)) = map wo_id inputs \<and>
            inserted_outputs outputs (drop (length inputs) (faults (m_db w))) = outputs)"
proof -
  let ?w1 = "w\<lparr>cerr := cerr w @ amount_warnings inputs, posted := posted w @ [req]\<rparr>"
  let ?w2 = "snd (mark_spent inputs ?w1)"
  let ?n0 = "next_rowid (map o_id (output_tab (live (m_db w))))"
  from ReplaceWebcash_commit [OF call posted answer]
  have ret: "ret = fst (create_outputs H timestamp outputs ?w2)"
    and w': "w' = snd (create_outputs H timestamp outputs ?w2)" by simp_all
  note ms = mark_spent_snd [of inputs ?w1]
  have f2: "faults (m_db ?w2) = drop (length inputs) (faults (m_db w))"
    and l2: "live (m_db ?w2) = (live (m_db w))\<lparr>output_tab :=
        map (spend_if (set (marked_ids inputs (faults (m_db w))))) (output_tab (live (m_db w)))\<rparr>"
    using ms by simp_all
  have c2: "cerr ?w2 = cerr w @ amount_warnings inputs @
      failure_log mark_msg (ok_flags (length inputs) (faults (m_db w)))"
    using ms by (simp add: mark_msg_def)
  have n2: "?n0 = next_rowid (map o_id (output_tab (live (m_db ?w2))))"
    by (simp add: l2 comp_def)
  note co = create_outputs_eq [OF n2 pos fit, of H timestamp]
  have c3: "cerr w' = cerr ?w2 @ failure_log out_msg (ok_flags (length outputs) (faults (m_db ?w2)))"
    using co unfolding w' by blast
  have a: "live (m_db w') =
           (live (m_db w))\<lparr>output_tab :=
              map (spend_if (set (marked_ids inputs (faults (m_db w)))))
                (output_tab (live (m_db w))) @
              map2 (new_output_row H timestamp)
                (inserted_outputs outputs (drop (length inputs) (faults (m_db w))))
                (fresh_rowids ?n0
                   (length (inserted_outputs outputs (drop (length inputs) (faults (m_db w))))))\<rparr>"
    using co unfolding w' by (simp add: l2 f2)
  have b: "ret = zip (map fst (inserted_outputs outputs (drop (length inputs) (faults (m_db w)))))
                 (fresh_rowids ?n0
                    (length (inserted_outputs outputs (drop (length inputs) (faults (m_db w))))))"
    using co unfolding ret by (simp add: f2)
  have c: "faults (m_db w') = drop (length inputs + length outputs) (faults (m_db w))"
    using co unfolding w' by (simp add: f2 add.commute)
  have d: "cerr w' = cerr w @ amount_warnings inputs @
                   failure_log mark_msg (ok_flags (length inputs) (faults (m_db w))) @
                   failure_log out_msg
                     (ok_flags (length outputs) (drop (length inputs) (faults (m_db w))))"
    by (simp add: c3 c2 f2)
  have e: "fault_free (length inputs + length outputs) (faults (m_db w)) \<longrightarrow>
            marked_ids inputs (faults (m_db w)) = map wo_id inputs \<and>
            inserted_outputs outputs (drop (length inputs) (faults (m_db w))) = outputs"
    by (simp add: fault_free_add marked_ids_fault_free inserted_outputs_fault_free)
  from a b c d e show ?thesis by blast
qed

lemma ReplaceWebcash_inputs_effect:
  assumes call: "ReplaceWebcash H server timestamp inputs outputs w = (ret, inputs', w')"
    and posted: "posted w' = posted w @ [req]"
    and answer: "server req = HttpResponse 200 body"
  shows "inputs' = map (\<lambda>webcash. webcash\<lparr>wo_spent := True\<rparr>) inputs \<and>
         take (length (output_tab (live (m_db w)))) (output_tab (live (m_db w'))) =
           map (spend_if (set (marked_ids inputs (faults (m_db w))))) (output_tab (live (m_db w)))"
proof -
  let ?w1 = "w\<lparr>cerr := cerr w @ amount_warnings inputs, posted := posted w @ [req]\<rparr>"
  let ?w2 = "snd (mark_spent inputs ?w1)"
  from ReplaceWebcash_commit [OF call posted answer]
  have i: "inputs' = fst (mark_spent inputs ?w1)"
    and w': "w' = snd (create_outputs H timestamp outputs ?w2)" by simp_all
  have l2: "live (m_db ?w2) = (live (m_db w))\<lparr>output_tab :=
        map (spend_if (set (marked_ids inputs (faults (m_db w))))) (output_tab (live (m_db w)))\<rparr>"
    using mark_spent_snd [of inputs ?w1] by simp
  obtain new where "output_tab (live (m_db w')) = output_tab (live (m_db ?w2)) @ new"
    unfolding w' using create_outputs_frame by blast
  then have "take (length (output_tab (live (m_db w)))) (output_tab (live (m_db w'))) =
           map (spend_if (set (marked_ids inputs (faults (m_db w))))) (output_tab (live (m_db w)))"
    by (simp add: l2)
  then show ?thesis by (simp add: i mark_spent_fst)
qed

section \<open>The secret table and the transactions that write it\<close>

lemma merge_flags_keys [simp]:
  "s_secret (merge_flags secret mine sweep s) = s_secret s"
  "s_id (merge_flags secret mine sweep s) = s_id s"
  by (simp_all add: merge_flags_def)

lemma merge_as_updates:
  "(\<lambda>s. if s_secret s = secret then s\<lparr>s_sweep := s_sweep s \<or> sweep\<rparr> else s) \<circ>
   (\<lambda>s. if s_secret s = secret then s\<lparr>s_mine := s_mine s \<and> mine\<rparr> else s) =
   merge_flags secret mine sweep"
  by (rule ext) (simp add: merge_flags_def)

lemma merge_flags_new:
  "merge_flags secret mine sweep
     \<lparr>s_id = n, s_timestamp = timestamp, s_secret = secret, s_mine = mine, s_sweep = sweep\<rparr> =
   \<lparr>s_id = n, s_timestamp = timestamp, s_secret = secret, s_mine = mine, s_sweep = sweep\<rparr>"
  by (simp add: merge_flags_def)

lemma add_stmts_fold:
  "fold apply_stmt (add_stmts timestamp secret mine sweep) (t, rowid) =
     (t\<lparr>secret_tab := secrets_after timestamp secret mine sweep t\<rparr>,
      if secret_present t secret then rowid else next_rowid (map s_id (secret_tab t)))"
  by (simp add: add_stmts_def secrets_after_def secret_present_def Let_def merge_as_updates
        merge_flags_new)

lemma find_append_list:
  "find P (xs @ ys) = (case find P xs of None \<Rightarrow> find P ys | Some x \<Rightarrow> Some x)"
  by (induction xs) simp_all

lemma find_map_keys:
  "(\<And>x. P (f x) = P x) \<Longrightarrow> find P (map f xs) = map_option f (find P xs)"
  by (induction xs) simp_all

lemma select_secret_id_after:
  "select_secret_id (t\<lparr>secret_tab := secrets_after timestamp secret mine sweep t\<rparr>) secret =
     Some (secret_id_for t secret)"
proof (cases "secret_present t secret")
  case True
  then obtain s where "find (\<lambda>s. s_secret s = secret) (secret_tab t) = Some s"
    by (cases "find (\<lambda>s. s_secret s = secret) (secret_tab t)")
       (auto simp add: secret_present_def list_ex_iff find_None_iff)
  with True show ?thesis
    by (simp add: select_secret_id_def secrets_after_def secret_id_for_def find_map_keys
          option.map_comp comp_def)
next
  case False
  then have "find (\<lambda>s. s_secret s = secret) (secret_tab t) = None"
    by (simp add: secret_present_def list_ex_iff find_None_iff)
  with False show ?thesis
    by (simp add: select_secret_id_def secrets_after_def secret_id_for_def find_map_keys
          find_append_list merge_flags_def)
qed

lemma reserve_stmts_fold:
  "fold apply_stmt (reserve_stmts timestamp secret mine sweep hdchain_id depth) (t, rowid) =
     (t\<lparr>secret_tab := secrets_after timestamp secret mine sweep t,
        hdkey_tab := hdkeys_after secret hdchain_id depth t,
        hdchain_tab := map (bump_maxdepth hdchain_id) (hdchain_tab t)\<rparr>,
      if \<not> hdkey_conflict t (secret_id_for t secret) hdchain_id depth
      then next_rowid (map k_id (hdkey_tab t))
      else if secret_present t secret then rowid else next_rowid (map s_id (secret_tab t)))"
proof -
  have r: "reserve_stmts timestamp secret mine sweep hdchain_id depth =
      add_stmts timestamp secret mine sweep @
      [INSERT_hdkey hdchain_id depth secret, UPDATE_hdchain_maxdepth hdchain_id]"
    by (simp add: reserve_stmts_def add_stmts_def)
  show ?thesis
    unfolding r fold_append comp_def add_stmts_fold
    by (simp add: select_secret_id_after hdkeys_after_def hdkey_conflict_def Let_def
          bump_maxdepth_def [abs_def])
qed

lemma db_reach_trans: "db_reach db1 db2 \<Longrightarrow> db_reach db0 db1 \<Longrightarrow> db_reach db0 db2"
  by (induction rule: db_reach.induct) (auto intro: db_reach.intros)

lemma db_reach_stmt1: "db_reach db (snd (run_stmt s db))"
  by (rule reach_stmt [OF reach_refl])

lemma db_reach_query1: "db_reach db (snd (sqlite3_query db))"
  by (rule reach_query [OF reach_refl])

lemma ExecuteSql_reach: "db_reach (m_db w) (m_db (snd (ExecuteSql ss w)))"
proof (induction ss arbitrary: w)
  case Nil
  show ?case by (simp add: reach_refl)
next
  case (Cons s ss)
  obtain ok db where r: "run_stmt s (m_db w) = (ok, db)" by (cases "run_stmt s (m_db w)")
  have s1: "db_reach (m_db w) db" using db_reach_stmt1 [of "m_db w" s] r by simp
  show ?case
  proof (cases ok)
    case True
    from Cons.IH [of "w\<lparr>m_db := db\<rparr>"] have "db_reach db (m_db (snd (ExecuteSql ss (w\<lparr>m_db := db\<rparr>))))"
      by simp
    from db_reach_trans [OF this s1] r True show ?thesis by simp
  next
    case False
    with r s1 show ?thesis by simp
  qed
qed

lemma ExecuteSql_reach_from:
  "m_db w1 = db1 \<Longrightarrow> db_reach db0 db1 \<Longrightarrow> db_reach db0 (m_db (snd (ExecuteSql ss w1)))"
  using db_reach_trans [OF ExecuteSql_reach [of w1 ss], of db0] by simp

lemma ReserveSecret_reach: "db_reach (m_db w) (m_db (snd (ReserveSecret H timestamp mine sweep w)))"
proof -
  let ?d = "(m_db w)\<lparr>faults := drop 1 (faults (m_db w))\<rparr>"
  have q: "db_reach (m_db w) ?d" using db_reach_query1 [of "m_db w"] by (simp add: sqlite3_query_eq)
  have e: "\<And>ss. db_reach (m_db w) (m_db (snd (ExecuteSql ss (w\<lparr>m_db := ?d\<rparr>))))"
    by (rule ExecuteSql_reach_from [OF _ q]) simp
  show ?thesis
    unfolding ReserveSecret_def sqlite3_query_eq Let_def
    using q e
    by (auto simp add: case_prod_beta split: option.splits bool.splits simp del: ExecuteSql.simps)
qed

lemma AddSecretToWallet_reach:
  "db_reach (m_db w) (m_db (snd (AddSecretToWallet bak_ok timestamp esk mine sweep w)))"
  unfolding AddSecretToWallet_def Let_def
  by (auto simp add: case_prod_beta reach_refl simp del: ExecuteSql.simps
        intro!: ExecuteSql_reach_from)

lemma AddOutputToWallet_reach:
  "db_reach (m_db w) (m_db (snd (AddOutputToWallet timestamp epk secret_id spent w)))"
  unfolding AddOutputToWallet_def
  by (auto simp add: case_prod_beta reach_refl simp del: ExecuteSql.simps
        split: bool.splits intro!: ExecuteSql_reach_from)

lemma mark_spent_reach: "db_reach (m_db w) (m_db (snd (mark_spent inputs w)))"
proof (induction inputs arbitrary: w)
  case Nil
  show ?case by (simp add: reach_refl)
next
  case (Cons webcash rest)
  let ?w1 = "if fault_free 1 (faults (m_db w))
                then w\<lparr>m_db := stmt_effect (UPDATE_output_spent (wo_id webcash)) (m_db w)\<rparr>
                else w\<lparr>m_db := (m_db w)\<lparr>faults := drop 1 (faults (m_db w))\<rparr>,
                       cerr := cerr w @ [sql_msg,
                         ''Unable to mark output as spent.  See error log for details.'']\<rparr>"
  have "m_db ?w1 = m_db (snd (ExecuteSql [UPDATE_output_spent (wo_id webcash)] w))"
    by (simp add: ExecuteSql_single del: ExecuteSql.simps)
  then have "db_reach (m_db w) (m_db ?w1)" using ExecuteSql_reach [of w] by (simp del: ExecuteSql.simps)
  from db_reach_trans [OF Cons.IH [of ?w1] this] show ?case
    by (simp add: mark_spent_Cons Let_def del: mark_spent.simps)
qed

lemma create_outputs_reach: "db_reach (m_db w) (m_db (snd (create_outputs H timestamp outputs w)))"
proof (induction outputs arbitrary: w)
  case Nil
  show ?case by (simp add: reach_refl)
next
  case (Cons webcash rest)
  let ?a = "AddOutputToWallet timestamp
              (PublicWebcash_of H \<lparr>sk = ws_secret (fst webcash), sk_amount = snd webcash\<rparr>)
              (ws_id (fst webcash)) False w"
  have a: "db_reach (m_db w) (m_db (snd ?a))" by (rule AddOutputToWallet_reach)
  show ?case
  proof (cases "fst ?a = 0")
    case True
    let ?w1 = "(snd ?a)\<lparr>cerr := cerr (snd ?a) @ [''Error creating database record for replacement output: '']\<rparr>"
    have c: "create_outputs H timestamp (webcash # rest) w = create_outputs H timestamp rest ?w1"
      using True by (auto simp add: Let_def split: prod.splits)
    from db_reach_trans [OF Cons.IH [of ?w1]] a show ?thesis unfolding c by simp
  next
    case False
    have c: "snd (create_outputs H timestamp (webcash # rest) w) =
        snd (create_outputs H timestamp rest (snd ?a))"
      using False by (auto simp add: Let_def split: prod.splits)
    from db_reach_trans [OF Cons.IH [of "snd ?a"] a] show ?thesis unfolding c .
  qed
qed

lemma ReplaceWebcash_reach:
  "db_reach (m_db w) (m_db (snd (snd (ReplaceWebcash H server timestamp inputs outputs w))))"
proof (cases "replace_accepts inputs outputs")
  case False
  from ReplaceWebcash_rejected [OF this, of H server timestamp w] show ?thesis
    by (auto simp add: reach_refl)
next
  case True
  let ?w1 = "w\<lparr>cerr := cerr w @ amount_warnings inputs,
                 posted := posted w @ [replace_request_of inputs outputs]\<rparr>"
  have "db_reach (m_db ?w1) (m_db (snd (mark_spent inputs ?w1)))" by (rule mark_spent_reach)
  from db_reach_trans [OF create_outputs_reach this]
  have "db_reach (m_db w) (m_db (snd (create_outputs H timestamp outputs (snd (mark_spent inputs ?w1)))))"
    by simp
  then show ?thesis
    unfolding ReplaceWebcash_accepted [OF True] Let_def
    by (auto simp add: reach_refl split: http_result.splits)
qed

lemma create_hdroot_reach: "db_reach (m_db w) (m_db (snd (create_hdroot rnd now bak_ok w)))"
  unfolding create_hdroot_def Let_def
  by (auto simp add: case_prod_beta reach_refl simp del: ExecuteSql.simps
        split: bool.splits intro!: ExecuteSql_reach_from)

lemma load_hdroot_reach: "db_reach (m_db w) (m_db (snd (load_hdroot w)))"
proof -
  have q: "db_reach (m_db w) ((m_db w)\<lparr>faults := drop 1 (faults (m_db w))\<rparr>)"
    using db_reach_query1 [of "m_db w"] by (simp add: sqlite3_query_eq)
  show ?thesis
    unfolding load_hdroot_def sqlite3_query_eq Let_def
    using q by (auto split: list.splits bool.splits)
qed

lemma GetOrCreateHDRoot_reach:
  "db_reach (m_db w) (m_db (snd (GetOrCreateHDRoot rnd now bak_ok w)))"
proof -
  let ?w0 = "w\<lparr>m_db := (m_db w)\<lparr>faults := drop 1 (faults (m_db w))\<rparr>\<rparr>"
  have q: "db_reach (m_db w) (m_db ?w0)"
    using db_reach_query1 [of "m_db w"] by (simp add: sqlite3_query_eq)
  have c: "db_reach (m_db w) (m_db (snd (create_hdroot rnd now bak_ok ?w0)))"
    by (rule db_reach_trans [OF create_hdroot_reach q])
  have l0: "db_reach (m_db w) (m_db (snd (load_hdroot ?w0)))"
    by (rule db_reach_trans [OF load_hdroot_reach q])
  have l1: "db_reach (m_db w) (m_db (snd (load_hdroot (snd (create_hdroot rnd now bak_ok ?w0)))))"
    by (rule db_reach_trans [OF load_hdroot_reach c])
  show ?thesis
    unfolding GetOrCreateHDRoot_def sqlite3_query_eq Let_def
    using q c l0 l1
    by (cases "create_hdroot rnd now bak_ok ?w0"; cases "fst (create_hdroot rnd now bak_ok ?w0)")
       (auto split: sum.splits bool.splits)
qed

lemma run_call_reach: "db_reach (m_db w) (m_db (run_call H c w))"
  by (cases c)
     (simp_all add: GetOrCreateHDRoot_reach ReserveSecret_reach AddSecretToWallet_reach
        AddOutputToWallet_reach ReplaceWebcash_reach)

lemma run_calls_reach: "db_reach (m_db w) (m_db (run_calls H calls w))"
proof (induction calls arbitrary: w)
  case Nil
  show ?case by (simp add: run_calls_def reach_refl)
next
  case (Cons c calls)
  from db_reach_trans [OF Cons.IH [of "run_call H c w"] run_call_reach [of w H c]]
  show ?case by (simp add: run_calls_def)
qed

lemma grows_refl: "(\<And>x. R x x) \<Longrightarrow> grows R xs xs"
  by (simp add: grows_def list_all2_same)

lemma grows_append: "(\<And>x. R x x) \<Longrightarrow> grows R xs (xs @ ys)"
  by (simp add: grows_def list_all2_same)

lemma grows_map: "(\<And>x. R x (f x)) \<Longrightarrow> grows R xs (map f xs)"
  by (simp add: grows_def list_all2_conv_all_nth)

lemma grows_trans:
  assumes tr: "\<And>x y z. R x y \<Longrightarrow> R y z \<Longrightarrow> R x z"
    and xy: "grows R xs ys" and yz: "grows R ys zs"
  shows "grows R xs zs"
proof -
  from xy yz have l: "length xs \<le> length ys" "length ys \<le> length zs"
    by (simp_all add: grows_def)
  have "\<And>i. i < length xs \<Longrightarrow> R (xs ! i) (zs ! i)"
  proof -
    fix i assume i: "i < length xs"
    with xy l have "R (xs ! i) (ys ! i)" by (simp add: grows_def list_all2_conv_all_nth)
    moreover from yz i l have "R (ys ! i) (zs ! i)"
      by (simp add: grows_def list_all2_conv_all_nth)
    ultimately show "R (xs ! i) (zs ! i)" by (rule tr)
  qed
  with l show ?thesis by (simp add: grows_def list_all2_conv_all_nth)
qed

lemma secret_flags_le_refl: "secret_flags_le s s"
  by (simp add: secret_flags_le_def)

lemma secret_flags_le_trans: "secret_flags_le a b \<Longrightarrow> secret_flags_le b c \<Longrightarrow> secret_flags_le a c"
  by (auto simp add: secret_flags_le_def)

lemma chain_le_refl: "chain_le c c"
  by (simp add: chain_le_def)

lemma chain_le_trans: "chain_le a b \<Longrightarrow> chain_le b c \<Longrightarrow> chain_le a c"
  by (auto simp add: chain_le_def)

lemma chain_grows_trans:
  assumes "grows chain_le xs ys" "grows chain_le ys zs"
  shows "grows chain_le xs zs"
proof (rule grows_trans [of chain_le])
  show "\<And>x y z. chain_le x y \<Longrightarrow> chain_le y z \<Longrightarrow> chain_le x z" by (rule chain_le_trans)
qed fact+

lemma secret_grows_trans:
  assumes "grows secret_flags_le xs ys" "grows secret_flags_le ys zs"
  shows "grows secret_flags_le xs zs"
proof (rule grows_trans [of secret_flags_le])
  show "\<And>x y z. secret_flags_le x y \<Longrightarrow> secret_flags_le y z \<Longrightarrow> secret_flags_le x z"
    by (rule secret_flags_le_trans)
qed fact+

lemma insert_hdchain_row_tabs:
  "secret_tab (fst (insert_hdchain_row rid chaincode mine sweep lo hi tr)) = secret_tab (fst tr) \<and>
   grows chain_le (hdchain_tab (fst tr))
     (hdchain_tab (fst (insert_hdchain_row rid chaincode mine sweep lo hi tr)))"
  by (auto simp add: insert_hdchain_row_def Let_def grows_refl grows_append chain_le_refl
        split: option.splits)

lemma apply_stmt_secret_grows:
  "grows secret_flags_le (secret_tab t) (secret_tab (fst (apply_stmt s (t, rowid))))"
proof (cases s)
  case (INSERT_hdchain secret)
  then show ?thesis
    by (simp add: insert_hdchain_row_tabs Let_def grows_refl secret_flags_le_refl)
next
  case (UPDATE_secret_mine mine secret)
  then show ?thesis
    by (auto intro!: grows_map simp add: secret_flags_le_def)
next
  case (UPDATE_secret_sweep sweep secret)
  then show ?thesis
    by (auto intro!: grows_map simp add: secret_flags_le_def)
qed (auto simp add: Let_def grows_refl grows_append secret_flags_le_refl split: option.splits)

lemma apply_stmt_chain_grows:
  "grows chain_le (hdchain_tab t) (hdchain_tab (fst (apply_stmt s (t, rowid))))"
proof (cases s)
  case (INSERT_hdchain secret)
  let ?rid = "select_hdroot_id t secret"
  let ?a = "insert_hdchain_row ?rid 0 False False 0 0 (t, rowid)"
  let ?b = "insert_hdchain_row ?rid 0 False True 0 0 ?a"
  let ?c = "insert_hdchain_row ?rid 0 True False 0 0 ?b"
  let ?d = "insert_hdchain_row ?rid 0 True True 0 0 ?c"
  have "grows chain_le (hdchain_tab t) (hdchain_tab (fst ?a))"
    using insert_hdchain_row_tabs [of ?rid 0 False False 0 0 "(t, rowid)"] by simp
  moreover have "grows chain_le (hdchain_tab (fst ?a)) (hdchain_tab (fst ?b))"
    using insert_hdchain_row_tabs by blast
  moreover have "grows chain_le (hdchain_tab (fst ?b)) (hdchain_tab (fst ?c))"
    using insert_hdchain_row_tabs by blast
  moreover have "grows chain_le (hdchain_tab (fst ?c)) (hdchain_tab (fst ?d))"
    using insert_hdchain_row_tabs by blast
  ultimately have "grows chain_le (hdchain_tab t) (hdchain_tab (fst ?d))"
    using chain_grows_trans by blast
  with INSERT_hdchain show ?thesis by (simp add: Let_def)
next
  case (UPDATE_hdchain_maxdepth hdchain_id)
  then show ?thesis
    by (auto intro!: grows_map simp add: chain_le_def)
qed (auto simp add: Let_def grows_refl chain_le_refl split: option.splits)

lemma run_stmt_live:
  "live (snd (run_stmt s db)) = live db \<or>
   live (snd (run_stmt s db)) = fst (apply_stmt s (live db, last_insert_rowid db))"
  by (simp add: run_stmt_def sqlite3_query_eq case_prod_beta Let_def split: bool.splits)

lemma run_stmt_mono:
  "flags_mono (live db) (live (snd (run_stmt s db))) \<and>
   maxdepth_mono (live db) (live (snd (run_stmt s db)))"
  using run_stmt_live [of s db] apply_stmt_secret_grows [of "live db" s "last_insert_rowid db"]
    apply_stmt_chain_grows [of "live db" s "last_insert_rowid db"]
  by (auto simp add: flags_mono_def maxdepth_mono_def grows_refl secret_flags_le_refl chain_le_refl)

lemma db_reach_mono:
  "db_reach db db' \<Longrightarrow> flags_mono (live db) (live db') \<and> maxdepth_mono (live db) (live db')"
proof (induction rule: db_reach.induct)
  case (reach_refl db)
  show ?case
    by (simp add: flags_mono_def maxdepth_mono_def grows_refl secret_flags_le_refl chain_le_refl)
next
  case (reach_stmt db db1 s)
  with run_stmt_mono [of db1 s] show ?case
    unfolding flags_mono_def maxdepth_mono_def
    using secret_grows_trans chain_grows_trans by blast
next
  case (reach_query db db1)
  then show ?case by (simp add: sqlite3_query_eq)
qed

lemma m_db_after_log [simp]: "m_db (after_log bak_ok timestamp esk mine sweep w) = m_db w"
  by (simp add: after_log_def)

lemma data_add_stmts: "data_stmts (add_stmts timestamp secret mine sweep)"
  by (simp add: data_stmts_def add_stmts_def)

lemma AddSecretToWallet_unfold:
  "AddSecretToWallet bak_ok timestamp esk mine sweep w =
     (let r = ExecuteSql (BEGIN_TRANSACTION # add_stmts timestamp (sk esk) mine sweep @ [COMMIT])
                (after_log bak_ok timestamp esk mine sweep w)
      in (if fst r \<and> bak_ok then to_int32 (last_insert_rowid (m_db (snd r))) else 0, snd r))"
  by (simp add: AddSecretToWallet_def after_log_def log_line_def add_stmts_def Let_def
        case_prod_beta del: ExecuteSql.simps)

lemma AddSecretToWallet_ok:
  assumes "\<not> in_txn (m_db w)" "fault_free 5 (faults (m_db w))"
  shows "AddSecretToWallet bak_ok timestamp esk mine sweep w =
     (if bak_ok
      then to_int32 (last_insert_rowid (committed (add_stmts timestamp (sk esk) mine sweep) (m_db w)))
      else 0,
      (after_log bak_ok timestamp esk mine sweep w)
        \<lparr>m_db := committed (add_stmts timestamp (sk esk) mine sweep) (m_db w)\<rparr>)"
proof -
  let ?w1 = "after_log bak_ok timestamp esk mine sweep w"
  let ?ss = "add_stmts timestamp (sk esk) mine sweep"
  have m: "m_db ?w1 = m_db w" by (simp add: after_log_def)
  have l: "length ?ss = 3" by (simp add: add_stmts_def)
  have e: "ExecuteSql (BEGIN_TRANSACTION # ?ss @ [COMMIT]) ?w1 = (True, ?w1\<lparr>m_db := committed ?ss (m_db ?w1)\<rparr>)"
    by (rule ExecuteSql_txn_ok [OF data_add_stmts]) (use assms in \<open>simp_all add: m l\<close>)
  show ?thesis
    unfolding AddSecretToWallet_unfold Let_def e by (simp add: m)
qed

lemma AddSecretToWallet_fails:
  assumes "in_txn (m_db w) \<or> \<not> fault_free 5 (faults (m_db w))"
  shows "fst (AddSecretToWallet bak_ok timestamp esk mine sweep w) = 0"
proof -
  let ?w1 = "after_log bak_ok timestamp esk mine sweep w"
  let ?ss = "add_stmts timestamp (sk esk) mine sweep"
  have m: "m_db ?w1 = m_db w" by (simp add: after_log_def)
  have l: "length ?ss = 3" by (simp add: add_stmts_def)
  have "\<not> fst (ExecuteSql (BEGIN_TRANSACTION # ?ss @ [COMMIT]) ?w1)"
    by (rule ExecuteSql_txn_fails) (use assms in \<open>simp add: m l\<close>)
  then show ?thesis
    unfolding AddSecretToWallet_unfold Let_def by (simp del: ExecuteSql.simps)
qed

lemma AddSecretToWallet_db_independent_of_log:
  "m_db (snd (AddSecretToWallet False timestamp esk mine sweep w)) =
   m_db (snd (AddSecretToWallet True timestamp esk mine sweep w))"
proof -
  have "\<And>ss w1 w2. m_db w1 = m_db w2 \<Longrightarrow>
      m_db (snd (ExecuteSql ss w1)) = m_db (snd (ExecuteSql ss w2)) \<and>
      fst (ExecuteSql ss w1) = fst (ExecuteSql ss w2)"
  proof -
    fix ss w1 w2
    show "m_db w1 = m_db w2 \<Longrightarrow>
      m_db (snd (ExecuteSql ss w1)) = m_db (snd (ExecuteSql ss w2)) \<and>
      fst (ExecuteSql ss w1) = fst (ExecuteSql ss w2)"
    proof (induction ss arbitrary: w1 w2)
      case Nil
      then show ?case by simp
    next
      case (Cons s ss)
      obtain ok db where r: "run_stmt s (m_db w2) = (ok, db)" by (cases "run_stmt s (m_db w2)")
      show ?case
      proof (cases ok)
        case True
        with r Cons.prems Cons.IH [of "w1\<lparr>m_db := db\<rparr>" "w2\<lparr>m_db := db\<rparr>"] show ?thesis by simp
      next
        case False
        with r Cons.prems show ?thesis by simp
      qed
    qed
  qed
  from this [of "after_log False timestamp esk mine sweep w" "after_log True timestamp esk mine sweep w"
      "BEGIN_TRANSACTION # add_stmts timestamp (sk esk) mine sweep @ [COMMIT]"]
  have "m_db (snd (ExecuteSql (BEGIN_TRANSACTION # add_stmts timestamp (sk esk) mine sweep @ [COMMIT])
          (after_log False timestamp esk mine sweep w))) =
        m_db (snd (ExecuteSql (BEGIN_TRANSACTION # add_stmts timestamp (sk esk) mine sweep @ [COMMIT])
          (after_log True timestamp esk mine sweep w)))"
    by simp
  then show ?thesis
    unfolding AddSecretToWallet_unfold Let_def snd_conv .
qed

lemma committed_add:
  "live (committed (add_stmts timestamp secret mine sweep) db) =
     (live db)\<lparr>secret_tab := secrets_after timestamp secret mine sweep (live db)\<rparr> \<and>
   disk (committed (add_stmts timestamp secret mine sweep) db) =
     (live db)\<lparr>secret_tab := secrets_after timestamp secret mine sweep (live db)\<rparr> \<and>
   last_insert_rowid (committed (add_stmts timestamp secret mine sweep) db) =
     (if secret_present (live db) secret then last_insert_rowid db
      else next_rowid (map s_id (secret_tab (live db))))"
  by (simp add: committed_def add_stmts_fold Let_def)

lemma committed_reserve:
  "live (committed (reserve_stmts timestamp secret mine sweep hdchain_id depth) db) =
     (live db)\<lparr>secret_tab := secrets_after timestamp secret mine sweep (live db),
        hdkey_tab := hdkeys_after secret hdchain_id depth (live db),
        hdchain_tab := map (bump_maxdepth hdchain_id) (hdchain_tab (live db))\<rparr> \<and>
   disk (committed (reserve_stmts timestamp secret mine sweep hdchain_id depth) db) =
     live (committed (reserve_stmts timestamp secret mine sweep hdchain_id depth) db) \<and>
   \<not> in_txn (committed (reserve_stmts timestamp secret mine sweep hdchain_id depth) db)"
  by (simp add: committed_def reserve_stmts_fold Let_def)

lemma ReserveSecret_Inr_committed:
  assumes "ReserveSecret H timestamp mine sweep w = (Inr ws, w')"
  shows "\<exists>row. select_hdchain (live (m_db w)) (m_hdroot_id w) 0 mine sweep = Some row \<and>
           0 \<le> to_int32 (c_id row) \<and>
           0 \<le> sint (word_of_int (c_maxdepth row) :: i64) \<and>
           \<not> in_txn (m_db w) \<and> fault_free 8 (faults (m_db w)) \<and>
           ws_secret ws = derive_secret H (m_hdroot w) 0 mine sweep (word_of_int (c_maxdepth row)) \<and>
           w' = w\<lparr>m_db := committed
                  (reserve_stmts timestamp (ws_secret ws) mine sweep (to_int32 (c_id row))
                     (sint (word_of_int (c_maxdepth row) :: i64)))
                  ((m_db w)\<lparr>faults := drop 1 (faults (m_db w))\<rparr>)\<rparr>"
proof -
  from ReserveSecret_Inr [OF assms] obtain row where
    row: "select_hdchain (live (m_db w)) (m_hdroot_id w) 0 mine sweep = Some row"
    and f1: "fault_free 1 (faults (m_db w))"
    and i: "0 \<le> to_int32 (c_id row)" and d: "0 \<le> sint (word_of_int (c_maxdepth row) :: i64)"
    and ws: "ws = \<lparr>ws_id = - 1, ws_timestamp = timestamp,
                 ws_secret = derive_secret H (m_hdroot w) 0 mine sweep (word_of_int (c_maxdepth row)),
                 ws_mine = mine, ws_sweep = sweep\<rparr>"
    and e: "ExecuteSql
             [BEGIN_TRANSACTION,
              INSERT_secret timestamp (derive_secret H (m_hdroot w) 0 mine sweep (word_of_int (c_maxdepth row))) mine sweep,
              UPDATE_secret_mine mine (derive_secret H (m_hdroot w) 0 mine sweep (word_of_int (c_maxdepth row))),
              UPDATE_secret_sweep sweep (derive_secret H (m_hdroot w) 0 mine sweep (word_of_int (c_maxdepth row))),
              INSERT_hdkey (to_int32 (c_id row)) (sint (word_of_int (c_maxdepth row) :: i64))
                (derive_secret H (m_hdroot w) 0 mine sweep (word_of_int (c_maxdepth row))),
              UPDATE_hdchain_maxdepth (to_int32 (c_id row)),
              COMMIT] (w\<lparr>m_db := (m_db w)\<lparr>faults := drop 1 (faults (m_db w))\<rparr>\<rparr>) = (True, w')"
    by blast
  let ?sk = "derive_secret H (m_hdroot w) 0 mine sweep (word_of_int (c_maxdepth row))"
  let ?ss = "reserve_stmts timestamp ?sk mine sweep (to_int32 (c_id row))
               (sint (word_of_int (c_maxdepth row) :: i64))"
  let ?w0 = "w\<lparr>m_db := (m_db w)\<lparr>faults := drop 1 (faults (m_db w))\<rparr>\<rparr>"
  have e': "ExecuteSql (BEGIN_TRANSACTION # ?ss @ [COMMIT]) ?w0 = (True, w')"
    using e by (simp add: reserve_stmts_def del: ExecuteSql.simps)
  have l: "length ?ss = 5" by (simp add: reserve_stmts_def)
  have ok: "\<not> in_txn (m_db ?w0) \<and> fault_free (length ?ss + 2) (faults (m_db ?w0))"
  proof (rule ccontr)
    assume "\<not> ?thesis"
    then have "in_txn (m_db ?w0) \<or> \<not> fault_free (length ?ss + 2) (faults (m_db ?w0))" by blast
    from ExecuteSql_txn_fails [OF this] have "\<not> fst (True, w')" unfolding e' .
    then show False by simp
  qed
  then have t: "\<not> in_txn (m_db w)" and f7: "fault_free 7 (drop 1 (faults (m_db w)))"
    by (simp_all add: l)
  have f8: "fault_free 8 (faults (m_db w))"
    using f1 f7 fault_free_add [of 1 7 "faults (m_db w)"] by simp
  have "ExecuteSql (BEGIN_TRANSACTION # ?ss @ [COMMIT]) ?w0 = (True, ?w0\<lparr>m_db := committed ?ss (m_db ?w0)\<rparr>)"
    by (rule ExecuteSql_txn_ok [OF data_reserve_stmts]) (use ok in simp_all)
  with e' have "w' = ?w0\<lparr>m_db := committed ?ss (m_db ?w0)\<rparr>" by (simp del: ExecuteSql.simps)
  then have weq: "w' = w\<lparr>m_db := committed ?ss ((m_db w)\<lparr>faults := drop 1 (faults (m_db w))\<rparr>)\<rparr>"
    by simp
  have s: "ws_secret ws = ?sk" by (simp add: ws)
  show ?thesis unfolding s
    by (rule exI [of _ row]) (intro conjI row i d t f8 weq refl)
qed

lemma secret_present_after:
  "secret_present (t\<lparr>secret_tab := secrets_after timestamp secret mine sweep t\<rparr>) secret"
  by (cases "secret_present t secret")
     (simp_all add: secret_present_def secrets_after_def list_ex_iff)

lemma secret_id_for_new:
  "\<not> secret_present t secret \<Longrightarrow> secret_id_for t secret = next_rowid (map s_id (secret_tab t))"
  by (simp add: secret_id_for_def select_secret_id_def secret_present_def list_ex_iff
        find_None_iff [THEN iffD2])

subsection \<open>The concrete wallet\<close>

lemma select_demo:
  "select_hdchain (live (m_db (demo_wallet fs))) (m_hdroot_id (demo_wallet fs)) 0 mine sweep =
     Some (demo_chain mine sweep)"
  by (cases mine; cases sweep)
     (simp_all add: demo_wallet_def demo_tables_def select_hdchain_def demo_chain_def)

lemma zeros64: "concat (replicate 31 ''00'') @ ''00'' = replicate 64 CHR ''0''"
  by (simp add: eval_nat_numeral)

lemma spec_derive_demo: "spec_derive toy_sha zero256 0 mine sweep 0 = replicate 64 CHR ''0''"
  by (simp add: spec_derive_def Rep_toy_sha Rep_zero256 be64_def upt8 BytesToHexString_def
        hex_digit_def zeros64)

lemma ReserveSecret_demo:
  "fst (ReserveSecret toy_sha 100 mine sweep (demo_wallet [])) = Inr (demo_secret mine sweep)"
proof -
  have "ReserveSecret toy_sha 100 mine sweep (demo_wallet []) =
     (Inr \<lparr>ws_id = - 1, ws_timestamp = 100,
           ws_secret = derive_secret toy_sha (m_hdroot (demo_wallet [])) 0 mine sweep
             (word_of_int (c_maxdepth (demo_chain mine sweep))),
           ws_mine = mine, ws_sweep = sweep\<rparr>,
      (demo_wallet [])\<lparr>m_db := committed
          (reserve_stmts 100
             (derive_secret toy_sha (m_hdroot (demo_wallet [])) 0 mine sweep
                (word_of_int (c_maxdepth (demo_chain mine sweep))))
             mine sweep (c_id (demo_chain mine sweep)) (c_maxdepth (demo_chain mine sweep)))
          ((m_db (demo_wallet []))\<lparr>faults := drop 1 (faults (m_db (demo_wallet [])))\<rparr>)\<rparr>)"
    by (rule ReserveSecret_ok [OF select_demo]) (simp_all add: demo_chain_def demo_wallet_def)
  then show ?thesis
    by (simp add: derive_secret_spec demo_chain_def demo_wallet_def spec_derive_demo
          demo_secret_def)
qed

subsection \<open>The concrete replacement\<close>

lemma accepts_demo: "replace_accepts [demo_spendable 2 ''bb'' 5] [(demo_secret True True, 5)]"
  by (simp add: replace_accepts_def inputs_pass_def outputs_pass_def demo_spendable_def)

lemma accepts_zero: "replace_accepts [demo_spendable 1 ''aa'' 0, demo_spendable 2 ''bb'' 5] [(demo_secret True True, 5)]"
  by (simp add: replace_accepts_def inputs_pass_def outputs_pass_def demo_spendable_def)

lemma next_rowid_pay: "next_rowid (map o_id (output_tab (live (m_db (pay_wallet fs))))) = 3"
  by (simp add: pay_wallet_def pay_tables_def next_rowid_def)

lemma posted_demo:
  "posted (snd (snd (ReplaceWebcash toy_sha server_ok 200 [demo_spendable 2 ''bb'' 5]
       [(demo_secret True True, 5)] (pay_wallet fs)))) =
   posted (pay_wallet fs) @ [replace_request_of [demo_spendable 2 ''bb'' 5] [(demo_secret True True, 5)]]"
  by (simp add: ReplaceWebcash_posted accepts_demo)

lemma map_spend_pay:
  "map (spend_if A) (output_tab (live (m_db (pay_wallet fs)))) =
     [\<lparr>o_id = 1, o_timestamp = 50, o_hash = replicate 32 0, o_secret_id = Some 1,
       o_amount = 0, o_spent = 1 \<in> A\<rparr>,
      \<lparr>o_id = 2, o_timestamp = 50, o_hash = replicate 32 0, o_secret_id = Some 2,
       o_amount = 5, o_spent = 2 \<in> A\<rparr>]"
  by (simp add: pay_wallet_def pay_tables_def demo_tables_def spend_if_def)

lemma new_row_demo:
  "new_output_row toy_sha 200 (demo_secret True True, 5) 3 =
     \<lparr>o_id = 3, o_timestamp = 200, o_hash = replicate 31 0 @ [48], o_secret_id = Some (- 1),
      o_amount = 5, o_spent = False\<rparr>"
  by (simp add: new_output_row_def demo_secret_def Rep_toy_sha bytes_of_string_def)

lemma secret_tab_pay:
  "secret_tab (live (m_db (pay_wallet fs))) =
     [\<lparr>s_id = 1, s_timestamp = 50, s_secret = ''aa'', s_mine = True, s_sweep = False\<rparr>,
      \<lparr>s_id = 2, s_timestamp = 50, s_secret = ''bb'', s_mine = False, s_sweep = True\<rparr>]"
  by (simp add: pay_wallet_def pay_tables_def)

lemma pay_wallet_db [simp]:
  "in_txn (m_db (pay_wallet fs)) = False" "faults (m_db (pay_wallet fs)) = fs"
  "last_insert_rowid (m_db (pay_wallet fs)) = 2"
  by (simp_all add: pay_wallet_def)

lemma demo_wallet_db [simp]:
  "in_txn (m_db (demo_wallet fs)) = False" "faults (m_db (demo_wallet fs)) = fs"
  "last_insert_rowid (m_db (demo_wallet fs)) = 4" "secret_tab (live (m_db (demo_wallet fs))) = []"
  "m_hdroot (demo_wallet fs) = zero256" "m_hdroot_id (demo_wallet fs) = 1"
  by (simp_all add: demo_wallet_def demo_tables_def)

section \<open>The root, its chains and the reservations on them\<close>

lemma next_rowid_above: "next_rowid ids \<le> n \<Longrightarrow> next_rowid (ids @ [n]) = n + 1"
proof (cases "ids = []")
  case True
  then show ?thesis by (simp add: next_rowid_def)
next
  case False
  assume "next_rowid ids \<le> n"
  with False have m: "Max (set ids) + 1 \<le> n" by (simp add: next_rowid_def)
  from False have "Max (insert n (set ids)) = max n (Max (set ids))" by simp
  with m have "Max (insert n (set ids)) = n" by (simp only: max_def) arith
  then show ?thesis by (simp add: next_rowid_def)
qed

lemma insert_hdchain_row_new:
  assumes "\<not> list_ex (\<lambda>c. c_hdroot_id c = rid \<and> c_chaincode c = cc \<and> c_mine c = mine \<and>
                         c_sweep c = sweep) (hdchain_tab t)"
  shows "insert_hdchain_row (Some rid) cc mine sweep mn mx (t, rowid) =
     (t\<lparr>hdchain_tab := hdchain_tab t @
          [\<lparr>c_id = next_rowid (map c_id (hdchain_tab t)), c_hdroot_id = rid, c_chaincode = cc,
            c_mine = mine, c_sweep = sweep, c_mindepth = mn, c_maxdepth = mx\<rparr>]\<rparr>,
      next_rowid (map c_id (hdchain_tab t)))"
  using assms by (simp add: insert_hdchain_row_def Let_def)

lemma hdroot_stmts_fold:
  assumes "hdroot_tab t = []" "\<forall>c\<in>set (hdchain_tab t). c_hdroot_id c \<noteq> 1"
  shows "fold apply_stmt (hdroot_stmts now (Rep_uint256 rnd)) (t, rowid) =
     (new_root_tables now rnd t, next_rowid (map c_id (hdchain_tab t)) + 3)"
proof -
  let ?n = "next_rowid (map c_id (hdchain_tab t))"
  let ?t1 = "t\<lparr>hdroot_tab := [\<lparr>r_id = 1, r_timestamp = now, r_version = 1,
                                 r_secret = Rep_uint256 rnd\<rparr>]\<rparr>"
  have a: "apply_stmt (INSERT_hdroot now (Rep_uint256 rnd)) (t, rowid) = (?t1, 1)"
    using assms(1) by (simp add: next_rowid_def)
  have s: "select_hdroot_id ?t1 (Rep_uint256 rnd) = Some 1"
    by (simp add: select_hdroot_id_def)
  have n1: "next_rowid (map c_id (hdchain_tab t) @ [?n]) = ?n + 1"
    by (rule next_rowid_above) simp
  have n2: "next_rowid (map c_id (hdchain_tab t) @ [?n, ?n + 1]) = ?n + 2"
    using next_rowid_above [of "map c_id (hdchain_tab t) @ [?n]" "?n + 1"] n1 by simp
  have n3: "next_rowid (map c_id (hdchain_tab t) @ [?n, ?n + 1, ?n + 2]) = ?n + 3"
    using next_rowid_above [of "map c_id (hdchain_tab t) @ [?n, ?n + 1]" "?n + 2"] n2 by simp
  have b: "apply_stmt (INSERT_hdchain (Rep_uint256 rnd)) (?t1, 1) =
     (new_root_tables now rnd t, ?n + 3)"
    using assms(2)
    by (simp add: s insert_hdchain_row_new list_ex_iff n1 n2 n3 new_root_tables_def
          initial_chains_def)
  show ?thesis by (simp add: hdroot_stmts_def a b del: apply_stmt.simps)
qed

lemma uint256_load_Rep: "uint256_load (Rep_uint256 x) = x"
  by (simp add: uint256_load_def Rep_uint256_inverse)

lemma data_hdroot_stmts: "data_stmts (hdroot_stmts now secret)"
  by (simp add: data_stmts_def hdroot_stmts_def)

lemma create_hdroot_unfold:
  "create_hdroot rnd now bak_ok w =
     (if \<not> bak_ok then
        (Inl ''Unable to open/create wallet recovery file to save wallet master key.'',
         w\<lparr>m_hdroot := rnd, cerr := cerr w @
            [''Unable to open/create wallet recovery file to save wallet master key.'']\<rparr>)
      else
        let r = ExecuteSql (BEGIN_TRANSACTION # hdroot_stmts now (Rep_uint256 rnd) @ [COMMIT])
                  (w\<lparr>m_hdroot := rnd, bak := bak w @ [hdroot_line now rnd]\<rparr>)
        in (if fst r then Inr ()
            else Inl ''Unable to insert master secret into database.  See error log for details.'',
            snd r))"
  by (simp add: create_hdroot_def hdroot_stmts_def hdroot_line_def Let_def case_prod_beta
        del: ExecuteSql.simps split: bool.splits)

lemma create_hdroot_ok:
  assumes "\<not> in_txn (m_db w)" "fault_free 4 (faults (m_db w))"
  shows "create_hdroot rnd now True w =
     (Inr (), w\<lparr>m_hdroot := rnd, bak := bak w @ [hdroot_line now rnd],
                m_db := committed (hdroot_stmts now (Rep_uint256 rnd)) (m_db w)\<rparr>)"
proof -
  let ?w1 = "w\<lparr>m_hdroot := rnd, bak := bak w @ [hdroot_line now rnd]\<rparr>"
  let ?ss = "hdroot_stmts now (Rep_uint256 rnd)"
  have l: "length ?ss = 2" by (simp add: hdroot_stmts_def)
  have e: "ExecuteSql (BEGIN_TRANSACTION # ?ss @ [COMMIT]) ?w1 =
      (True, ?w1\<lparr>m_db := committed ?ss (m_db ?w1)\<rparr>)"
    by (rule ExecuteSql_txn_ok [OF data_hdroot_stmts]) (use assms in \<open>simp_all add: l\<close>)
  show ?thesis
    unfolding create_hdroot_unfold Let_def e by simp
qed

lemma create_hdroot_bak:
  "bak (snd (create_hdroot rnd now True w)) = bak w @ [hdroot_line now rnd]"
  unfolding create_hdroot_unfold Let_def by (simp add: ExecuteSql_frame del: ExecuteSql.simps)

lemma create_hdroot_disk:
  "disk (m_db (snd (create_hdroot rnd now bak_ok w))) = disk (m_db w) \<or>
   create_hdroot rnd now bak_ok w =
     (Inr (), w\<lparr>m_hdroot := rnd, bak := bak w @ [hdroot_line now rnd],
                m_db := committed (hdroot_stmts now (Rep_uint256 rnd)) (m_db w)\<rparr>)"
proof (cases bak_ok)
  case False
  then show ?thesis by (simp add: create_hdroot_unfold)
next
  case True
  let ?w1 = "w\<lparr>m_hdroot := rnd, bak := bak w @ [hdroot_line now rnd]\<rparr>"
  let ?ss = "hdroot_stmts now (Rep_uint256 rnd)"
  have l: "length ?ss = 2" by (simp add: hdroot_stmts_def)
  show ?thesis
  proof (cases "fst (ExecuteSql (BEGIN_TRANSACTION # ?ss @ [COMMIT]) ?w1)")
    case False
    from ExecuteSql_txn_atomic [OF data_hdroot_stmts False]
    have "disk (m_db (snd (create_hdroot rnd now bak_ok w))) = disk (m_db w)"
      using True unfolding create_hdroot_unfold Let_def by (simp del: ExecuteSql.simps)
    then show ?thesis ..
  next
    case ok: True
    with ExecuteSql_txn_fails [of ?w1 ?ss]
    have "\<not> in_txn (m_db w)" "fault_free 4 (faults (m_db w))"
      by (auto simp add: l)
    from create_hdroot_ok [OF this] True show ?thesis by simp
  qed
qed

lemma load_hdroot_frame:
  "live (m_db (snd (load_hdroot w))) = live (m_db w) \<and>
   disk (m_db (snd (load_hdroot w))) = disk (m_db w) \<and>
   in_txn (m_db (snd (load_hdroot w))) = in_txn (m_db w) \<and>
   bak (snd (load_hdroot w)) = bak w"
  unfolding load_hdroot_def sqlite3_query_eq Let_def
  by (simp split: list.splits bool.splits)

lemma load_hdroot_ok:
  assumes "fault_free 1 (faults (m_db w))"
    and "hdroot_tab (live (m_db w)) = \<lparr>r_id = 1, r_timestamp = now, r_version = 1,
           r_secret = Rep_uint256 rnd\<rparr> # rows"
  shows "load_hdroot w =
     (Inr (), w\<lparr>m_db := (m_db w)\<lparr>faults := drop 1 (faults (m_db w))\<rparr>,
                m_hdroot_id := 1, m_hdroot := rnd\<rparr>)"
  using assms unfolding load_hdroot_def sqlite3_query_eq Let_def
  by (simp add: to_int32_id uint256_load_Rep)

lemma to_int32_0 [simp]: "to_int32 0 = 0"
  by (simp add: to_int32_def)

lemma GetOrCreateHDRoot_empty:
  assumes "hdroot_tab (live (m_db w)) = []" "fault_free 1 (faults (m_db w))"
  shows "GetOrCreateHDRoot rnd now bak_ok w =
     (case fst (create_hdroot rnd now bak_ok
                  (w\<lparr>m_db := (m_db w)\<lparr>faults := drop 1 (faults (m_db w))\<rparr>\<rparr>)) of
        Inl e \<Rightarrow> (Inl e, snd (create_hdroot rnd now bak_ok
                  (w\<lparr>m_db := (m_db w)\<lparr>faults := drop 1 (faults (m_db w))\<rparr>\<rparr>)))
      | Inr u \<Rightarrow> load_hdroot (snd (create_hdroot rnd now bak_ok
                  (w\<lparr>m_db := (m_db w)\<lparr>faults := drop 1 (faults (m_db w))\<rparr>\<rparr>))))"
  using assms unfolding GetOrCreateHDRoot_def sqlite3_query_eq Let_def
  by (simp add: case_prod_beta split: sum.splits)

lemma GetOrCreateHDRoot_creates:
  assumes e: "hdroot_tab (live (m_db w)) = []"
    and t: "\<not> in_txn (m_db w)" and f: "fault_free 6 (faults (m_db w))"
    and c: "\<forall>c\<in>set (hdchain_tab (live (m_db w))). c_hdroot_id c \<noteq> 1"
  shows "GetOrCreateHDRoot rnd now True w =
     (Inr (), w\<lparr>m_hdroot := rnd, m_hdroot_id := 1, bak := bak w @ [hdroot_line now rnd],
        m_db := \<lparr>live = new_root_tables now rnd (live (m_db w)),
                 disk = new_root_tables now rnd (live (m_db w)), in_txn = False,
                 last_insert_rowid = next_rowid (map c_id (hdchain_tab (live (m_db w)))) + 3,
                 faults = drop 6 (faults (m_db w))\<rparr>\<rparr>)"
proof -
  let ?w0 = "w\<lparr>m_db := (m_db w)\<lparr>faults := drop 1 (faults (m_db w))\<rparr>\<rparr>"
  from f fault_free_add [of 1 5 "faults (m_db w)"]
  have f1: "fault_free 1 (faults (m_db w))" and f5: "fault_free 5 (drop 1 (faults (m_db w)))"
    by simp_all
  from f5 fault_free_add [of 4 1 "drop 1 (faults (m_db w))"]
  have f4: "fault_free 4 (faults (m_db ?w0))" and f6: "fault_free 1 (drop 5 (faults (m_db w)))"
    by simp_all
  have t0: "\<not> in_txn (m_db ?w0)" using t by simp
  define db1 where "db1 = committed (hdroot_stmts now (Rep_uint256 rnd)) (m_db ?w0)"
  have db1: "db1 = \<lparr>live = new_root_tables now rnd (live (m_db w)),
                 disk = new_root_tables now rnd (live (m_db w)), in_txn = False,
                 last_insert_rowid = next_rowid (map c_id (hdchain_tab (live (m_db w)))) + 3,
                 faults = drop 5 (faults (m_db w))\<rparr>"
  proof -
    have l: "Suc (Suc (Suc (length (hdroot_stmts now (Rep_uint256 rnd))))) = 5"
      by (simp add: hdroot_stmts_def)
    show ?thesis
      using hdroot_stmts_fold [OF e c, of now rnd "last_insert_rowid (m_db w)"]
      by (simp add: db1_def committed_def l)
  qed
  let ?w1 = "?w0\<lparr>m_hdroot := rnd, bak := bak ?w0 @ [hdroot_line now rnd], m_db := db1\<rparr>"
  have cr: "create_hdroot rnd now True ?w0 = (Inr (), ?w1)"
    unfolding db1_def by (rule create_hdroot_ok [OF t0 f4])
  have ld: "load_hdroot ?w1 =
     (Inr (), ?w1\<lparr>m_db := (m_db ?w1)\<lparr>faults := drop 1 (faults (m_db ?w1))\<rparr>,
                m_hdroot_id := 1, m_hdroot := rnd\<rparr>)"
  proof (rule load_hdroot_ok [where now = now and rows = "[]"])
    show "fault_free 1 (faults (m_db ?w1))" using f6 by (simp add: db1)
    show "hdroot_tab (live (m_db ?w1)) =
       [\<lparr>r_id = 1, r_timestamp = now, r_version = 1, r_secret = Rep_uint256 rnd\<rparr>]"
      by (simp add: db1 new_root_tables_def)
  qed
  show ?thesis
    unfolding GetOrCreateHDRoot_empty [OF e f1] cr fst_conv snd_conv sum.case ld
    by (simp add: db1)
qed

lemma GetOrCreateHDRoot_no_log:
  assumes "hdroot_tab (live (m_db w)) = []" "fault_free 1 (faults (m_db w))"
  shows "GetOrCreateHDRoot rnd now False w =
     (Inl ''Unable to open/create wallet recovery file to save wallet master key.'',
      w\<lparr>m_db := (m_db w)\<lparr>faults := drop 1 (faults (m_db w))\<rparr>, m_hdroot := rnd,
        cerr := cerr w @
          [''Unable to open/create wallet recovery file to save wallet master key.'']\<rparr>)"
  unfolding GetOrCreateHDRoot_empty [OF assms] by (simp add: create_hdroot_unfold)

lemma GetOrCreateHDRoot_bak:
  assumes "hdroot_tab (live (m_db w)) = []" "fault_free 1 (faults (m_db w))"
  shows "bak (snd (GetOrCreateHDRoot rnd now True w)) = bak w @ [hdroot_line now rnd]"
proof -
  define w0 where "w0 = w\<lparr>m_db := (m_db w)\<lparr>faults := drop 1 (faults (m_db w))\<rparr>\<rparr>"
  have b: "bak (snd (create_hdroot rnd now True w0)) = bak w @ [hdroot_line now rnd]"
    using create_hdroot_bak [of rnd now w0] by (simp add: w0_def)
  show ?thesis
    unfolding GetOrCreateHDRoot_empty [OF assms] w0_def [symmetric]
    by (cases "fst (create_hdroot rnd now True w0)") (simp_all add: b load_hdroot_frame)
qed

lemma GetOrCreateHDRoot_disk:
  assumes "hdroot_tab (live (m_db w)) = []" "fault_free 1 (faults (m_db w))"
  shows "disk (m_db (snd (GetOrCreateHDRoot rnd now bak_ok w))) = disk (m_db w) \<or>
         disk (m_db (snd (GetOrCreateHDRoot rnd now bak_ok w))) =
           fst (fold apply_stmt (hdroot_stmts now (Rep_uint256 rnd))
                  (live (m_db w), last_insert_rowid (m_db w)))"
proof -
  let ?w0 = "w\<lparr>m_db := (m_db w)\<lparr>faults := drop 1 (faults (m_db w))\<rparr>\<rparr>"
  from create_hdroot_disk [of rnd now bak_ok ?w0]
  show ?thesis
  proof
    assume d: "disk (m_db (snd (create_hdroot rnd now bak_ok ?w0))) = disk (m_db ?w0)"
    have "disk (m_db (snd (GetOrCreateHDRoot rnd now bak_ok w))) = disk (m_db w)"
      unfolding GetOrCreateHDRoot_empty [OF assms]
      using d by (cases "fst (create_hdroot rnd now bak_ok ?w0)") (simp_all add: load_hdroot_frame)
    then show ?thesis ..
  next
    assume c: "create_hdroot rnd now bak_ok ?w0 =
     (Inr (), ?w0\<lparr>m_hdroot := rnd, bak := bak ?w0 @ [hdroot_line now rnd],
                m_db := committed (hdroot_stmts now (Rep_uint256 rnd)) (m_db ?w0)\<rparr>)"
    have "disk (m_db (snd (GetOrCreateHDRoot rnd now bak_ok w))) =
           fst (fold apply_stmt (hdroot_stmts now (Rep_uint256 rnd))
                  (live (m_db w), last_insert_rowid (m_db w)))"
      unfolding GetOrCreateHDRoot_empty [OF assms] c fst_conv snd_conv sum.case
      by (simp add: load_hdroot_frame committed_def Let_def)
    then show ?thesis ..
  qed
qed

lemma BytesToHexString_zeros: "BytesToHexString (replicate n 0) = replicate (2 * n) CHR ''0''"
  by (induction n) (simp_all add: BytesToHexString_def hex_digit_def)

lemma to_string_1000: "to_string_int 1000 = ''1000''"
  by (simp add: to_string_int_def)

lemma new_root_demo:
  "empty_tables
     \<lparr>hdroot_tab := [\<lparr>r_id = 1, r_timestamp = 1000, r_version = 1,
                       r_secret = Rep_uint256 zero256\<rparr>],
      hdchain_tab := hdchain_tab empty_tables @
        initial_chains (next_rowid (map c_id (hdchain_tab empty_tables))) 1\<rparr> = demo_tables"
  by (simp add: empty_tables_def demo_tables_def initial_chains_def demo_chain_def next_rowid_def
        Rep_zero256)

lemma empty_wallet_db [simp]:
  "in_txn (m_db (empty_wallet fs)) = False" "faults (m_db (empty_wallet fs)) = fs"
  "live (m_db (empty_wallet fs)) = empty_tables" "disk (m_db (empty_wallet fs)) = empty_tables"
  "bak (empty_wallet fs) = []"
  by (simp_all add: empty_wallet_def)

lemma distinct_hex: "distinct ''0123456789abcdef''"
  by simp

lemma hex_digit_inj: "m < 16 \<Longrightarrow> n < 16 \<Longrightarrow> hex_digit m = hex_digit n \<Longrightarrow> m = n"
  using nth_eq_iff_index_eq [OF distinct_hex, of m n] by (simp add: hex_digit_def)

lemma hex_byte_inj:
  fixes b c :: byte
  assumes "hex_digit (unat b div 16) = hex_digit (unat c div 16)"
    and "hex_digit (unat b mod 16) = hex_digit (unat c mod 16)"
  shows "b = c"
proof -
  have b: "unat b < 256" and c: "unat c < 256"
    using unsigned_less [of b, where 'a = nat] unsigned_less [of c, where 'a = nat] by simp_all
  then have "unat b div 16 < 16" "unat c div 16 < 16" by simp_all
  from hex_digit_inj [OF this assms(1)] have d: "unat b div 16 = unat c div 16" .
  have "unat b mod 16 < 16" "unat c mod 16 < 16" by simp_all
  from hex_digit_inj [OF this assms(2)] have m: "unat b mod 16 = unat c mod 16" .
  have "unat b = 16 * (unat b div 16) + unat b mod 16" by simp
  also have "\<dots> = 16 * (unat c div 16) + unat c mod 16" by (simp only: d m)
  also have "\<dots> = unat c" by simp
  finally show ?thesis by (rule word_unat_eq_iff [THEN iffD2])
qed

lemma BytesToHexString_inj: "BytesToHexString bs = BytesToHexString cs \<Longrightarrow> bs = cs"
proof (induction bs arbitrary: cs)
  case Nil
  then show ?case by (cases cs) (simp_all add: BytesToHexString_def)
next
  case (Cons b bs)
  show ?case
  proof (cases cs)
    case Nil
    with Cons.prems show ?thesis by (simp add: BytesToHexString_def)
  next
    case (Cons c cs')
    with Cons.prems have h: "hex_digit (unat b div 16) = hex_digit (unat c div 16)"
      "hex_digit (unat b mod 16) = hex_digit (unat c mod 16)"
      and r: "BytesToHexString bs = BytesToHexString cs'"
      by (simp_all add: BytesToHexString_def)
    from hex_byte_inj [OF h] Cons.IH [OF r] Cons show ?thesis by simp
  qed
qed

lemma derive_secret_message:
  "derive_secret H hdroot chaincode mine sweep depth =
     BytesToHexString (Rep_uint256 (H (derive_message H hdroot chaincode mine sweep depth)))"
  by (simp add: derive_secret_def derive_message_def Let_def)

lemma derive_secret_eq_iff:
  "derive_secret H hdroot chaincode mine sweep depth =
   derive_secret H hdroot chaincode mine sweep depth' \<longleftrightarrow>
   H (derive_message H hdroot chaincode mine sweep depth) =
   H (derive_message H hdroot chaincode mine sweep depth')"
  unfolding derive_secret_message
  using BytesToHexString_inj Rep_uint256_inject by metis

lemma ReserveSecret_Inl_disk:
  assumes "fst (ReserveSecret H timestamp mine sweep w) = Inl e"
  shows "disk (m_db (snd (ReserveSecret H timestamp mine sweep w))) = disk (m_db w)"
proof -
  let ?w0 = "w\<lparr>m_db := (m_db w)\<lparr>faults := drop 1 (faults (m_db w))\<rparr>\<rparr>"
  have a: "\<And>sk i d.
     \<not> fst (ExecuteSql [BEGIN_TRANSACTION, INSERT_secret timestamp sk mine sweep,
                        UPDATE_secret_mine mine sk, UPDATE_secret_sweep sweep sk,
                        INSERT_hdkey i d sk, UPDATE_hdchain_maxdepth i, COMMIT] ?w0) \<Longrightarrow>
     disk (m_db (snd (ExecuteSql [BEGIN_TRANSACTION, INSERT_secret timestamp sk mine sweep,
                        UPDATE_secret_mine mine sk, UPDATE_secret_sweep sweep sk,
                        INSERT_hdkey i d sk, UPDATE_hdchain_maxdepth i, COMMIT] ?w0))) =
     disk (m_db w)"
  proof -
    fix sk i d
    show "\<not> fst (ExecuteSql [BEGIN_TRANSACTION, INSERT_secret timestamp sk mine sweep,
                        UPDATE_secret_mine mine sk, UPDATE_secret_sweep sweep sk,
                        INSERT_hdkey i d sk, UPDATE_hdchain_maxdepth i, COMMIT] ?w0) \<Longrightarrow>
     disk (m_db (snd (ExecuteSql [BEGIN_TRANSACTION, INSERT_secret timestamp sk mine sweep,
                        UPDATE_secret_mine mine sk, UPDATE_secret_sweep sweep sk,
                        INSERT_hdkey i d sk, UPDATE_hdchain_maxdepth i, COMMIT] ?w0))) =
     disk (m_db w)"
      using ExecuteSql_txn_atomic [OF data_reserve_stmts, where w = ?w0 and timestamp1 = timestamp
          and secret1 = sk and mine1 = mine and sweep1 = sweep and hdchain_id1 = i and depth1 = d]
      by (simp add: reserve_stmts_def del: ExecuteSql.simps)
  qed
  show ?thesis
    using assms a
    unfolding ReserveSecret_def sqlite3_query_eq Let_def
    by (auto simp add: case_prod_beta split: option.splits bool.splits if_splits
          simp del: ExecuteSql.simps)
qed

lemma select_hdchain_bump:
  assumes "select_hdchain t hdroot_id chaincode mine sweep = Some row"
  shows "select_hdchain (t\<lparr>hdchain_tab := map (bump_maxdepth i) (hdchain_tab t)\<rparr>)
           hdroot_id chaincode mine sweep = Some (bump_maxdepth i row)"
proof -
  have k: "\<And>c. (c_hdroot_id (bump_maxdepth i c) = hdroot_id \<and>
                 c_chaincode (bump_maxdepth i c) = chaincode \<and>
                 c_mine (bump_maxdepth i c) = mine \<and> c_sweep (bump_maxdepth i c) = sweep) =
                (c_hdroot_id c = hdroot_id \<and> c_chaincode c = chaincode \<and>
                 c_mine c = mine \<and> c_sweep c = sweep)"
    by (simp add: bump_maxdepth_def)
  show ?thesis
    using assms find_map_keys [of "\<lambda>c. c_hdroot_id c = hdroot_id \<and> c_chaincode c = chaincode \<and>
                c_mine c = mine \<and> c_sweep c = sweep" "bump_maxdepth i" "hdchain_tab t", OF k]
    by (simp add: select_hdchain_def)
qed

lemma ReserveSecret_call:
  assumes "ReserveSecret H timestamp mine sweep w = (Inr ws, w')"
  shows "\<exists>row. select_hdchain (live (m_db w)) (m_hdroot_id w) 0 mine sweep = Some row \<and>
     ws_secret ws = derive_secret H (m_hdroot w) 0 mine sweep (word_of_int (c_maxdepth row)) \<and>
     secret_tab (live (m_db w')) =
       secrets_after timestamp (ws_secret ws) mine sweep (live (m_db w)) \<and>
     hdkey_tab (live (m_db w')) =
       hdkeys_after (ws_secret ws) (to_int32 (c_id row))
         (sint (word_of_int (c_maxdepth row) :: i64)) (live (m_db w)) \<and>
     hdchain_tab (live (m_db w')) =
       map (bump_maxdepth (to_int32 (c_id row))) (hdchain_tab (live (m_db w))) \<and>
     select_hdchain (live (m_db w')) (m_hdroot_id w') 0 mine sweep =
       Some (bump_maxdepth (to_int32 (c_id row)) row) \<and>
     disk (m_db w') = live (m_db w')"
proof -
  from ReserveSecret_Inr_committed [OF assms] obtain row :: hdchain_row where
    r: "select_hdchain (live (m_db w)) (m_hdroot_id w) 0 mine sweep = Some row"
    and s: "ws_secret ws = derive_secret H (m_hdroot w) 0 mine sweep (word_of_int (c_maxdepth row))"
    and w': "w' = w\<lparr>m_db := committed
                  (reserve_stmts timestamp (ws_secret ws) mine sweep (to_int32 (c_id row))
                     (sint (word_of_int (c_maxdepth row) :: i64)))
                  ((m_db w)\<lparr>faults := drop 1 (faults (m_db w))\<rparr>)\<rparr>"
    by (elim exE conjE)
  have l: "live (m_db w') = (live (m_db w))\<lparr>
        secret_tab := secrets_after timestamp (ws_secret ws) mine sweep (live (m_db w)),
        hdkey_tab := hdkeys_after (ws_secret ws) (to_int32 (c_id row))
                       (sint (word_of_int (c_maxdepth row) :: i64)) (live (m_db w)),
        hdchain_tab := map (bump_maxdepth (to_int32 (c_id row))) (hdchain_tab (live (m_db w)))\<rparr>"
    and d: "disk (m_db w') = live (m_db w')"
    unfolding w' by (simp_all add: committed_reserve)
  have h: "m_hdroot_id w' = m_hdroot_id w" unfolding w' by simp
  have b: "select_hdchain (live (m_db w')) (m_hdroot_id w') 0 mine sweep =
       Some (bump_maxdepth (to_int32 (c_id row)) row)"
    using select_hdchain_bump [OF r, of "to_int32 (c_id row)"]
    unfolding l h by (simp add: select_hdchain_def)
  from r s l d b show ?thesis by simp
qed

lemma fresh_wallet:
  assumes "fault_free 6 fs"
  shows "GetOrCreateHDRoot rnd now True (empty_wallet fs) =
     (Inr (), \<lparr>m_db = \<lparr>live = new_root_tables now rnd empty_tables,
                        disk = new_root_tables now rnd empty_tables, in_txn = False,
                        last_insert_rowid = 4, faults = drop 6 fs\<rparr>,
               m_hdroot = rnd, m_hdroot_id = 1, bak = [hdroot_line now rnd], cerr = [],
               posted = []\<rparr>)"
proof -
  have "GetOrCreateHDRoot rnd now True (empty_wallet fs) =
     (Inr (), (empty_wallet fs)\<lparr>m_hdroot := rnd, m_hdroot_id := 1,
        bak := bak (empty_wallet fs) @ [hdroot_line now rnd],
        m_db := \<lparr>live = new_root_tables now rnd (live (m_db (empty_wallet fs))),
                 disk = new_root_tables now rnd (live (m_db (empty_wallet fs))), in_txn = False,
                 last_insert_rowid =
                   next_rowid (map c_id (hdchain_tab (live (m_db (empty_wallet fs))))) + 3,
                 faults = drop 6 (faults (m_db (empty_wallet fs)))\<rparr>\<rparr>)"
    by (rule GetOrCreateHDRoot_creates) (use assms in \<open>simp_all add: empty_tables_def\<close>)
  then show ?thesis
    by (simp add: empty_wallet_def empty_tables_def next_rowid_def)
qed

lemma new_root_empty:
  "new_root_tables now rnd empty_tables =
     \<lparr>terms_tab = [], secret_tab = [], output_tab = [],
      hdroot_tab = [\<lparr>r_id = 1, r_timestamp = now, r_version = 1, r_secret = Rep_uint256 rnd\<rparr>],
      hdchain_tab =
        [\<lparr>c_id = 1, c_hdroot_id = 1, c_chaincode = 0, c_mine = False, c_sweep = False,
          c_mindepth = 0, c_maxdepth = 0\<rparr>,
         fresh_chain 0,
         \<lparr>c_id = 3, c_hdroot_id = 1, c_chaincode = 0, c_mine = True, c_sweep = False,
          c_mindepth = 0, c_maxdepth = 0\<rparr>,
         \<lparr>c_id = 4, c_hdroot_id = 1, c_chaincode = 0, c_mine = True, c_sweep = True,
          c_mindepth = 0, c_maxdepth = 0\<rparr>],
      hdkey_tab = []\<rparr>"
  by (simp add: new_root_tables_def empty_tables_def initial_chains_def next_rowid_def
        fresh_chain_def)

lemma reserve_fresh_chain:
  assumes l: "live (m_db w) =
     \<lparr>terms_tab = [], secret_tab = secrets, output_tab = [],
      hdroot_tab = roots,
      hdchain_tab =
        [\<lparr>c_id = 1, c_hdroot_id = 1, c_chaincode = 0, c_mine = False, c_sweep = False,
          c_mindepth = 0, c_maxdepth = 0\<rparr>,
         fresh_chain d,
         \<lparr>c_id = 3, c_hdroot_id = 1, c_chaincode = 0, c_mine = True, c_sweep = False,
          c_mindepth = 0, c_maxdepth = 0\<rparr>,
         \<lparr>c_id = 4, c_hdroot_id = 1, c_chaincode = 0, c_mine = True, c_sweep = True,
          c_mindepth = 0, c_maxdepth = 0\<rparr>],
      hdkey_tab = keys\<rparr>"
    and h: "m_hdroot_id w = 1" and d: "0 \<le> d" "d < 2 ^ 63"
    and t: "\<not> in_txn (m_db w)" and f: "fault_free 8 (faults (m_db w))"
  shows "fst (ReserveSecret H timestamp False True w) =
       Inr \<lparr>ws_id = - 1, ws_timestamp = timestamp,
            ws_secret = derive_secret H (m_hdroot w) 0 False True (word_of_int d),
            ws_mine = False, ws_sweep = True\<rparr>"
    and "m_db (snd (ReserveSecret H timestamp False True w)) =
       committed (reserve_stmts timestamp
                    (derive_secret H (m_hdroot w) 0 False True (word_of_int d)) False True 2 d)
         ((m_db w)\<lparr>faults := drop 1 (faults (m_db w))\<rparr>)"
    and "m_hdroot (snd (ReserveSecret H timestamp False True w)) = m_hdroot w"
    and "m_hdroot_id (snd (ReserveSecret H timestamp False True w)) = 1"
proof -
  have s: "select_hdchain (live (m_db w)) (m_hdroot_id w) 0 False True = Some (fresh_chain d)"
    by (simp add: l h select_hdchain_def fresh_chain_def)
  have "ReserveSecret H timestamp False True w =
     (Inr \<lparr>ws_id = - 1, ws_timestamp = timestamp,
           ws_secret = derive_secret H (m_hdroot w) 0 False True
                         (word_of_int (c_maxdepth (fresh_chain d))),
           ws_mine = False, ws_sweep = True\<rparr>,
      w\<lparr>m_db := committed
          (reserve_stmts timestamp
             (derive_secret H (m_hdroot w) 0 False True (word_of_int (c_maxdepth (fresh_chain d))))
             False True (c_id (fresh_chain d)) (c_maxdepth (fresh_chain d)))
          ((m_db w)\<lparr>faults := drop 1 (faults (m_db w))\<rparr>)\<rparr>)"
    by (rule ReserveSecret_ok [OF s]) (use d t f in \<open>simp_all add: fresh_chain_def\<close>)
  then show "fst (ReserveSecret H timestamp False True w) =
       Inr \<lparr>ws_id = - 1, ws_timestamp = timestamp,
            ws_secret = derive_secret H (m_hdroot w) 0 False True (word_of_int d),
            ws_mine = False, ws_sweep = True\<rparr>"
    and "m_db (snd (ReserveSecret H timestamp False True w)) =
       committed (reserve_stmts timestamp
                    (derive_secret H (m_hdroot w) 0 False True (word_of_int d)) False True 2 d)
         ((m_db w)\<lparr>faults := drop 1 (faults (m_db w))\<rparr>)"
    and "m_hdroot (snd (ReserveSecret H timestamp False True w)) = m_hdroot w"
    and "m_hdroot_id (snd (ReserveSecret H timestamp False True w)) = 1"
    using h by (simp_all add: fresh_chain_def)
qed

lemma two_reservations:
  assumes f: "fault_free 22 fs"
    and n: "H (derive_message H rnd 0 False True 0) \<noteq> H (derive_message H rnd 0 False True 1)"
    and w0: "w0 = snd (GetOrCreateHDRoot rnd now True (empty_wallet fs))"
    and r1: "r1 = ReserveSecret H t1 False True w0"
    and r2: "r2 = ReserveSecret H t2 False True (snd r1)"
  shows "fst r1 = Inr \<lparr>ws_id = - 1, ws_timestamp = t1,
                      ws_secret = derive_secret H rnd 0 False True 0,
                      ws_mine = False, ws_sweep = True\<rparr>"
    and "fst r2 = Inr \<lparr>ws_id = - 1, ws_timestamp = t2,
                      ws_secret = derive_secret H rnd 0 False True 1,
                      ws_mine = False, ws_sweep = True\<rparr>"
    and "derive_secret H rnd 0 False True 0 \<noteq> derive_secret H rnd 0 False True 1"
    and "select_hdchain (live (m_db (snd r2))) 1 0 False True = Some (fresh_chain 2)"
    and "hdkey_tab (live (m_db (snd r2))) =
           [\<lparr>k_id = 1, k_hdchain_id = 2, k_depth = 0, k_secret_id = 1\<rparr>,
            \<lparr>k_id = 2, k_hdchain_id = 2, k_depth = 1, k_secret_id = 2\<rparr>]"
    and "secret_tab (live (m_db (snd r2))) =
           [\<lparr>s_id = 1, s_timestamp = t1, s_secret = derive_secret H rnd 0 False True 0,
             s_mine = False, s_sweep = True\<rparr>,
            \<lparr>s_id = 2, s_timestamp = t2, s_secret = derive_secret H rnd 0 False True 1,
             s_mine = False, s_sweep = True\<rparr>]"
    and "disk (m_db (snd r2)) = live (m_db (snd r2))"
proof -
  define s0 where "s0 = derive_secret H rnd 0 False True 0"
  define s1 where "s1 = derive_secret H rnd 0 False True 1"
  have ne: "s0 \<noteq> s1" unfolding s0_def s1_def derive_secret_eq_iff by (rule n)
  from f fault_free_add [of 6 16 fs] have f6: "fault_free 6 fs" and f16: "fault_free 16 (drop 6 fs)"
    by simp_all
  from f16 fault_free_add [of 8 8 "drop 6 fs"]
  have f8: "fault_free 8 (drop 6 fs)" and f8': "fault_free 8 (drop 14 fs)"
    by simp_all
  let ?c1 = "\<lparr>c_id = 1, c_hdroot_id = 1, c_chaincode = 0, c_mine = False, c_sweep = False,
          c_mindepth = 0, c_maxdepth = 0\<rparr>"
  let ?c3 = "\<lparr>c_id = 3, c_hdroot_id = 1, c_chaincode = 0, c_mine = True, c_sweep = False,
          c_mindepth = 0, c_maxdepth = 0\<rparr>"
  let ?c4 = "\<lparr>c_id = 4, c_hdroot_id = 1, c_chaincode = 0, c_mine = True, c_sweep = True,
          c_mindepth = 0, c_maxdepth = 0\<rparr>"
  let ?root = "\<lparr>r_id = 1, r_timestamp = now, r_version = 1, r_secret = Rep_uint256 rnd\<rparr>"
  let ?sec0 = "\<lparr>s_id = 1, s_timestamp = t1, s_secret = s0, s_mine = False, s_sweep = True\<rparr>"
  let ?sec1 = "\<lparr>s_id = 2, s_timestamp = t2, s_secret = s1, s_mine = False, s_sweep = True\<rparr>"
  let ?k0 = "\<lparr>k_id = 1, k_hdchain_id = 2, k_depth = 0, k_secret_id = 1\<rparr>"
  let ?k1 = "\<lparr>k_id = 2, k_hdchain_id = 2, k_depth = 1, k_secret_id = 2\<rparr>"
  let ?T = "\<lambda>secrets keys d.
     \<lparr>terms_tab = [], secret_tab = secrets, output_tab = [], hdroot_tab = [?root],
      hdchain_tab = [?c1, fresh_chain d, ?c3, ?c4], hdkey_tab = keys\<rparr>"
  have l0: "live (m_db w0) = ?T [] [] 0"
    and h0: "m_hdroot_id w0 = 1" and m0: "m_hdroot w0 = rnd"
    and t0: "\<not> in_txn (m_db w0)" and g0: "faults (m_db w0) = drop 6 fs"
    unfolding w0 fresh_wallet [OF f6] by (simp_all add: new_root_empty)
  note a = reserve_fresh_chain [where w = w0 and d = 0 and H = H and timestamp = t1, OF l0 h0]
  have a1: "fst r1 = Inr \<lparr>ws_id = - 1, ws_timestamp = t1, ws_secret = s0,
                         ws_mine = False, ws_sweep = True\<rparr>"
    unfolding r1 s0_def using a(1) t0 f8 by (simp add: g0 m0)
  have db1: "m_db (snd r1) =
       committed (reserve_stmts t1 s0 False True 2 0) ((m_db w0)\<lparr>faults := drop 1 (faults (m_db w0))\<rparr>)"
    unfolding r1 s0_def using a(2) t0 f8 by (simp add: g0 m0)
  have h1: "m_hdroot_id (snd r1) = 1" and m1: "m_hdroot (snd r1) = rnd"
    unfolding r1 using a(3,4) t0 f8 by (simp_all add: g0 m0)
  have l1: "live (m_db (snd r1)) = ?T [?sec0] [?k0] 1"
    unfolding db1
    by (simp add: committed_reserve l0 secrets_after_def secret_present_def merge_flags_def
          next_rowid_def hdkeys_after_def hdkey_conflict_def secret_id_for_def
          select_secret_id_def bump_maxdepth_def fresh_chain_def)
  have t1': "\<not> in_txn (m_db (snd r1))" unfolding db1 by (simp add: committed_reserve)
  have g1: "faults (m_db (snd r1)) = drop 14 fs"
    unfolding db1 by (simp add: committed_def reserve_stmts_def Let_def g0)
  note b = reserve_fresh_chain [where w = "snd r1" and d = 1 and H = H and timestamp = t2, OF l1 h1]
  have b1: "fst r2 = Inr \<lparr>ws_id = - 1, ws_timestamp = t2, ws_secret = s1,
                         ws_mine = False, ws_sweep = True\<rparr>"
    unfolding r2 s1_def using b(1) t1' f8' by (simp add: g1 m1)
  have db2: "m_db (snd r2) =
       committed (reserve_stmts t2 s1 False True 2 1)
         ((m_db (snd r1))\<lparr>faults := drop 1 (faults (m_db (snd r1)))\<rparr>)"
    unfolding r2 s1_def using b(2) t1' f8' by (simp add: g1 m1)
  have l2: "live (m_db (snd r2)) = ?T [?sec0, ?sec1] [?k0, ?k1] 2"
    unfolding db2 using ne
    by (simp add: committed_reserve l1 secrets_after_def secret_present_def merge_flags_def
          next_rowid_def hdkeys_after_def hdkey_conflict_def secret_id_for_def
          select_secret_id_def bump_maxdepth_def fresh_chain_def)
  show "fst r1 = Inr \<lparr>ws_id = - 1, ws_timestamp = t1,
                      ws_secret = derive_secret H rnd 0 False True 0,
                      ws_mine = False, ws_sweep = True\<rparr>"
    using a1 by (simp add: s0_def)
  show "fst r2 = Inr \<lparr>ws_id = - 1, ws_timestamp = t2,
                      ws_secret = derive_secret H rnd 0 False True 1,
                      ws_mine = False, ws_sweep = True\<rparr>"
    using b1 by (simp add: s1_def)
  show "derive_secret H rnd 0 False True 0 \<noteq> derive_secret H rnd 0 False True 1"
    using ne by (simp add: s0_def s1_def)
  show "select_hdchain (live (m_db (snd r2))) 1 0 False True = Some (fresh_chain 2)"
    by (simp add: l2 select_hdchain_def fresh_chain_def)
  show "hdkey_tab (live (m_db (snd r2))) = [?k0, ?k1]" by (simp add: l2)
  show "secret_tab (live (m_db (snd r2))) =
           [\<lparr>s_id = 1, s_timestamp = t1, s_secret = derive_secret H rnd 0 False True 0,
             s_mine = False, s_sweep = True\<rparr>,
            \<lparr>s_id = 2, s_timestamp = t2, s_secret = derive_secret H rnd 0 False True 1,
             s_mine = False, s_sweep = True\<rparr>]"
    by (simp add: l2 s0_def s1_def)
  show "disk (m_db (snd r2)) = live (m_db (snd r2))"
    unfolding db2 by (simp add: committed_reserve)
qed

lemma bump_maxdepth_own:
  "- (2 ^ 31) \<le> c_id row \<Longrightarrow> c_id row < 2 ^ 31 \<Longrightarrow>
   bump_maxdepth (to_int32 (c_id row)) row = row\<lparr>c_maxdepth := c_maxdepth row + 1\<rparr>"
  by (simp add: bump_maxdepth_def to_int32_id)

lemma BytesToHexString_append:
  "BytesToHexString (xs @ ys) = BytesToHexString xs @ BytesToHexString ys"
  by (simp add: BytesToHexString_def)

lemma toy_message_last:
  "Rep_uint256 (toy_sha (derive_message H hdroot chaincode mine sweep depth)) =
     replicate 31 0 @ [ucast (depth AND 0xff)]"
  by (simp add: Rep_toy_sha derive_message_def depth_bytes_def)

lemma derive_toy_0: "derive_secret toy_sha zero256 0 False True 0 = replicate 64 CHR ''0''"
  by (simp add: derive_secret_spec spec_derive_demo)

lemma derive_toy_1:
  "derive_secret toy_sha zero256 0 False True 1 = replicate 62 CHR ''0'' @ ''01''"
  using BytesToHexString_zeros [of 31]
  by (simp add: derive_secret_message toy_message_last BytesToHexString_append)
     (simp add: BytesToHexString_def hex_digit_def)

lemma toy_messages_differ:
  "toy_sha (derive_message toy_sha zero256 0 False True 0) \<noteq>
   toy_sha (derive_message toy_sha zero256 0 False True 1)"
proof
  assume "toy_sha (derive_message toy_sha zero256 0 False True 0) =
          toy_sha (derive_message toy_sha zero256 0 False True 1)"
  then have "Rep_uint256 (toy_sha (derive_message toy_sha zero256 0 False True 0)) =
             Rep_uint256 (toy_sha (derive_message toy_sha zero256 0 False True 1))"
    by simp
  then show False by (simp add: toy_message_last)
qed

lemma ReserveSecret_first_query_fails:
  "ReserveSecret H timestamp mine sweep (demo_wallet [True]) =
     (Inl ''Running SQL statement returned unexpected status code'',
      (demo_wallet [True])\<lparr>m_db := (m_db (demo_wallet [True]))\<lparr>faults := []\<rparr>,
        cerr := [''Running SQL statement returned unexpected status code'']\<rparr>)"
  by (simp add: ReserveSecret_def sqlite3_query_def demo_wallet_def)

subsection \<open>A reservation on the paying wallet\<close>

lemma select_pay:
  "select_hdchain (live (m_db (pay_wallet fs))) (m_hdroot_id (pay_wallet fs)) 0 mine sweep =
     Some (demo_chain mine sweep)"
  by (cases mine; cases sweep)
     (simp_all add: pay_wallet_def pay_tables_def demo_tables_def select_hdchain_def
        demo_chain_def)

lemma reserve_on_pay:
  "ReserveSecret toy_sha 100 True True (pay_wallet []) =
     (Inr (demo_secret True True),
      (pay_wallet [])\<lparr>m_db :=
         committed (reserve_stmts 100 (replicate 64 CHR ''0'') True True 4 0)
           (m_db (pay_wallet []))\<rparr>)"
proof -
  have "ReserveSecret toy_sha 100 True True (pay_wallet []) =
     (Inr \<lparr>ws_id = - 1, ws_timestamp = 100,
           ws_secret = derive_secret toy_sha (m_hdroot (pay_wallet [])) 0 True True
             (word_of_int (c_maxdepth (demo_chain True True))),
           ws_mine = True, ws_sweep = True\<rparr>,
      (pay_wallet [])\<lparr>m_db := committed
          (reserve_stmts 100
             (derive_secret toy_sha (m_hdroot (pay_wallet [])) 0 True True
                (word_of_int (c_maxdepth (demo_chain True True))))
             True True (c_id (demo_chain True True)) (c_maxdepth (demo_chain True True)))
          ((m_db (pay_wallet []))\<lparr>faults := drop 1 (faults (m_db (pay_wallet [])))\<rparr>)\<rparr>)"
    by (rule ReserveSecret_ok [OF select_pay]) (simp_all add: demo_chain_def)
  then show ?thesis
    by (simp add: derive_secret_spec demo_chain_def pay_wallet_def spec_derive_demo
          demo_secret_def)
qed

lemma short_not_zeros:
  "''aa'' \<noteq> replicate 64 CHR ''0''" "''bb'' \<noteq> replicate 64 CHR ''0''"
proof -
  have "length ''aa'' \<noteq> length (replicate 64 CHR ''0'')"
    and "length ''bb'' \<noteq> length (replicate 64 CHR ''0'')" by simp_all
  then show "''aa'' \<noteq> replicate 64 CHR ''0''" "''bb'' \<noteq> replicate 64 CHR ''0''"
    by fastforce+
qed

lemma reserved_pay_tables:
  "live (committed (reserve_stmts 100 (replicate 64 CHR ''0'') True True 4 0)
           (m_db (pay_wallet []))) =
     pay_tables\<lparr>
       secret_tab :=
         [\<lparr>s_id = 1, s_timestamp = 50, s_secret = ''aa'', s_mine = True, s_sweep = False\<rparr>,
          \<lparr>s_id = 2, s_timestamp = 50, s_secret = ''bb'', s_mine = False, s_sweep = True\<rparr>,
          \<lparr>s_id = 3, s_timestamp = 100, s_secret = replicate 64 CHR ''0'', s_mine = True,
            s_sweep = True\<rparr>],
       hdkey_tab := [\<lparr>k_id = 1, k_hdchain_id = 4, k_depth = 0, k_secret_id = 3\<rparr>],
       hdchain_tab := [demo_chain False False, demo_chain False True, demo_chain True False,
                       (demo_chain True True)\<lparr>c_maxdepth := 1\<rparr>]\<rparr>"
  by (simp add: committed_reserve pay_wallet_def pay_tables_def demo_tables_def
        secrets_after_def secret_present_def merge_flags_def next_rowid_def hdkeys_after_def
        hdkey_conflict_def secret_id_for_def select_secret_id_def bump_maxdepth_def
        demo_chain_def short_not_zeros)

lemma new_row_reserved:
  "new_output_row toy_sha 100 (demo_secret True True, 5) 3 =
     \<lparr>o_id = 3, o_timestamp = 100, o_hash = replicate 31 0 @ [48], o_secret_id = Some (- 1),
      o_amount = 5, o_spent = False\<rparr>"
  by (simp add: new_output_row_def demo_secret_def Rep_toy_sha bytes_of_string_def)

section \<open>The derived secret (C1)\<close>

text \<open>
  C1.  Whenever \<^verbatim>\<open>ReserveSecret\<close> returns a secret for a pair \<open>(mine, sweep)\<close>, it read the
  row of that chain, and the secret is the lower-case hexadecimal text, 64 characters
  long, of \<open>SHA256(tag || tag || hdroot || chaincode_bytes || depth_bytes)\<close>: the tag is
  the digest of \<^verbatim>\<open>webcashwalletv1\<close>, the chaincode bytes are the big-endian encoding of the
  chaincode (zero here) shifted left by two with the category bits of \<open>(mine, sweep)\<close>
  or-ed in, and the depth bytes are the big-endian encoding of the chain's current
  \<^verbatim>\<open>maxdepth\<close>.
\<close>

theorem ReserveSecret_derives_spec_secret:
  assumes "ReserveSecret H timestamp mine sweep w = (Inr ws, w')"
  shows "\<exists>row. select_hdchain (live (m_db w)) (m_hdroot_id w) 0 mine sweep = Some row \<and>
           ws_secret ws =
             spec_derive H (m_hdroot w) 0 mine sweep (word_of_int (c_maxdepth row)) \<and>
           length (ws_secret ws) = 64 \<and>
           set (ws_secret ws) \<subseteq> set ''0123456789abcdef''"
proof -
  from ReserveSecret_Inr [OF assms] obtain row where
    row: "select_hdchain (live (m_db w)) (m_hdroot_id w) 0 mine sweep = Some row"
    and ws: "ws = \<lparr>ws_id = - 1, ws_timestamp = timestamp,
                   ws_secret = derive_secret H (m_hdroot w) 0 mine sweep
                     (word_of_int (c_maxdepth row)),
                   ws_mine = mine, ws_sweep = sweep\<rparr>"
    by blast
  have "ws_secret ws = spec_derive H (m_hdroot w) 0 mine sweep (word_of_int (c_maxdepth row))"
    by (simp add: ws derive_secret_spec)
  moreover have "length (ws_secret ws) = 64"
    by (simp add: ws length_derive_secret)
  moreover have "set (ws_secret ws) \<subseteq> set ''0123456789abcdef''"
    unfolding ws using set_derive_secret by simp
  ultimately show ?thesis using row by blast
qed

theorem ReserveSecret_derives_spec_secret_witness:
  "ReserveSecret toy_sha 100 False True (demo_wallet []) =
     (Inr (demo_secret False True), snd (ReserveSecret toy_sha 100 False True (demo_wallet []))) \<and>
   (\<exists>row. select_hdchain (live (m_db (demo_wallet []))) (m_hdroot_id (demo_wallet [])) 0 False True
             = Some row \<and>
      ws_secret (demo_secret False True) =
        spec_derive toy_sha (m_hdroot (demo_wallet [])) 0 False True
          (word_of_int (c_maxdepth row)) \<and>
      length (ws_secret (demo_secret False True)) = 64 \<and>
      set (ws_secret (demo_secret False True)) \<subseteq> set ''0123456789abcdef'')"
proof -
  have e: "ReserveSecret toy_sha 100 False True (demo_wallet []) =
     (Inr (demo_secret False True), snd (ReserveSecret toy_sha 100 False True (demo_wallet [])))"
    using ReserveSecret_demo [of False True]
    by (cases "ReserveSecret toy_sha 100 False True (demo_wallet [])") simp
  from ReserveSecret_derives_spec_secret [OF e] e show ?thesis by simp
qed

section \<open>Rejected replacements (C2)\<close>

text \<open>
  C2.  A replacement that fails one of the checks is to return the empty vector, print a
  diagnostic, send nothing and change nothing.  \<open>ReplaceWebcash_rejected\<close> shows this for
  every check the code returns on: no inputs, an input without secret, a spent input, no
  outputs, an output amount below 1, unequal sums.  For an input amount below 1 the code
  prints its diagnostic and goes on.  Here an input of amount 0 is sent to the server
  beside one of amount 5; on the server's 200 both rows are marked spent and the new
  output is inserted and returned.
\<close>

theorem ReplaceWebcash_sends_input_of_amount_zero:
  "sint (wo_amount (demo_spendable 1 ''aa'' 0)) < 1 \<and>
   fst zero_amount_call = [(demo_secret True True, 3)] \<and>
   map webcashes (posted (snd (snd zero_amount_call))) = [[''e0:secret:aa'', ''e5:secret:bb'']] \<and>
   map o_spent (output_tab (live (m_db (snd (snd zero_amount_call))))) = [True, True, False] \<and>
   m_db (snd (snd zero_amount_call)) \<noteq> m_db (pay_wallet []) \<and>
   cerr (snd (snd zero_amount_call)) = [''Invalid amount for replacement intput: '']"
proof -
  let ?ins = "[demo_spendable 1 ''aa'' 0, demo_spendable 2 ''bb'' 5]"
  let ?outs = "[(demo_secret True True, 5 :: i64)]"
  have e: "ReplaceWebcash toy_sha server_ok 200 ?ins ?outs (pay_wallet []) =
      (fst zero_amount_call, fst (snd zero_amount_call), snd (snd zero_amount_call))"
    by (simp add: zero_amount_call_def)
  have p: "posted (snd (snd zero_amount_call)) = posted (pay_wallet []) @ [replace_request_of ?ins ?outs]"
    by (simp add: zero_amount_call_def ReplaceWebcash_posted accepts_zero)
  have a: "server_ok (replace_request_of ?ins ?outs) = HttpResponse 200 []"
    by (simp add: server_ok_def)
  have pos: "0 < next_rowid (map o_id (output_tab (live (m_db (pay_wallet [])))))"
    and fit: "next_rowid (map o_id (output_tab (live (m_db (pay_wallet []))))) +
     int (length ?outs) \<le> 2 ^ 31"
    by (simp_all add: next_rowid_pay)
  have fs: "faults (m_db (pay_wallet [])) = []" by (simp add: pay_wallet_def)
  have m: "marked_ids ?ins [] = [1, 2]"
    by (simp add: marked_ids_def demo_spendable_def)
  have i: "inserted_outputs ?outs [] = ?outs"
    by (simp add: inserted_outputs_def)
  have f: "fresh_rowids 3 (Suc 0) = [3]" by (simp add: fresh_rowids_def)
  have w: "amount_warnings ?ins = [''Invalid amount for replacement intput: '']"
    by (simp add: amount_warnings_def demo_spendable_def)
  have c: "cerr (pay_wallet []) = []" "posted (pay_wallet []) = []" by (simp_all add: pay_wallet_def)
  have q: "webcashes (replace_request_of ?ins ?outs) = [''e0:secret:aa'', ''e5:secret:bb'']"
    by (simp add: replace_request_of_def wire_input_def demo_spendable_def
          to_string_SecretWebcash_def to_string_int_def)
  note eff = ReplaceWebcash_commit_effect [OF e p a pos fit]
  have t: "output_tab (live (m_db (snd (snd zero_amount_call)))) =
      map (spend_if {1, 2}) (output_tab (live (m_db (pay_wallet [])))) @
      [new_output_row toy_sha 200 (demo_secret True True, 5) 3]"
    using eff by (simp add: fs m i f next_rowid_pay)
  have "length (output_tab (live (m_db (snd (snd zero_amount_call))))) = 3"
    unfolding t by (simp add: map_spend_pay)
  moreover have "length (output_tab (live (m_db (pay_wallet [])))) = 2"
    by (simp add: pay_wallet_def pay_tables_def)
  ultimately have d: "m_db (snd (snd zero_amount_call)) \<noteq> m_db (pay_wallet [])"
    by auto
  have r: "fst zero_amount_call = [(demo_secret True True, 3)]"
    using eff by (simp add: fs m i f next_rowid_pay)
  have g: "cerr (snd (snd zero_amount_call)) = [''Invalid amount for replacement intput: '']"
    using eff by (simp add: c w fs failure_log_def)
  have z: "sint (wo_amount (demo_spendable 1 ''aa'' 0)) < 1"
    by (simp add: demo_spendable_def)
  from z r d g show ?thesis
    by (simp add: p c q t map_spend_pay new_row_demo)
qed

section \<open>No change before the server's 200 (C3)\<close>

text \<open>
  C3.  Unless this call posted a request and the server answered it with status 200,
  \<^verbatim>\<open>ReplaceWebcash\<close> returns the empty vector and leaves the database and the caller's
  inputs exactly as they were: a transport error or timeout, any other status, and a
  request that was never sent all end so.  Hence every change of the database, the
  \<^verbatim>\<open>spent=TRUE\<close> updates among them, comes after a 200 response.
\<close>

theorem ReplaceWebcash_mutates_only_after_200:
  assumes call: "ReplaceWebcash H server timestamp inputs outputs w = (ret, inputs', w')"
    and no200: "\<forall>req body. posted w' = posted w @ [req] \<longrightarrow> server req \<noteq> HttpResponse 200 body"
  shows "ret = [] \<and> inputs' = inputs \<and> m_db w' = m_db w"
  using ReplaceWebcash_no_commit [OF call no200] by simp

theorem ReplaceWebcash_mutates_only_after_200_witness:
  "(\<exists>req. posted (snd (snd (ReplaceWebcash toy_sha server_busy 200 [demo_spendable 2 ''bb'' 5]
                 [(demo_secret True True, 5)] (pay_wallet [])))) = posted (pay_wallet []) @ [req] \<and>
          server_busy req = HttpResponse 500 ''busy'') \<and>
   fst (ReplaceWebcash toy_sha server_busy 200 [demo_spendable 2 ''bb'' 5]
          [(demo_secret True True, 5)] (pay_wallet [])) = [] \<and>
   fst (snd (ReplaceWebcash toy_sha server_busy 200 [demo_spendable 2 ''bb'' 5]
          [(demo_secret True True, 5)] (pay_wallet []))) = [demo_spendable 2 ''bb'' 5] \<and>
   m_db (snd (snd (ReplaceWebcash toy_sha server_busy 200 [demo_spendable 2 ''bb'' 5]
          [(demo_secret True True, 5)] (pay_wallet [])))) = m_db (pay_wallet [])"
proof -
  let ?r = "ReplaceWebcash toy_sha server_busy 200 [demo_spendable 2 ''bb'' 5]
              [(demo_secret True True, 5)] (pay_wallet [])"
  have e: "?r = (fst ?r, fst (snd ?r), snd (snd ?r))" by simp
  have p: "posted (snd (snd ?r)) = posted (pay_wallet []) @
      [replace_request_of [demo_spendable 2 ''bb'' 5] [(demo_secret True True, 5)]]"
    by (simp add: ReplaceWebcash_posted accepts_demo)
  have n: "\<forall>req body. posted (snd (snd ?r)) = posted (pay_wallet []) @ [req] \<longrightarrow>
      server_busy req \<noteq> HttpResponse 200 body"
    by (simp add: server_busy_def)
  from ReplaceWebcash_mutates_only_after_200 [OF e n] p show ?thesis
    by (simp add: server_busy_def)
qed

section \<open>The commit phase (C4)\<close>

text \<open>
  The commit phase in closed form.  After a 200 response the output table is the old
  one, with \<^verbatim>\<open>spent\<close> set in every row whose id is the id of an input whose UPDATE
  succeeded, followed by one new unspent row for each output whose INSERT succeeded,
  holding the hash of the output's secret, its amount and, as \<^verbatim>\<open>secret_id\<close>, the \<^verbatim>\<open>id\<close>
  field of the \<^verbatim>\<open>WalletSecret\<close> that the caller passed (NULL for the id 0, as
  \<^verbatim>\<open>AddOutputToWallet\<close> has it).  The returned vector pairs exactly these outputs' secrets
  with the ids of their rows.  Every failure is logged with two messages and processing
  goes on: all \<open>length inputs + length outputs\<close> statements are attempted.  When none
  fails, every input is marked and every requested output has its row.  The row ids are
  assumed to fit the C++ \<^verbatim>\<open>int\<close> that carries them.
\<close>

lemma ReplaceWebcash_commit_phase:
  assumes call: "ReplaceWebcash H server timestamp inputs outputs w = (ret, inputs', w')"
    and posted: "posted w' = posted w @ [req]"
    and answer: "server req = HttpResponse 200 body"
    and pos: "0 < next_rowid (map o_id (output_tab (live (m_db w))))"
    and fit: "next_rowid (map o_id (output_tab (live (m_db w)))) + int (length outputs) \<le> 2 ^ 31"
  shows "live (m_db w') =
           (live (m_db w))\<lparr>output_tab :=
              map (spend_if (set (marked_ids inputs (faults (m_db w)))))
                (output_tab (live (m_db w))) @
              map2 (new_output_row H timestamp)
                (inserted_outputs outputs (drop (length inputs) (faults (m_db w))))
                (fresh_rowids (next_rowid (map o_id (output_tab (live (m_db w)))))
                   (length (inserted_outputs outputs (drop (length inputs) (faults (m_db w))))))\<rparr> \<and>
         ret = zip (map fst (inserted_outputs outputs (drop (length inputs) (faults (m_db w)))))
                 (fresh_rowids (next_rowid (map o_id (output_tab (live (m_db w)))))
                    (length (inserted_outputs outputs (drop (length inputs) (faults (m_db w)))))) \<and>
         faults (m_db w') = drop (length inputs + length outputs) (faults (m_db w)) \<and>
         cerr w' = cerr w @ amount_warnings inputs @
                   failure_log mark_msg (ok_flags (length inputs) (faults (m_db w))) @
                   failure_log out_msg
                     (ok_flags (length outputs) (drop (length inputs) (faults (m_db w)))) \<and>
         (fault_free (length inputs + length outputs) (faults (m_db w)) \<longrightarrow>
            marked_ids inputs (faults (m_db w)) = map wo_id inputs \<and>
            inserted_outputs outputs (drop (length inputs) (faults (m_db w))) = outputs)"
  by (rule ReplaceWebcash_commit_effect [OF call posted answer pos fit])

lemma ReplaceWebcash_commit_phase_demo:
  "posted (snd (snd (ReplaceWebcash toy_sha server_ok 200 [demo_spendable 2 ''bb'' 5]
       [(demo_secret True True, 5)] (pay_wallet [])))) =
     posted (pay_wallet []) @
       [replace_request_of [demo_spendable 2 ''bb'' 5] [(demo_secret True True, 5)]] \<and>
   server_ok (replace_request_of [demo_spendable 2 ''bb'' 5] [(demo_secret True True, 5)]) =
     HttpResponse 200 [] \<and>
   0 < next_rowid (map o_id (output_tab (live (m_db (pay_wallet []))))) \<and>
   next_rowid (map o_id (output_tab (live (m_db (pay_wallet []))))) +
     int (length [(demo_secret True True, 5 :: i64)]) \<le> 2 ^ 31 \<and>
   fst (ReplaceWebcash toy_sha server_ok 200 [demo_spendable 2 ''bb'' 5]
          [(demo_secret True True, 5)] (pay_wallet [])) = [(demo_secret True True, 3)] \<and>
   output_tab (live (m_db (snd (snd (ReplaceWebcash toy_sha server_ok 200
       [demo_spendable 2 ''bb'' 5] [(demo_secret True True, 5)] (pay_wallet [])))))) =
     [\<lparr>o_id = 1, o_timestamp = 50, o_hash = replicate 32 0, o_secret_id = Some 1,
       o_amount = 0, o_spent = False\<rparr>,
      \<lparr>o_id = 2, o_timestamp = 50, o_hash = replicate 32 0, o_secret_id = Some 2,
       o_amount = 5, o_spent = True\<rparr>,
      \<lparr>o_id = 3, o_timestamp = 200, o_hash = replicate 31 0 @ [48], o_secret_id = Some (- 1),
       o_amount = 5, o_spent = False\<rparr>]"
proof -
  let ?r = "ReplaceWebcash toy_sha server_ok 200 [demo_spendable 2 ''bb'' 5]
              [(demo_secret True True, 5)] (pay_wallet [])"
  have e: "?r = (fst ?r, fst (snd ?r), snd (snd ?r))" by simp
  have a: "server_ok (replace_request_of [demo_spendable 2 ''bb'' 5] [(demo_secret True True, 5)]) =
     HttpResponse 200 []" by (simp add: server_ok_def)
  have pos: "0 < next_rowid (map o_id (output_tab (live (m_db (pay_wallet [])))))"
    and fit: "next_rowid (map o_id (output_tab (live (m_db (pay_wallet []))))) +
     int (length [(demo_secret True True, 5 :: i64)]) \<le> 2 ^ 31"
    by (simp_all add: next_rowid_pay)
  have fs: "faults (m_db (pay_wallet [])) = []" by (simp add: pay_wallet_def)
  have m: "marked_ids [demo_spendable 2 ''bb'' 5] [] = [2]"
    by (simp add: marked_ids_def demo_spendable_def)
  have i: "inserted_outputs [(demo_secret True True, 5 :: i64)] [] = [(demo_secret True True, 5)]"
    by (simp add: inserted_outputs_def)
  have f: "fresh_rowids 3 (Suc 0) = [3]" by (simp add: fresh_rowids_def)
  from ReplaceWebcash_commit_phase [OF e posted_demo a pos fit]
  show ?thesis
    using a pos fit
    by (simp add: posted_demo fs m i f next_rowid_pay map_spend_pay new_row_demo)
qed

text \<open>
  C4.  The new row of an output is to be bound to its reserved secret.  The row gets
  the \<^verbatim>\<open>id\<close> field of the \<^verbatim>\<open>WalletSecret\<close>, and \<^verbatim>\<open>ReserveSecret\<close> returns every secret with
  the id \<open>-1\<close>, whatever row the secret table gave it.  Here a secret is reserved on the
  paying wallet as \<^verbatim>\<open>Insert\<close> reserves its change secret (\<^verbatim>\<open>mine\<close> and \<^verbatim>\<open>sweep\<close> both true);
  the secret table stores it in the row 3.  The replacement of the output 2 by an output
  of that secret, accepted by the server, marks the row 2 spent, inserts the output row
  3 and returns the secret paired with 3; the \<^verbatim>\<open>secret_id\<close> of the new row is \<open>-1\<close>, which
  is the id of no row of the secret table.
\<close>

theorem ReplaceWebcash_row_names_no_secret:
  "fst (ReserveSecret toy_sha 100 True True (pay_wallet [])) = Inr (demo_secret True True) \<and>
   ws_id (demo_secret True True) = - 1 \<and>
   fst (ReplaceWebcash toy_sha server_ok 100 [demo_spendable 2 ''bb'' 5]
          [(demo_secret True True, 5)]
          (snd (ReserveSecret toy_sha 100 True True (pay_wallet [])))) =
     [(demo_secret True True, 3)] \<and>
   output_tab (live (m_db (snd (snd (ReplaceWebcash toy_sha server_ok 100
       [demo_spendable 2 ''bb'' 5] [(demo_secret True True, 5)]
       (snd (ReserveSecret toy_sha 100 True True (pay_wallet [])))))))) =
     [\<lparr>o_id = 1, o_timestamp = 50, o_hash = replicate 32 0, o_secret_id = Some 1,
       o_amount = 0, o_spent = False\<rparr>,
      \<lparr>o_id = 2, o_timestamp = 50, o_hash = replicate 32 0, o_secret_id = Some 2,
       o_amount = 5, o_spent = True\<rparr>,
      \<lparr>o_id = 3, o_timestamp = 100, o_hash = replicate 31 0 @ [48], o_secret_id = Some (- 1),
       o_amount = 5, o_spent = False\<rparr>] \<and>
   secret_tab (live (m_db (snd (snd (ReplaceWebcash toy_sha server_ok 100
       [demo_spendable 2 ''bb'' 5] [(demo_secret True True, 5)]
       (snd (ReserveSecret toy_sha 100 True True (pay_wallet [])))))))) =
     [\<lparr>s_id = 1, s_timestamp = 50, s_secret = ''aa'', s_mine = True, s_sweep = False\<rparr>,
      \<lparr>s_id = 2, s_timestamp = 50, s_secret = ''bb'', s_mine = False, s_sweep = True\<rparr>,
      \<lparr>s_id = 3, s_timestamp = 100, s_secret = ws_secret (demo_secret True True),
        s_mine = True, s_sweep = True\<rparr>]"
proof -
  define w1 where "w1 = snd (ReserveSecret toy_sha 100 True True (pay_wallet []))"
  have w1: "w1 = (pay_wallet [])\<lparr>m_db :=
         committed (reserve_stmts 100 (replicate 64 CHR ''0'') True True 4 0)
           (m_db (pay_wallet []))\<rparr>"
    by (simp add: w1_def reserve_on_pay)
  have l1: "live (m_db w1) = pay_tables\<lparr>
       secret_tab :=
         [\<lparr>s_id = 1, s_timestamp = 50, s_secret = ''aa'', s_mine = True, s_sweep = False\<rparr>,
          \<lparr>s_id = 2, s_timestamp = 50, s_secret = ''bb'', s_mine = False, s_sweep = True\<rparr>,
          \<lparr>s_id = 3, s_timestamp = 100, s_secret = replicate 64 CHR ''0'', s_mine = True,
            s_sweep = True\<rparr>],
       hdkey_tab := [\<lparr>k_id = 1, k_hdchain_id = 4, k_depth = 0, k_secret_id = 3\<rparr>],
       hdchain_tab := [demo_chain False False, demo_chain False True, demo_chain True False,
                       (demo_chain True True)\<lparr>c_maxdepth := 1\<rparr>]\<rparr>"
    unfolding w1 by (simp add: reserved_pay_tables)
  have f1: "faults (m_db w1) = []" unfolding w1 by (simp add: committed_def Let_def)
  have o1: "output_tab (live (m_db w1)) = output_tab (live (m_db (pay_wallet [])))"
    unfolding l1 by (simp add: pay_wallet_def)
  let ?r = "ReplaceWebcash toy_sha server_ok 100 [demo_spendable 2 ''bb'' 5]
              [(demo_secret True True, 5)] w1"
  have e: "?r = (fst ?r, fst (snd ?r), snd (snd ?r))" by simp
  have p: "posted (snd (snd ?r)) =
      posted w1 @ [replace_request_of [demo_spendable 2 ''bb'' 5] [(demo_secret True True, 5)]]"
    by (simp add: ReplaceWebcash_posted accepts_demo)
  have a: "server_ok (replace_request_of [demo_spendable 2 ''bb'' 5] [(demo_secret True True, 5)]) =
     HttpResponse 200 []" by (simp add: server_ok_def)
  have pos: "0 < next_rowid (map o_id (output_tab (live (m_db w1))))"
    and fit: "next_rowid (map o_id (output_tab (live (m_db w1)))) +
     int (length [(demo_secret True True, 5 :: i64)]) \<le> 2 ^ 31"
    by (simp_all add: o1 next_rowid_pay)
  have m: "marked_ids [demo_spendable 2 ''bb'' 5] [] = [2]"
    by (simp add: marked_ids_def demo_spendable_def)
  have i: "inserted_outputs [(demo_secret True True, 5 :: i64)] [] = [(demo_secret True True, 5)]"
    by (simp add: inserted_outputs_def)
  have f: "fresh_rowids 3 (Suc 0) = [3]" by (simp add: fresh_rowids_def)
  from ReplaceWebcash_commit_effect [OF e p a pos fit]
  have r: "fst ?r = [(demo_secret True True, 3)]"
    and l: "live (m_db (snd (snd ?r))) =
      (live (m_db w1))\<lparr>output_tab :=
         map (spend_if {2}) (output_tab (live (m_db (pay_wallet [])))) @
         [new_output_row toy_sha 100 (demo_secret True True, 5) 3]\<rparr>"
    by (simp_all add: f1 m i f o1 next_rowid_pay)
  have "fst (ReserveSecret toy_sha 100 True True (pay_wallet [])) = Inr (demo_secret True True)"
    by (simp add: reserve_on_pay)
  moreover have "ws_id (demo_secret True True) = - 1" by (simp add: demo_secret_def)
  moreover note r
  moreover have "output_tab (live (m_db (snd (snd ?r)))) =
     [\<lparr>o_id = 1, o_timestamp = 50, o_hash = replicate 32 0, o_secret_id = Some 1,
       o_amount = 0, o_spent = False\<rparr>,
      \<lparr>o_id = 2, o_timestamp = 50, o_hash = replicate 32 0, o_secret_id = Some 2,
       o_amount = 5, o_spent = True\<rparr>,
      \<lparr>o_id = 3, o_timestamp = 100, o_hash = replicate 31 0 @ [48], o_secret_id = Some (- 1),
       o_amount = 5, o_spent = False\<rparr>]"
    unfolding l by (simp add: map_spend_pay new_row_reserved)
  moreover have "secret_tab (live (m_db (snd (snd ?r)))) =
     [\<lparr>s_id = 1, s_timestamp = 50, s_secret = ''aa'', s_mine = True, s_sweep = False\<rparr>,
      \<lparr>s_id = 2, s_timestamp = 50, s_secret = ''bb'', s_mine = False, s_sweep = True\<rparr>,
      \<lparr>s_id = 3, s_timestamp = 100, s_secret = ws_secret (demo_secret True True),
        s_mine = True, s_sweep = True\<rparr>]"
    unfolding l by (simp add: l1 demo_secret_def)
  ultimately show ?thesis unfolding w1_def by simp
qed

section \<open>The value that \<^verbatim>\<open>AddSecretToWallet\<close> returns (C5)\<close>

text \<open>
  A call whose recovery file cannot be opened, on a connection without any fault,
  returns 0 although the row of the secret is committed.
\<close>

theorem AddSecretToWallet_zero_without_database_failure:
  "fst (AddSecretToWallet False 100 coin_cc False True (demo_wallet [])) = 0 \<and>
   secret_tab (disk (m_db (snd (AddSecretToWallet False 100 coin_cc False True (demo_wallet []))))) =
     [\<lparr>s_id = 1, s_timestamp = 100, s_secret = ''cc'', s_mine = False, s_sweep = True\<rparr>]"
  by (simp add: AddSecretToWallet_ok committed_add secrets_after_def secret_present_def
        coin_cc_def merge_flags_def next_rowid_def)

text \<open>
  A call with a secret that has a row already returns the value of
  \<^verbatim>\<open>sqlite3_last_insert_rowid\<close>, which the ignored INSERT leaves as it was: here 2, the id
  of the row inserted last, where the row of the secret has the id 1.
\<close>

lemma AddSecretToWallet_existing_secret_demo:
  "select_secret_id (live (m_db (pay_wallet []))) ''aa'' = Some 1 \<and>
   fst (AddSecretToWallet True 100 coin_aa False True (pay_wallet [])) = 2"
  by (simp add: AddSecretToWallet_ok committed_add secret_present_def secret_tab_pay
        select_secret_id_def coin_aa_def to_int32_id)

text \<open>
  C5, as the code has it.  The database transaction is run whether or not the line
  reached the recovery file, and to the same effect; when it runs through the secret has
  a row.  The call returns 0 when the recovery file could not be written or the
  transaction failed.  When both succeed and the secret had no row, the call returns the
  id of the new row (for ids that fit an \<^verbatim>\<open>int\<close>).  A second call with the same secret
  string that follows at once, both calls succeeding, returns what the first returned.
\<close>

theorem AddSecretToWallet_result:
  "m_db (snd (AddSecretToWallet False timestamp esk mine sweep w)) =
     m_db (snd (AddSecretToWallet True timestamp esk mine sweep w)) \<and>
   (\<not> in_txn (m_db w) \<and> fault_free 5 (faults (m_db w)) \<longrightarrow>
      secret_present (disk (m_db (snd (AddSecretToWallet bak_ok timestamp esk mine sweep w))))
        (sk esk)) \<and>
   (\<not> bak_ok \<or> in_txn (m_db w) \<or> \<not> fault_free 5 (faults (m_db w)) \<longrightarrow>
      fst (AddSecretToWallet bak_ok timestamp esk mine sweep w) = 0) \<and>
   (bak_ok \<and> \<not> in_txn (m_db w) \<and> fault_free 5 (faults (m_db w)) \<and>
    \<not> secret_present (live (m_db w)) (sk esk) \<and>
    - (2 ^ 31) \<le> next_rowid (map s_id (secret_tab (live (m_db w)))) \<and>
    next_rowid (map s_id (secret_tab (live (m_db w)))) < 2 ^ 31 \<longrightarrow>
      fst (AddSecretToWallet bak_ok timestamp esk mine sweep w) =
        next_rowid (map s_id (secret_tab (live (m_db w)))) \<and>
      select_secret_id (disk (m_db (snd (AddSecretToWallet bak_ok timestamp esk mine sweep w))))
        (sk esk) = Some (next_rowid (map s_id (secret_tab (live (m_db w)))))) \<and>
   (\<not> in_txn (m_db w) \<and> fault_free 10 (faults (m_db w)) \<and> sk esk' = sk esk \<longrightarrow>
      fst (AddSecretToWallet True timestamp' esk' mine' sweep'
             (snd (AddSecretToWallet True timestamp esk mine sweep w))) =
      fst (AddSecretToWallet True timestamp esk mine sweep w))"
proof -
  let ?ss = "add_stmts timestamp (sk esk) mine sweep"
  have a: "m_db (snd (AddSecretToWallet False timestamp esk mine sweep w)) =
     m_db (snd (AddSecretToWallet True timestamp esk mine sweep w))"
    by (rule AddSecretToWallet_db_independent_of_log)
  have b: "\<not> in_txn (m_db w) \<and> fault_free 5 (faults (m_db w)) \<longrightarrow>
      secret_present (disk (m_db (snd (AddSecretToWallet bak_ok timestamp esk mine sweep w))))
        (sk esk)"
    using secret_present_after [where t = "live (m_db w)" and timestamp = timestamp
        and secret = "sk esk" and mine = mine and sweep = sweep]
    by (simp add: AddSecretToWallet_ok committed_add secret_present_def)
  have c: "\<not> bak_ok \<or> in_txn (m_db w) \<or> \<not> fault_free 5 (faults (m_db w)) \<longrightarrow>
      fst (AddSecretToWallet bak_ok timestamp esk mine sweep w) = 0"
  proof (cases "in_txn (m_db w) \<or> \<not> fault_free 5 (faults (m_db w))")
    case True
    then show ?thesis by (simp add: AddSecretToWallet_fails)
  next
    case False
    then show ?thesis by (simp add: AddSecretToWallet_ok)
  qed
  have d: "bak_ok \<and> \<not> in_txn (m_db w) \<and> fault_free 5 (faults (m_db w)) \<and>
    \<not> secret_present (live (m_db w)) (sk esk) \<and>
    - (2 ^ 31) \<le> next_rowid (map s_id (secret_tab (live (m_db w)))) \<and>
    next_rowid (map s_id (secret_tab (live (m_db w)))) < 2 ^ 31 \<longrightarrow>
      fst (AddSecretToWallet bak_ok timestamp esk mine sweep w) =
        next_rowid (map s_id (secret_tab (live (m_db w)))) \<and>
      select_secret_id (disk (m_db (snd (AddSecretToWallet bak_ok timestamp esk mine sweep w))))
        (sk esk) = Some (next_rowid (map s_id (secret_tab (live (m_db w)))))"
    by (simp add: AddSecretToWallet_ok committed_add to_int32_id select_secret_id_after
          secret_id_for_new)
  have e: "\<not> in_txn (m_db w) \<and> fault_free 10 (faults (m_db w)) \<and> sk esk' = sk esk \<longrightarrow>
      fst (AddSecretToWallet True timestamp' esk' mine' sweep'
             (snd (AddSecretToWallet True timestamp esk mine sweep w))) =
      fst (AddSecretToWallet True timestamp esk mine sweep w)"
  proof (intro impI, elim conjE)
    assume t: "\<not> in_txn (m_db w)" and f: "fault_free 10 (faults (m_db w))" and s: "sk esk' = sk esk"
    from f fault_free_add [of 5 5 "faults (m_db w)"]
    have f1: "fault_free 5 (faults (m_db w))" and f2: "fault_free 5 (drop 5 (faults (m_db w)))"
      by simp_all
    let ?w1 = "snd (AddSecretToWallet True timestamp esk mine sweep w)"
    have w1: "m_db ?w1 = committed ?ss (m_db w)"
      by (simp add: AddSecretToWallet_ok [OF t f1])
    have l: "Suc (Suc (length ?ss)) = 5" by (simp add: add_stmts_def)
    have t1: "\<not> in_txn (m_db ?w1)" and g1: "fault_free 5 (faults (m_db ?w1))"
      using f2 by (simp_all add: w1 committed_def l Let_def)
    have p: "secret_present (live (m_db ?w1)) (sk esk')"
      unfolding w1 s using secret_present_after [where t = "live (m_db w)" and timestamp = timestamp
        and secret = "sk esk" and mine = mine and sweep = sweep]
      by (simp add: committed_add)
    have "fst (AddSecretToWallet True timestamp' esk' mine' sweep' ?w1) =
        to_int32 (last_insert_rowid (m_db ?w1))"
      by (simp add: AddSecretToWallet_ok [OF t1 g1] committed_add p)
    also have "\<dots> = fst (AddSecretToWallet True timestamp esk mine sweep w)"
      by (simp add: AddSecretToWallet_ok [OF t f1])
    finally show "fst (AddSecretToWallet True timestamp' esk' mine' sweep' ?w1) =
      fst (AddSecretToWallet True timestamp esk mine sweep w)" .
  qed
  from a b c d e show ?thesis by blast
qed

theorem AddSecretToWallet_result_witness:
  "\<not> in_txn (m_db (demo_wallet [])) \<and> fault_free 10 (faults (m_db (demo_wallet []))) \<and>
   \<not> secret_present (live (m_db (demo_wallet []))) (sk coin_cc) \<and>
   next_rowid (map s_id (secret_tab (live (m_db (demo_wallet []))))) = 1 \<and>
   fst (AddSecretToWallet True 100 coin_cc False True (demo_wallet [])) = 1 \<and>
   select_secret_id
     (disk (m_db (snd (AddSecretToWallet True 100 coin_cc False True (demo_wallet [])))))
     ''cc'' = Some 1 \<and>
   fst (AddSecretToWallet True 200 coin_cc True False
          (snd (AddSecretToWallet True 100 coin_cc False True (demo_wallet [])))) = 1 \<and>
   \<not> fault_free 5 (faults (m_db (demo_wallet [False, True]))) \<and>
   fst (AddSecretToWallet True 100 coin_cc False True (demo_wallet [False, True])) = 0 \<and>
   secret_present
     (disk (m_db (snd (AddSecretToWallet False 100 coin_cc False True (demo_wallet [])))))
     ''cc''"
proof -
  have n: "next_rowid (map s_id (secret_tab (live (m_db (demo_wallet []))))) = 1"
    and p: "\<not> secret_present (live (m_db (demo_wallet []))) (sk coin_cc)"
    by (simp_all add: next_rowid_def secret_present_def)
  have f: "\<not> fault_free 5 (faults (m_db (demo_wallet [False, True])))"
    by (simp add: fault_free_def)
  note r = AddSecretToWallet_result [where w = "demo_wallet []" and timestamp = 100
      and esk = coin_cc and mine = False and sweep = True and timestamp' = 200
      and esk' = coin_cc and mine' = True and sweep' = False]
  have a: "fst (AddSecretToWallet True 100 coin_cc False True (demo_wallet [])) = 1 \<and>
     select_secret_id
       (disk (m_db (snd (AddSecretToWallet True 100 coin_cc False True (demo_wallet [])))))
       ''cc'' = Some 1 \<and>
     fst (AddSecretToWallet True 200 coin_cc True False
          (snd (AddSecretToWallet True 100 coin_cc False True (demo_wallet [])))) = 1"
    using r [where bak_ok = True] n p by (simp add: coin_cc_def)
  have b: "secret_present
     (disk (m_db (snd (AddSecretToWallet False 100 coin_cc False True (demo_wallet [])))))
     ''cc''"
    using r [where bak_ok = False, THEN conjunct2, THEN conjunct1] by (simp add: coin_cc_def)
  have c: "fst (AddSecretToWallet True 100 coin_cc False True (demo_wallet [False, True])) = 0"
    using AddSecretToWallet_result [where w = "demo_wallet [False, True]" and timestamp = 100
      and esk = coin_cc and mine = False and sweep = True and bak_ok = True] f
    by simp
  from a b c n p f show ?thesis by simp
qed

section \<open>Merging the flags of a secret (C6)\<close>

text \<open>
  C6.  After a successful \<^verbatim>\<open>AddSecretToWallet\<close> or \<^verbatim>\<open>ReserveSecret\<close> the secret table is
  the old one, with a new row for the secret if it had none, and with \<open>merge_flags\<close>
  applied to every row: a row of that secret gets \<open>mine := mine AND incoming\<close> and
  \<open>sweep := sweep OR incoming\<close>, every other row is unchanged.  Along every sequence of
  calls of the wallet's operations each row of the secret table keeps its id and secret,
  \<open>mine\<close> never goes from false to true and \<open>sweep\<close> never from true to false.
\<close>

theorem secret_flags_merge:
  "(\<not> in_txn (m_db w) \<and> fault_free 5 (faults (m_db w)) \<longrightarrow>
      secret_tab (live (m_db (snd (AddSecretToWallet bak_ok timestamp esk mine sweep w)))) =
        map (merge_flags (sk esk) mine sweep)
          (secret_tab (live (m_db w)) @
           (if secret_present (live (m_db w)) (sk esk) then []
            else [\<lparr>s_id = next_rowid (map s_id (secret_tab (live (m_db w)))),
                   s_timestamp = timestamp, s_secret = sk esk, s_mine = mine, s_sweep = sweep\<rparr>]))) \<and>
   (ReserveSecret H timestamp mine sweep w = (Inr ws, w') \<longrightarrow>
      secret_tab (live (m_db w')) =
        map (merge_flags (ws_secret ws) mine sweep)
          (secret_tab (live (m_db w)) @
           (if secret_present (live (m_db w)) (ws_secret ws) then []
            else [\<lparr>s_id = next_rowid (map s_id (secret_tab (live (m_db w)))),
                   s_timestamp = timestamp, s_secret = ws_secret ws, s_mine = mine,
                   s_sweep = sweep\<rparr>]))) \<and>
   (s_secret s = secret \<longrightarrow>
      s_mine (merge_flags secret mine sweep s) = (s_mine s \<and> mine) \<and>
      s_sweep (merge_flags secret mine sweep s) = (s_sweep s \<or> sweep)) \<and>
   (s_secret s \<noteq> secret \<longrightarrow> merge_flags secret mine sweep s = s) \<and>
   flags_mono (live (m_db w)) (live (m_db (run_calls H calls w)))"
proof -
  have a: "\<not> in_txn (m_db w) \<and> fault_free 5 (faults (m_db w)) \<longrightarrow>
      secret_tab (live (m_db (snd (AddSecretToWallet bak_ok timestamp esk mine sweep w)))) =
        secrets_after timestamp (sk esk) mine sweep (live (m_db w))"
    by (simp add: AddSecretToWallet_ok committed_add)
  have b: "ReserveSecret H timestamp mine sweep w = (Inr ws, w') \<longrightarrow>
      secret_tab (live (m_db w')) = secrets_after timestamp (ws_secret ws) mine sweep (live (m_db w))"
  proof
    assume "ReserveSecret H timestamp mine sweep w = (Inr ws, w')"
    from ReserveSecret_Inr_committed [OF this] obtain row :: hdchain_row where
      "w' = w\<lparr>m_db := committed
                  (reserve_stmts timestamp (ws_secret ws) mine sweep (to_int32 (c_id row))
                     (sint (word_of_int (c_maxdepth row) :: i64)))
                  ((m_db w)\<lparr>faults := drop 1 (faults (m_db w))\<rparr>)\<rparr>" by (elim exE conjE)
    then show "secret_tab (live (m_db w')) =
        secrets_after timestamp (ws_secret ws) mine sweep (live (m_db w))"
      by (simp add: committed_reserve secrets_after_def secret_present_def)
  qed
  have c: "s_secret s = secret \<longrightarrow>
      s_mine (merge_flags secret mine sweep s) = (s_mine s \<and> mine) \<and>
      s_sweep (merge_flags secret mine sweep s) = (s_sweep s \<or> sweep)"
    and d: "s_secret s \<noteq> secret \<longrightarrow> merge_flags secret mine sweep s = s"
    by (simp_all add: merge_flags_def)
  have e: "flags_mono (live (m_db w)) (live (m_db (run_calls H calls w)))"
    using db_reach_mono [OF run_calls_reach] by blast
  from a b c d e show ?thesis unfolding secrets_after_def by blast
qed

theorem secret_flags_merge_witness:
  "\<not> in_txn (m_db (pay_wallet [])) \<and> fault_free 5 (faults (m_db (pay_wallet []))) \<and>
   secret_tab (live (m_db (snd (AddSecretToWallet True 100 coin_aa False True (pay_wallet []))))) =
     [\<lparr>s_id = 1, s_timestamp = 50, s_secret = ''aa'', s_mine = False, s_sweep = True\<rparr>,
      \<lparr>s_id = 2, s_timestamp = 50, s_secret = ''bb'', s_mine = False, s_sweep = True\<rparr>] \<and>
   fst (ReserveSecret toy_sha 100 False True (demo_wallet [])) = Inr (demo_secret False True) \<and>
   secret_tab (live (m_db (snd (ReserveSecret toy_sha 100 False True (demo_wallet []))))) =
     [\<lparr>s_id = 1, s_timestamp = 100, s_secret = replicate 64 CHR ''0'', s_mine = False,
       s_sweep = True\<rparr>] \<and>
   s_mine (merge_flags ''aa'' False True
     \<lparr>s_id = 1, s_timestamp = 50, s_secret = ''aa'', s_mine = True, s_sweep = False\<rparr>) = False \<and>
   s_sweep (merge_flags ''aa'' False True
     \<lparr>s_id = 1, s_timestamp = 50, s_secret = ''aa'', s_mine = True, s_sweep = False\<rparr>) = True \<and>
   merge_flags ''aa'' False True
     \<lparr>s_id = 2, s_timestamp = 50, s_secret = ''bb'', s_mine = False, s_sweep = True\<rparr> =
     \<lparr>s_id = 2, s_timestamp = 50, s_secret = ''bb'', s_mine = False, s_sweep = True\<rparr>"
proof -
  let ?aa = "\<lparr>s_id = 1, s_timestamp = 50, s_secret = ''aa'', s_mine = True, s_sweep = False\<rparr>"
  let ?bb = "\<lparr>s_id = 2, s_timestamp = 50, s_secret = ''bb'', s_mine = False, s_sweep = True\<rparr>"
  have e: "ReserveSecret toy_sha 100 False True (demo_wallet []) =
     (Inr (demo_secret False True), snd (ReserveSecret toy_sha 100 False True (demo_wallet [])))"
    using ReserveSecret_demo [of False True]
    by (cases "ReserveSecret toy_sha 100 False True (demo_wallet [])") simp
  have a: "secret_tab (live (m_db (snd (AddSecretToWallet True 100 coin_aa False True (pay_wallet []))))) =
     [\<lparr>s_id = 1, s_timestamp = 50, s_secret = ''aa'', s_mine = False, s_sweep = True\<rparr>, ?bb]"
    using secret_flags_merge [where w = "pay_wallet []" and bak_ok = True and timestamp = 100
        and esk = coin_aa and mine = False and sweep = True]
    by (simp add: secret_tab_pay secret_present_def coin_aa_def merge_flags_def)
  have b: "secret_tab (live (m_db (snd (ReserveSecret toy_sha 100 False True (demo_wallet []))))) =
     [\<lparr>s_id = 1, s_timestamp = 100, s_secret = replicate 64 CHR ''0'', s_mine = False,
       s_sweep = True\<rparr>]"
    using secret_flags_merge [where w = "demo_wallet []" and H = toy_sha and timestamp = 100
        and mine = False and sweep = True and ws = "demo_secret False True"
        and w' = "snd (ReserveSecret toy_sha 100 False True (demo_wallet []))"] e
    by (simp add: secret_present_def demo_secret_def merge_flags_def next_rowid_def)
  have c: "s_mine (merge_flags ''aa'' False True ?aa) = False \<and>
           s_sweep (merge_flags ''aa'' False True ?aa) = True"
    using secret_flags_merge [where s = ?aa and secret = "''aa''" and mine = False and sweep = True]
    by simp
  have d: "merge_flags ''aa'' False True ?bb = ?bb"
    using secret_flags_merge [where s = ?bb and secret = "''aa''" and mine = False and sweep = True]
    by simp
  from a b c d ReserveSecret_demo [of False True] show ?thesis by simp
qed

section \<open>Reservations advance the chain (C7)\<close>

text \<open>
  C7.  A call of \<^verbatim>\<open>ReserveSecret\<close> that returns has read the row of the chain, derived the
  secret at the \<^verbatim>\<open>maxdepth\<close> of that row, and left the tables as the one transaction
  leaves them: the secret merged into the secret table, a row of \<^verbatim>\<open>hdkey\<close> for the secret,
  the chain and that depth appended (unless a row of that secret or of that chain and depth
  exists: the INSERT is \<^verbatim>\<open>OR IGNORE\<close>), and \<^verbatim>\<open>maxdepth\<close> of the chain one higher (for a
  chain id that fits an \<^verbatim>\<open>int\<close>); the committed tables are the live ones.  A call that
  throws leaves the committed tables as they were.  Along every sequence of calls of the
  wallet's operations every row of \<^verbatim>\<open>hdchain\<close> stays, and its \<^verbatim>\<open>maxdepth\<close> never gets
  smaller.  On the wallet that \<^verbatim>\<open>GetOrCreateHDRoot\<close> makes of an empty database, two
  successive calls on the chain (F,T), without a fault of SQLite and with a hash that
  tells the two messages apart, return the secrets of the depths 0 and 1, which differ,
  and leave \<^verbatim>\<open>maxdepth = 2\<close> and the two rows of \<^verbatim>\<open>hdkey\<close> at the depths 0 and 1.
\<close>

theorem ReserveSecret_advances_chain:
  "(ReserveSecret H timestamp mine sweep w = (Inr ws, w') \<longrightarrow>
      (\<exists>row. select_hdchain (live (m_db w)) (m_hdroot_id w) 0 mine sweep = Some row \<and>
         ws_secret ws =
           derive_secret H (m_hdroot w) 0 mine sweep (word_of_int (c_maxdepth row)) \<and>
         secret_tab (live (m_db w')) =
           secrets_after timestamp (ws_secret ws) mine sweep (live (m_db w)) \<and>
         hdkey_tab (live (m_db w')) =
           hdkeys_after (ws_secret ws) (to_int32 (c_id row))
             (sint (word_of_int (c_maxdepth row) :: i64)) (live (m_db w)) \<and>
         hdchain_tab (live (m_db w')) =
           map (bump_maxdepth (to_int32 (c_id row))) (hdchain_tab (live (m_db w))) \<and>
         select_hdchain (live (m_db w')) (m_hdroot_id w') 0 mine sweep =
           Some (bump_maxdepth (to_int32 (c_id row)) row) \<and>
         (- (2 ^ 31) \<le> c_id row \<and> c_id row < 2 ^ 31 \<longrightarrow>
            bump_maxdepth (to_int32 (c_id row)) row =
              row\<lparr>c_maxdepth := c_maxdepth row + 1\<rparr>) \<and>
         disk (m_db w') = live (m_db w'))) \<and>
   (fst (ReserveSecret H timestamp mine sweep w) = Inl e \<longrightarrow>
      disk (m_db (snd (ReserveSecret H timestamp mine sweep w))) = disk (m_db w)) \<and>
   maxdepth_mono (live (m_db w)) (live (m_db (run_calls H calls w))) \<and>
   (fault_free 22 fs \<and>
    H (derive_message H rnd 0 False True 0) \<noteq> H (derive_message H rnd 0 False True 1) \<and>
    opened = snd (GetOrCreateHDRoot rnd now True (empty_wallet fs)) \<and>
    first = ReserveSecret H ts_first False True opened \<and>
    second = ReserveSecret H ts_second False True (snd first) \<longrightarrow>
      fst first = Inr \<lparr>ws_id = - 1, ws_timestamp = ts_first,
                     ws_secret = derive_secret H rnd 0 False True 0,
                     ws_mine = False, ws_sweep = True\<rparr> \<and>
      fst second = Inr \<lparr>ws_id = - 1, ws_timestamp = ts_second,
                     ws_secret = derive_secret H rnd 0 False True 1,
                     ws_mine = False, ws_sweep = True\<rparr> \<and>
      derive_secret H rnd 0 False True 0 \<noteq> derive_secret H rnd 0 False True 1 \<and>
      select_hdchain (live (m_db (snd second))) 1 0 False True =
        Some \<lparr>c_id = 2, c_hdroot_id = 1, c_chaincode = 0, c_mine = False, c_sweep = True,
              c_mindepth = 0, c_maxdepth = 2\<rparr> \<and>
      hdkey_tab (live (m_db (snd second))) =
        [\<lparr>k_id = 1, k_hdchain_id = 2, k_depth = 0, k_secret_id = 1\<rparr>,
         \<lparr>k_id = 2, k_hdchain_id = 2, k_depth = 1, k_secret_id = 2\<rparr>] \<and>
      secret_tab (live (m_db (snd second))) =
        [\<lparr>s_id = 1, s_timestamp = ts_first, s_secret = derive_secret H rnd 0 False True 0,
          s_mine = False, s_sweep = True\<rparr>,
         \<lparr>s_id = 2, s_timestamp = ts_second, s_secret = derive_secret H rnd 0 False True 1,
          s_mine = False, s_sweep = True\<rparr>] \<and>
      disk (m_db (snd second)) = live (m_db (snd second)))"
proof -
  have a: "ReserveSecret H timestamp mine sweep w = (Inr ws, w') \<longrightarrow>
      (\<exists>row. select_hdchain (live (m_db w)) (m_hdroot_id w) 0 mine sweep = Some row \<and>
         ws_secret ws =
           derive_secret H (m_hdroot w) 0 mine sweep (word_of_int (c_maxdepth row)) \<and>
         secret_tab (live (m_db w')) =
           secrets_after timestamp (ws_secret ws) mine sweep (live (m_db w)) \<and>
         hdkey_tab (live (m_db w')) =
           hdkeys_after (ws_secret ws) (to_int32 (c_id row))
             (sint (word_of_int (c_maxdepth row) :: i64)) (live (m_db w)) \<and>
         hdchain_tab (live (m_db w')) =
           map (bump_maxdepth (to_int32 (c_id row))) (hdchain_tab (live (m_db w))) \<and>
         select_hdchain (live (m_db w')) (m_hdroot_id w') 0 mine sweep =
           Some (bump_maxdepth (to_int32 (c_id row)) row) \<and>
         (- (2 ^ 31) \<le> c_id row \<and> c_id row < 2 ^ 31 \<longrightarrow>
            bump_maxdepth (to_int32 (c_id row)) row =
              row\<lparr>c_maxdepth := c_maxdepth row + 1\<rparr>) \<and>
         disk (m_db w') = live (m_db w'))"
  proof
    assume "ReserveSecret H timestamp mine sweep w = (Inr ws, w')"
    from ReserveSecret_call [OF this] obtain row :: hdchain_row where
      r: "select_hdchain (live (m_db w)) (m_hdroot_id w) 0 mine sweep = Some row \<and>
         ws_secret ws =
           derive_secret H (m_hdroot w) 0 mine sweep (word_of_int (c_maxdepth row)) \<and>
         secret_tab (live (m_db w')) =
           secrets_after timestamp (ws_secret ws) mine sweep (live (m_db w)) \<and>
         hdkey_tab (live (m_db w')) =
           hdkeys_after (ws_secret ws) (to_int32 (c_id row))
             (sint (word_of_int (c_maxdepth row) :: i64)) (live (m_db w)) \<and>
         hdchain_tab (live (m_db w')) =
           map (bump_maxdepth (to_int32 (c_id row))) (hdchain_tab (live (m_db w))) \<and>
         select_hdchain (live (m_db w')) (m_hdroot_id w') 0 mine sweep =
           Some (bump_maxdepth (to_int32 (c_id row)) row) \<and>
         disk (m_db w') = live (m_db w')"
      by (elim exE)
    show "\<exists>row. select_hdchain (live (m_db w)) (m_hdroot_id w) 0 mine sweep = Some row \<and>
         ws_secret ws =
           derive_secret H (m_hdroot w) 0 mine sweep (word_of_int (c_maxdepth row)) \<and>
         secret_tab (live (m_db w')) =
           secrets_after timestamp (ws_secret ws) mine sweep (live (m_db w)) \<and>
         hdkey_tab (live (m_db w')) =
           hdkeys_after (ws_secret ws) (to_int32 (c_id row))
             (sint (word_of_int (c_maxdepth row) :: i64)) (live (m_db w)) \<and>
         hdchain_tab (live (m_db w')) =
           map (bump_maxdepth (to_int32 (c_id row))) (hdchain_tab (live (m_db w))) \<and>
         select_hdchain (live (m_db w')) (m_hdroot_id w') 0 mine sweep =
           Some (bump_maxdepth (to_int32 (c_id row)) row) \<and>
         (- (2 ^ 31) \<le> c_id row \<and> c_id row < 2 ^ 31 \<longrightarrow>
            bump_maxdepth (to_int32 (c_id row)) row =
              row\<lparr>c_maxdepth := c_maxdepth row + 1\<rparr>) \<and>
         disk (m_db w') = live (m_db w')"
      by (rule exI [of _ row]) (use r bump_maxdepth_own [of row] in simp)
  qed
  have b: "fst (ReserveSecret H timestamp mine sweep w) = Inl e \<longrightarrow>
      disk (m_db (snd (ReserveSecret H timestamp mine sweep w))) = disk (m_db w)"
    by (simp add: ReserveSecret_Inl_disk)
  have c: "maxdepth_mono (live (m_db w)) (live (m_db (run_calls H calls w)))"
    using db_reach_mono [OF run_calls_reach] by blast
  have d: "fault_free 22 fs \<and>
    H (derive_message H rnd 0 False True 0) \<noteq> H (derive_message H rnd 0 False True 1) \<and>
    opened = snd (GetOrCreateHDRoot rnd now True (empty_wallet fs)) \<and>
    first = ReserveSecret H ts_first False True opened \<and>
    second = ReserveSecret H ts_second False True (snd first) \<longrightarrow>
      fst first = Inr \<lparr>ws_id = - 1, ws_timestamp = ts_first,
                     ws_secret = derive_secret H rnd 0 False True 0,
                     ws_mine = False, ws_sweep = True\<rparr> \<and>
      fst second = Inr \<lparr>ws_id = - 1, ws_timestamp = ts_second,
                     ws_secret = derive_secret H rnd 0 False True 1,
                     ws_mine = False, ws_sweep = True\<rparr> \<and>
      derive_secret H rnd 0 False True 0 \<noteq> derive_secret H rnd 0 False True 1 \<and>
      select_hdchain (live (m_db (snd second))) 1 0 False True =
        Some \<lparr>c_id = 2, c_hdroot_id = 1, c_chaincode = 0, c_mine = False, c_sweep = True,
              c_mindepth = 0, c_maxdepth = 2\<rparr> \<and>
      hdkey_tab (live (m_db (snd second))) =
        [\<lparr>k_id = 1, k_hdchain_id = 2, k_depth = 0, k_secret_id = 1\<rparr>,
         \<lparr>k_id = 2, k_hdchain_id = 2, k_depth = 1, k_secret_id = 2\<rparr>] \<and>
      secret_tab (live (m_db (snd second))) =
        [\<lparr>s_id = 1, s_timestamp = ts_first, s_secret = derive_secret H rnd 0 False True 0,
          s_mine = False, s_sweep = True\<rparr>,
         \<lparr>s_id = 2, s_timestamp = ts_second, s_secret = derive_secret H rnd 0 False True 1,
          s_mine = False, s_sweep = True\<rparr>] \<and>
      disk (m_db (snd second)) = live (m_db (snd second))"
  proof (intro impI, elim conjE)
    assume f: "fault_free 22 fs"
      and n: "H (derive_message H rnd 0 False True 0) \<noteq> H (derive_message H rnd 0 False True 1)"
      and opened: "opened = snd (GetOrCreateHDRoot rnd now True (empty_wallet fs))"
      and first: "first = ReserveSecret H ts_first False True opened"
      and second: "second = ReserveSecret H ts_second False True (snd first)"
    note t = two_reservations [OF f n opened first second]
    show "fst first = Inr \<lparr>ws_id = - 1, ws_timestamp = ts_first,
                     ws_secret = derive_secret H rnd 0 False True 0,
                     ws_mine = False, ws_sweep = True\<rparr> \<and>
      fst second = Inr \<lparr>ws_id = - 1, ws_timestamp = ts_second,
                     ws_secret = derive_secret H rnd 0 False True 1,
                     ws_mine = False, ws_sweep = True\<rparr> \<and>
      derive_secret H rnd 0 False True 0 \<noteq> derive_secret H rnd 0 False True 1 \<and>
      select_hdchain (live (m_db (snd second))) 1 0 False True =
        Some \<lparr>c_id = 2, c_hdroot_id = 1, c_chaincode = 0, c_mine = False, c_sweep = True,
              c_mindepth = 0, c_maxdepth = 2\<rparr> \<and>
      hdkey_tab (live (m_db (snd second))) =
        [\<lparr>k_id = 1, k_hdchain_id = 2, k_depth = 0, k_secret_id = 1\<rparr>,
         \<lparr>k_id = 2, k_hdchain_id = 2, k_depth = 1, k_secret_id = 2\<rparr>] \<and>
      secret_tab (live (m_db (snd second))) =
        [\<lparr>s_id = 1, s_timestamp = ts_first, s_secret = derive_secret H rnd 0 False True 0,
          s_mine = False, s_sweep = True\<rparr>,
         \<lparr>s_id = 2, s_timestamp = ts_second, s_secret = derive_secret H rnd 0 False True 1,
          s_mine = False, s_sweep = True\<rparr>] \<and>
      disk (m_db (snd second)) = live (m_db (snd second))"
      using t(4) by (intro conjI t(1,2,3,5,6,7)) (simp add: fresh_chain_def)
  qed
  show ?thesis by (intro conjI a b c d)
qed

theorem ReserveSecret_advances_chain_witness:
  "ReserveSecret toy_sha 100 False True (demo_wallet []) =
     (Inr (demo_secret False True), snd (ReserveSecret toy_sha 100 False True (demo_wallet []))) \<and>
   select_hdchain (live (m_db (demo_wallet []))) 1 0 False True = Some (demo_chain False True) \<and>
   select_hdchain (live (m_db (snd (ReserveSecret toy_sha 100 False True (demo_wallet [])))))
     1 0 False True = Some ((demo_chain False True)\<lparr>c_maxdepth := 1\<rparr>) \<and>
   hdkey_tab (live (m_db (snd (ReserveSecret toy_sha 100 False True (demo_wallet []))))) =
     [\<lparr>k_id = 1, k_hdchain_id = 2, k_depth = 0, k_secret_id = 1\<rparr>] \<and>
   fst (ReserveSecret toy_sha 100 False True (demo_wallet [True])) =
     Inl ''Running SQL statement returned unexpected status code'' \<and>
   disk (m_db (snd (ReserveSecret toy_sha 100 False True (demo_wallet [True])))) = demo_tables \<and>
   fault_free 22 [] \<and>
   toy_sha (derive_message toy_sha zero256 0 False True 0) \<noteq>
     toy_sha (derive_message toy_sha zero256 0 False True 1) \<and>
   fst (ReserveSecret toy_sha 100 False True
          (snd (GetOrCreateHDRoot zero256 1000 True (empty_wallet [])))) =
     Inr \<lparr>ws_id = - 1, ws_timestamp = 100, ws_secret = replicate 64 CHR ''0'',
          ws_mine = False, ws_sweep = True\<rparr> \<and>
   fst (ReserveSecret toy_sha 200 False True
          (snd (ReserveSecret toy_sha 100 False True
                  (snd (GetOrCreateHDRoot zero256 1000 True (empty_wallet [])))))) =
     Inr \<lparr>ws_id = - 1, ws_timestamp = 200, ws_secret = replicate 62 CHR ''0'' @ ''01'',
          ws_mine = False, ws_sweep = True\<rparr> \<and>
   select_hdchain
     (live (m_db (snd (ReserveSecret toy_sha 200 False True
          (snd (ReserveSecret toy_sha 100 False True
                  (snd (GetOrCreateHDRoot zero256 1000 True (empty_wallet [])))))))))
     1 0 False True =
     Some \<lparr>c_id = 2, c_hdroot_id = 1, c_chaincode = 0, c_mine = False, c_sweep = True,
           c_mindepth = 0, c_maxdepth = 2\<rparr> \<and>
   hdkey_tab
     (live (m_db (snd (ReserveSecret toy_sha 200 False True
          (snd (ReserveSecret toy_sha 100 False True
                  (snd (GetOrCreateHDRoot zero256 1000 True (empty_wallet []))))))))) =
     [\<lparr>k_id = 1, k_hdchain_id = 2, k_depth = 0, k_secret_id = 1\<rparr>,
      \<lparr>k_id = 2, k_hdchain_id = 2, k_depth = 1, k_secret_id = 2\<rparr>]"
proof -
  let ?w' = "snd (ReserveSecret toy_sha 100 False True (demo_wallet []))"
  have e: "ReserveSecret toy_sha 100 False True (demo_wallet []) = (Inr (demo_secret False True), ?w')"
    using ReserveSecret_demo [of False True]
    by (cases "ReserveSecret toy_sha 100 False True (demo_wallet [])") simp
  have s: "select_hdchain (live (m_db (demo_wallet []))) 1 0 False True =
      Some (demo_chain False True)"
    using select_demo [of "[]" False True] by simp
  from ReserveSecret_advances_chain [where H = toy_sha and timestamp = 100 and mine = False
      and sweep = True and w = "demo_wallet []" and ws = "demo_secret False True" and w' = ?w',
      THEN conjunct1, rule_format, OF e]
  obtain row :: hdchain_row where
    r: "select_hdchain (live (m_db (demo_wallet []))) (m_hdroot_id (demo_wallet [])) 0 False True =
          Some row"
    and k: "hdkey_tab (live (m_db ?w')) =
           hdkeys_after (ws_secret (demo_secret False True)) (to_int32 (c_id row))
             (sint (word_of_int (c_maxdepth row) :: i64)) (live (m_db (demo_wallet [])))"
    and c: "select_hdchain (live (m_db ?w')) (m_hdroot_id ?w') 0 False True =
           Some (bump_maxdepth (to_int32 (c_id row)) row)"
    and b: "- (2 ^ 31) \<le> c_id row \<and> c_id row < 2 ^ 31 \<longrightarrow>
            bump_maxdepth (to_int32 (c_id row)) row = row\<lparr>c_maxdepth := c_maxdepth row + 1\<rparr>"
    by (elim exE conjE)
  from r s have row: "row = demo_chain False True" by simp
  have h: "m_hdroot_id ?w' = 1"
    using e ReserveSecret_Inr_committed [OF e] by auto
  have a1: "select_hdchain (live (m_db ?w')) 1 0 False True =
      Some ((demo_chain False True)\<lparr>c_maxdepth := 1\<rparr>)"
    using c b unfolding row h by (simp add: demo_chain_def)
  have a2: "hdkey_tab (live (m_db ?w')) =
      [\<lparr>k_id = 1, k_hdchain_id = 2, k_depth = 0, k_secret_id = 1\<rparr>]"
    unfolding k row
    by (simp add: hdkeys_after_def hdkey_conflict_def secret_id_for_def select_secret_id_def
          next_rowid_def demo_wallet_def demo_tables_def demo_chain_def to_int32_id)
  have i: "fst (ReserveSecret toy_sha 100 False True (demo_wallet [True])) =
       Inl ''Running SQL statement returned unexpected status code''"
    by (simp add: ReserveSecret_first_query_fails)
  have i2: "disk (m_db (snd (ReserveSecret toy_sha 100 False True (demo_wallet [True])))) =
       demo_tables"
    using ReserveSecret_advances_chain [where H = toy_sha and timestamp = 100 and mine = False
      and sweep = True and w = "demo_wallet [True]"
      and e = "''Running SQL statement returned unexpected status code''",
      THEN conjunct2, THEN conjunct1] i
    by (simp add: demo_wallet_def)
  note t = ReserveSecret_advances_chain [where H = toy_sha and rnd = zero256 and now = 1000
      and fs = "[]" and ts_first = 100 and ts_second = 200
      and opened = "snd (GetOrCreateHDRoot zero256 1000 True (empty_wallet []))"
      and first = "ReserveSecret toy_sha 100 False True
                  (snd (GetOrCreateHDRoot zero256 1000 True (empty_wallet [])))"
      and second = "ReserveSecret toy_sha 200 False True
          (snd (ReserveSecret toy_sha 100 False True
                  (snd (GetOrCreateHDRoot zero256 1000 True (empty_wallet [])))))",
      THEN conjunct2, THEN conjunct2, THEN conjunct2]
  from t toy_messages_differ
  have two: "fst (ReserveSecret toy_sha 100 False True
          (snd (GetOrCreateHDRoot zero256 1000 True (empty_wallet [])))) =
     Inr \<lparr>ws_id = - 1, ws_timestamp = 100, ws_secret = replicate 64 CHR ''0'',
          ws_mine = False, ws_sweep = True\<rparr> \<and>
   fst (ReserveSecret toy_sha 200 False True
          (snd (ReserveSecret toy_sha 100 False True
                  (snd (GetOrCreateHDRoot zero256 1000 True (empty_wallet [])))))) =
     Inr \<lparr>ws_id = - 1, ws_timestamp = 200, ws_secret = replicate 62 CHR ''0'' @ ''01'',
          ws_mine = False, ws_sweep = True\<rparr> \<and>
   select_hdchain
     (live (m_db (snd (ReserveSecret toy_sha 200 False True
          (snd (ReserveSecret toy_sha 100 False True
                  (snd (GetOrCreateHDRoot zero256 1000 True (empty_wallet [])))))))))
     1 0 False True =
     Some \<lparr>c_id = 2, c_hdroot_id = 1, c_chaincode = 0, c_mine = False, c_sweep = True,
           c_mindepth = 0, c_maxdepth = 2\<rparr> \<and>
   hdkey_tab
     (live (m_db (snd (ReserveSecret toy_sha 200 False True
          (snd (ReserveSecret toy_sha 100 False True
                  (snd (GetOrCreateHDRoot zero256 1000 True (empty_wallet []))))))))) =
     [\<lparr>k_id = 1, k_hdchain_id = 2, k_depth = 0, k_secret_id = 1\<rparr>,
      \<lparr>k_id = 2, k_hdchain_id = 2, k_depth = 1, k_secret_id = 2\<rparr>]"
    by (simp add: derive_toy_0 derive_toy_1)
  from e s a1 a2 i i2 toy_messages_differ two show ?thesis by simp
qed

section \<open>Creating the root (C8)\<close>

text \<open>
  C8.  \<^verbatim>\<open>GetOrCreateHDRoot\<close> on a wallet whose \<^verbatim>\<open>hdroot\<close> table is empty (the count query
  succeeding).  When the recovery file cannot be opened the call throws and the tables
  are untouched.  Otherwise the line \<^verbatim>\<open><timestamp> hdroot <hex> version=1\<close>, with the 64
  hexadecimal digits of the 32 random bytes, is appended to the recovery file whatever
  the database does afterwards.  Without a fault of SQLite the call returns, the
  \<^verbatim>\<open>hdroot\<close> table is the one root row, the \<^verbatim>\<open>hdchain\<close> table has got the four chains
  (F,F), (F,T), (T,F), (T,T) of that root with chaincode 0 and maxdepth 0 (no row of
  \<^verbatim>\<open>hdchain\<close> naming the root id before), the committed tables are the live ones and the
  wallet holds the root and its id.  In every outcome the committed tables are either
  the old ones or the old ones after both INSERT statements: the root never without its
  chains.
\<close>

theorem GetOrCreateHDRoot_creates_root:
  assumes "hdroot_tab (live (m_db w)) = []" and "fault_free 1 (faults (m_db w))"
  shows
    "(\<not> bak_ok \<longrightarrow>
        fst (GetOrCreateHDRoot rnd now bak_ok w) =
          Inl ''Unable to open/create wallet recovery file to save wallet master key.'' \<and>
        live (m_db (snd (GetOrCreateHDRoot rnd now bak_ok w))) = live (m_db w) \<and>
        disk (m_db (snd (GetOrCreateHDRoot rnd now bak_ok w))) = disk (m_db w) \<and>
        bak (snd (GetOrCreateHDRoot rnd now bak_ok w)) = bak w) \<and>
     (bak_ok \<longrightarrow>
        bak (snd (GetOrCreateHDRoot rnd now bak_ok w)) =
          bak w @ [to_string_int now @ '' hdroot '' @ BytesToHexString (Rep_uint256 rnd) @
                   '' version=1'']) \<and>
     length (BytesToHexString (Rep_uint256 rnd)) = 64 \<and>
     (bak_ok \<and> \<not> in_txn (m_db w) \<and> fault_free 6 (faults (m_db w)) \<and>
      (\<forall>c\<in>set (hdchain_tab (live (m_db w))). c_hdroot_id c \<noteq> 1) \<longrightarrow>
        fst (GetOrCreateHDRoot rnd now bak_ok w) = Inr () \<and>
        live (m_db (snd (GetOrCreateHDRoot rnd now bak_ok w))) =
          (live (m_db w))
            \<lparr>hdroot_tab := [\<lparr>r_id = 1, r_timestamp = now, r_version = 1,
                              r_secret = Rep_uint256 rnd\<rparr>],
             hdchain_tab := hdchain_tab (live (m_db w)) @
               initial_chains (next_rowid (map c_id (hdchain_tab (live (m_db w))))) 1\<rparr> \<and>
        disk (m_db (snd (GetOrCreateHDRoot rnd now bak_ok w))) =
          live (m_db (snd (GetOrCreateHDRoot rnd now bak_ok w))) \<and>
        m_hdroot (snd (GetOrCreateHDRoot rnd now bak_ok w)) = rnd \<and>
        m_hdroot_id (snd (GetOrCreateHDRoot rnd now bak_ok w)) = 1) \<and>
     (disk (m_db (snd (GetOrCreateHDRoot rnd now bak_ok w))) = disk (m_db w) \<or>
      disk (m_db (snd (GetOrCreateHDRoot rnd now bak_ok w))) =
        fst (fold apply_stmt [INSERT_hdroot now (Rep_uint256 rnd), INSERT_hdchain (Rep_uint256 rnd)]
               (live (m_db w), last_insert_rowid (m_db w))))"
proof -
  have a: "\<not> bak_ok \<longrightarrow>
        fst (GetOrCreateHDRoot rnd now bak_ok w) =
          Inl ''Unable to open/create wallet recovery file to save wallet master key.'' \<and>
        live (m_db (snd (GetOrCreateHDRoot rnd now bak_ok w))) = live (m_db w) \<and>
        disk (m_db (snd (GetOrCreateHDRoot rnd now bak_ok w))) = disk (m_db w) \<and>
        bak (snd (GetOrCreateHDRoot rnd now bak_ok w)) = bak w"
    by (simp add: GetOrCreateHDRoot_no_log [OF assms])
  have b: "bak_ok \<longrightarrow>
        bak (snd (GetOrCreateHDRoot rnd now bak_ok w)) =
          bak w @ [to_string_int now @ '' hdroot '' @ BytesToHexString (Rep_uint256 rnd) @
                   '' version=1'']"
    using GetOrCreateHDRoot_bak [OF assms, of rnd now] by (simp add: hdroot_line_def)
  have c: "length (BytesToHexString (Rep_uint256 rnd)) = 64"
    by (simp add: length_BytesToHexString)
  have d: "bak_ok \<and> \<not> in_txn (m_db w) \<and> fault_free 6 (faults (m_db w)) \<and>
      (\<forall>c\<in>set (hdchain_tab (live (m_db w))). c_hdroot_id c \<noteq> 1) \<longrightarrow>
        fst (GetOrCreateHDRoot rnd now bak_ok w) = Inr () \<and>
        live (m_db (snd (GetOrCreateHDRoot rnd now bak_ok w))) =
          (live (m_db w))
            \<lparr>hdroot_tab := [\<lparr>r_id = 1, r_timestamp = now, r_version = 1,
                              r_secret = Rep_uint256 rnd\<rparr>],
             hdchain_tab := hdchain_tab (live (m_db w)) @
               initial_chains (next_rowid (map c_id (hdchain_tab (live (m_db w))))) 1\<rparr> \<and>
        disk (m_db (snd (GetOrCreateHDRoot rnd now bak_ok w))) =
          live (m_db (snd (GetOrCreateHDRoot rnd now bak_ok w))) \<and>
        m_hdroot (snd (GetOrCreateHDRoot rnd now bak_ok w)) = rnd \<and>
        m_hdroot_id (snd (GetOrCreateHDRoot rnd now bak_ok w)) = 1"
    by (simp add: GetOrCreateHDRoot_creates [OF assms(1)] new_root_tables_def)
  have e: "disk (m_db (snd (GetOrCreateHDRoot rnd now bak_ok w))) = disk (m_db w) \<or>
      disk (m_db (snd (GetOrCreateHDRoot rnd now bak_ok w))) =
        fst (fold apply_stmt [INSERT_hdroot now (Rep_uint256 rnd), INSERT_hdchain (Rep_uint256 rnd)]
               (live (m_db w), last_insert_rowid (m_db w)))"
    using GetOrCreateHDRoot_disk [OF assms, of rnd now bak_ok] unfolding hdroot_stmts_def .
  from a b c d e show ?thesis by blast
qed

theorem GetOrCreateHDRoot_creates_root_witness:
  "hdroot_tab (live (m_db (empty_wallet []))) = [] \<and>
   fault_free 6 (faults (m_db (empty_wallet []))) \<and>
   fst (GetOrCreateHDRoot zero256 1000 False (empty_wallet [])) =
     Inl ''Unable to open/create wallet recovery file to save wallet master key.'' \<and>
   disk (m_db (snd (GetOrCreateHDRoot zero256 1000 False (empty_wallet [])))) = empty_tables \<and>
   fst (GetOrCreateHDRoot zero256 1000 True (empty_wallet [])) = Inr () \<and>
   live (m_db (snd (GetOrCreateHDRoot zero256 1000 True (empty_wallet [])))) = demo_tables \<and>
   disk (m_db (snd (GetOrCreateHDRoot zero256 1000 True (empty_wallet [])))) = demo_tables \<and>
   m_hdroot_id (snd (GetOrCreateHDRoot zero256 1000 True (empty_wallet []))) = 1 \<and>
   bak (snd (GetOrCreateHDRoot zero256 1000 True (empty_wallet []))) =
     [''1000 hdroot '' @ replicate 64 CHR ''0'' @ '' version=1'']"
proof -
  have e: "hdroot_tab (live (m_db (empty_wallet []))) = []"
    and c: "\<forall>c\<in>set (hdchain_tab (live (m_db (empty_wallet [])))). c_hdroot_id c \<noteq> 1"
    by (simp_all add: empty_tables_def)
  have f: "fault_free 1 (faults (m_db (empty_wallet [])))" by simp
  note r = GetOrCreateHDRoot_creates_root [OF e f, where rnd = zero256 and now = 1000]
  have a: "fst (GetOrCreateHDRoot zero256 1000 False (empty_wallet [])) =
     Inl ''Unable to open/create wallet recovery file to save wallet master key.'' \<and>
     disk (m_db (snd (GetOrCreateHDRoot zero256 1000 False (empty_wallet [])))) = empty_tables"
    using r [where bak_ok = False, THEN conjunct1] by simp
  have b: "fst (GetOrCreateHDRoot zero256 1000 True (empty_wallet [])) = Inr () \<and>
     live (m_db (snd (GetOrCreateHDRoot zero256 1000 True (empty_wallet [])))) = demo_tables \<and>
     disk (m_db (snd (GetOrCreateHDRoot zero256 1000 True (empty_wallet [])))) = demo_tables \<and>
     m_hdroot_id (snd (GetOrCreateHDRoot zero256 1000 True (empty_wallet []))) = 1"
    using r [where bak_ok = True, THEN conjunct2, THEN conjunct2, THEN conjunct2, THEN conjunct1] c
    by (simp add: new_root_demo)
  have d: "bak (snd (GetOrCreateHDRoot zero256 1000 True (empty_wallet []))) =
     [''1000 hdroot '' @ replicate 64 CHR ''0'' @ '' version=1'']"
    using r [where bak_ok = True, THEN conjunct2, THEN conjunct1]
    by (simp add: to_string_1000 Rep_zero256 BytesToHexString_zeros)
  from a b d e show ?thesis by simp
qed

section \<open>The id of a reserved secret (C9)\<close>

text \<open>
  C9.  Every \<^verbatim>\<open>WalletSecret\<close> that \<^verbatim>\<open>ReserveSecret\<close> returns has the id \<open>-1\<close>: the local
  \<^verbatim>\<open>secret_id\<close> keeps its initial value, whatever row the database gave the secret.
\<close>

theorem ReserveSecret_id_is_minus_one:
  assumes "ReserveSecret H timestamp mine sweep w = (Inr ws, w')"
  shows "ws_id ws = - 1"
  using ReserveSecret_Inr [OF assms] by auto

theorem ReserveSecret_id_is_minus_one_witness:
  "ReserveSecret toy_sha 100 True True (demo_wallet []) =
     (Inr (demo_secret True True), snd (ReserveSecret toy_sha 100 True True (demo_wallet []))) \<and>
   ws_id (demo_secret True True) = - 1"
proof -
  have e: "ReserveSecret toy_sha 100 True True (demo_wallet []) =
     (Inr (demo_secret True True), snd (ReserveSecret toy_sha 100 True True (demo_wallet [])))"
    using ReserveSecret_demo [of True True]
    by (cases "ReserveSecret toy_sha 100 True True (demo_wallet [])") simp
  from ReserveSecret_id_is_minus_one [OF e] e show ?thesis by simp
qed

section \<open>Inputs are marked in memory whatever the database does (C10)\<close>

text \<open>
  C10.  In the commit phase every input object of the caller gets \<^verbatim>\<open>spent = true\<close>, for
  every outcome of the UPDATE statements: the assignment precedes the statement and does
  not depend on it.  The rows of the database are marked only for the inputs whose UPDATE
  succeeded, so an input whose UPDATE failed reports \<^verbatim>\<open>spent\<close> in memory while its row
  does not.
\<close>

theorem ReplaceWebcash_inputs_spent_in_memory:
  assumes call: "ReplaceWebcash H server timestamp inputs outputs w = (ret, inputs', w')"
    and posted: "posted w' = posted w @ [req]"
    and answer: "server req = HttpResponse 200 body"
  shows "inputs' = map (\<lambda>webcash. webcash\<lparr>wo_spent := True\<rparr>) inputs \<and>
         take (length (output_tab (live (m_db w)))) (output_tab (live (m_db w'))) =
           map (spend_if (set (marked_ids inputs (faults (m_db w))))) (output_tab (live (m_db w)))"
  by (rule ReplaceWebcash_inputs_effect [OF call posted answer])

theorem ReplaceWebcash_inputs_spent_in_memory_witness:
  "posted (snd (snd (ReplaceWebcash toy_sha server_ok 200 [demo_spendable 2 ''bb'' 5]
       [(demo_secret True True, 5)] (pay_wallet [True])))) =
     posted (pay_wallet [True]) @
       [replace_request_of [demo_spendable 2 ''bb'' 5] [(demo_secret True True, 5)]] \<and>
   server_ok (replace_request_of [demo_spendable 2 ''bb'' 5] [(demo_secret True True, 5)]) =
     HttpResponse 200 [] \<and>
   fst (snd (ReplaceWebcash toy_sha server_ok 200 [demo_spendable 2 ''bb'' 5]
          [(demo_secret True True, 5)] (pay_wallet [True]))) =
     [(demo_spendable 2 ''bb'' 5)\<lparr>wo_spent := True\<rparr>] \<and>
   take 2 (output_tab (live (m_db (snd (snd (ReplaceWebcash toy_sha server_ok 200
       [demo_spendable 2 ''bb'' 5] [(demo_secret True True, 5)] (pay_wallet [True]))))))) =
     [\<lparr>o_id = 1, o_timestamp = 50, o_hash = replicate 32 0, o_secret_id = Some 1,
       o_amount = 0, o_spent = False\<rparr>,
      \<lparr>o_id = 2, o_timestamp = 50, o_hash = replicate 32 0, o_secret_id = Some 2,
       o_amount = 5, o_spent = False\<rparr>]"
proof -
  let ?r = "ReplaceWebcash toy_sha server_ok 200 [demo_spendable 2 ''bb'' 5]
              [(demo_secret True True, 5)] (pay_wallet [True])"
  have e: "?r = (fst ?r, fst (snd ?r), snd (snd ?r))" by simp
  have a: "server_ok (replace_request_of [demo_spendable 2 ''bb'' 5] [(demo_secret True True, 5)]) =
     HttpResponse 200 []" by (simp add: server_ok_def)
  have fs: "faults (m_db (pay_wallet [True])) = [True]" by (simp add: pay_wallet_def)
  have m: "marked_ids [demo_spendable 2 ''bb'' 5] [True] = []"
    by (simp add: marked_ids_def)
  have l: "length (output_tab (live (m_db (pay_wallet [True])))) = 2"
    by (simp add: pay_wallet_def pay_tables_def)
  from ReplaceWebcash_inputs_spent_in_memory [OF e posted_demo a]
  show ?thesis
    using a by (simp add: posted_demo fs m l map_spend_pay)
qed

end
